(* ===== verification/KMS_Prelude.thy ===== *)
theory KMS_Prelude
  imports Complex_Main
begin

text \<open>
  The prelude of the development: the values every component exchanges.
  Go's byte slices and strings are both \<open>string\<close> (a list of bytes), so the conversions
  \<open>[]byte(s)\<close> and \<open>string(b)\<close> of the source are the identity.
  Errors are values: \<open>go_error\<close> is an error with the chain that \<open>errors.As\<close> walks, and
  \<open>outcome\<close> is what a Go function with an error result can do (return a value, return an error,
  panic).
  The effects the code has on logging and on the Prometheus collectors are recorded as the list of
  calls it makes (\<open>event\<close>), oldest first.
\<close>

named_theorems go_simps "equations that evaluate the operations of the model"
named_theorems go_splits "splits for the results the operations branch on"

type_synonym bytes = string

subsection \<open>Bytes\<close>

lemma of_char_less [simp]: "of_char (c :: char) < (256 :: nat)"
  by (cases c) (simp add: of_char_def horner_sum_simps)

lemma of_char_nibbles:
  "of_char (c :: char) div 16 < (16 :: nat)" "of_char (c :: char) mod 16 < (16 :: nat)"
  using of_char_less [of c] by (simp_all add: less_mult_imp_div_less)

subsection \<open>Errors and outcomes\<close>

text \<open>
  \<open>ErrNew\<close> is \<open>errors.New\<close> or any error of a library that wraps nothing;
  \<open>ErrWrap t e\<close> is \<open>fmt.Errorf("t: %w", e)\<close>; \<open>ErrChain t e\<close> is a library's error with its own
  text \<open>t\<close> that unwraps to \<open>e\<close>; \<open>ErrResponse code t\<close> is the Vault library's
  \<open>*api.ResponseError\<close> with its HTTP status code.
\<close>

datatype go_error =
    ErrNew string
  | ErrWrap string go_error
  | ErrChain string go_error
  | ErrResponse nat string

text \<open>\<open>err.Error()\<close>.\<close>

fun error_text :: "go_error \<Rightarrow> string" where
  "error_text (ErrNew t) = t"
| "error_text (ErrWrap t e) = t @ '': '' @ error_text e"
| "error_text (ErrChain t e) = t"
| "error_text (ErrResponse code t) = t"

text \<open>\<open>errors.As(err, &respErr)\<close>: the status code of the first response error of the chain.\<close>

fun as_response_error :: "go_error \<Rightarrow> nat option" where
  "as_response_error (ErrNew t) = None"
| "as_response_error (ErrWrap t e) = as_response_error e"
| "as_response_error (ErrChain t e) = as_response_error e"
| "as_response_error (ErrResponse code t) = Some code"

datatype crash =
    NilDereference
  | NilFunctionCall
  | NonPositiveTicker
  | SliceOutOfRange
  | BufferTooSmall

datatype 'a outcome = Ok 'a | Err go_error | Panic crash

fun is_Ok :: "'a outcome \<Rightarrow> bool" where
  "is_Ok (Ok x) = True"
| "is_Ok (Err e) = False"
| "is_Ok (Panic k) = False"

fun is_Err :: "'a outcome \<Rightarrow> bool" where
  "is_Err (Ok x) = False"
| "is_Err (Err e) = True"
| "is_Err (Panic k) = False"

fun is_Panic :: "'a outcome \<Rightarrow> bool" where
  "is_Panic (Ok x) = False"
| "is_Panic (Err e) = False"
| "is_Panic (Panic k) = True"

lemma is_Ok_iff: "is_Ok r \<longleftrightarrow> (\<exists>x. r = Ok x)"
  by (cases r) auto

lemma is_Err_iff: "is_Err r \<longleftrightarrow> (\<exists>e. r = Err e)"
  by (cases r) auto

lemma is_Panic_iff: "is_Panic r \<longleftrightarrow> (\<exists>k. r = Panic k)"
  by (cases r) auto

declare outcome.splits [go_splits] option.splits [go_splits] sum.splits [go_splits]
  prod.splits [go_splits] if_splits [go_splits]

subsection \<open>Contexts\<close>

text \<open>
  A \<open>context.Context\<close> as the tree of calls that made it: the background context, the context of
  an incoming request, and the derived ones. Durations are in nanoseconds.
\<close>

datatype go_context =
    Background
  | RequestContext nat
  | WithCancel go_context
  | WithTimeout go_context int

text \<open>The tightest timeout a context carries relative to its own creation, if it has one.\<close>

fun context_timeout :: "go_context \<Rightarrow> int option" where
  "context_timeout Background = None"
| "context_timeout (RequestContext n) = None"
| "context_timeout (WithCancel c) = context_timeout c"
| "context_timeout (WithTimeout c d) =
     (case context_timeout c of None \<Rightarrow> Some d | Some d' \<Rightarrow> Some (min d d'))"

definition seconds :: "int \<Rightarrow> int" where
  "seconds n = n * 1000000000"

subsection \<open>JSON values\<close>

text \<open>
  What a JSON decoder with \<open>UseNumber\<close> puts into a \<open>map[string]any\<close>: a number keeps its text
  (\<open>json.Number\<close>).
\<close>

datatype json =
    JNull
  | JBool bool
  | JNumber string
  | JString string
  | JArray "json list"
  | JObject "(string \<times> json) list"

text \<open>The type assertions \<open>v.(string)\<close> and \<open>v.(json.Number)\<close> on a map entry.\<close>

fun assert_string :: "json option \<Rightarrow> string option" where
  "assert_string (Some (JString s)) = Some s"
| "assert_string _ = None"

fun assert_number :: "json option \<Rightarrow> string option" where
  "assert_number (Some (JNumber s)) = Some s"
| "assert_number _ = None"

lemma assert_string_Some: "assert_string j = Some s \<longleftrightarrow> j = Some (JString s)"
  by (cases j rule: assert_string.cases) auto

lemma assert_number_Some: "assert_number j = Some s \<longleftrightarrow> j = Some (JNumber s)"
  by (cases j rule: assert_number.cases) auto

subsection \<open>Events\<close>

datatype level = DebugLevel | InfoLevel | ErrorLevel | FatalLevel

datatype log_field =
    FString string string
  | FInt string int
  | FBool string bool
  | FFloat string rat
  | FError go_error

text \<open>
  \<open>CounterInc\<close>, \<open>GaugeSet\<close> and \<open>Observe\<close> are the calls \<open>Inc()\<close>, \<open>Set(x)\<close> and
  \<open>Observe(\<dots>)\<close> on the collector of that name (with its label values); the observed durations are
  wall-clock readings and are not modelled.
\<close>

datatype event =
    Log level string "log_field list"
  | CounterInc string
  | GaugeSet string rat
  | Observe string "string list"

text \<open>How often a collector was incremented or observed in a run.\<close>

definition incs :: "string \<Rightarrow> event list \<Rightarrow> nat" where
  "incs n es = length (filter (\<lambda>e. e = CounterInc n) es)"

definition observations :: "string \<Rightarrow> event list \<Rightarrow> nat" where
  "observations n es = length (filter (\<lambda>e. \<exists>ls. e = Observe n ls) es)"

fun is_log :: "event \<Rightarrow> bool" where
  "is_log (Log l m fs) = True"
| "is_log _ = False"

lemma incs_simps [simp]:
  "incs n [] = 0"
  "incs n (es @ fs) = incs n es + incs n fs"
  "incs n (CounterInc m # es) = (if m = n then 1 else 0) + incs n es"
  "incs n (Observe m ls # es) = incs n es"
  "incs n (Log l t fl # es) = incs n es"
  "incs n (GaugeSet m x # es) = incs n es"
  by (simp_all add: incs_def)

lemma observations_simps [simp]:
  "observations n [] = 0"
  "observations n (es @ fs) = observations n es + observations n fs"
  "observations n (Observe m ls # es) = (if m = n then 1 else 0) + observations n es"
  "observations n (CounterInc m # es) = observations n es"
  "observations n (Log l t fl # es) = observations n es"
  "observations n (GaugeSet m x # es) = observations n es"
  by (simp_all add: observations_def)

lemma logs_do_not_count:
  "list_all is_log es \<Longrightarrow> incs n es = 0 \<and> observations n es = 0"
proof (induction es)
  case (Cons e es)
  then show ?case by (cases e) auto
qed simp

end
