(* ===== verification/Go_World.thy ===== *)
theory Go_World
  imports KMS_Prelude
begin

text \<open>
  What the plugin's process sees of the world: the file system behind Go's \<open>os\<close> and \<open>net\<close>
  packages, the environment variables, the services reached over the network, the shared objects
  of the process, and the calls made on the logger and the metric collectors.
\<close>

subsection \<open>Files\<close>

text \<open>
  A path is free or holds a node. Any call can fail for a reason outside the process (permissions,
  a full disk): \<open>os_fault op n\<close> says whether the \<open>n\<close>-th call, if it is an \<open>op\<close>, fails, with which
  error, and, for a write, after how many bytes. \<open>os_random\<close> is the stream of random words \<open>os.CreateTemp\<close> draws.
\<close>

datatype node = RegularFile bytes | SocketFile | Directory "string list"

record os_state =
  os_files :: "string \<Rightarrow> node option"
  os_calls :: nat
  os_fault :: "string \<Rightarrow> nat \<Rightarrow> (go_error \<times> nat) option"
  os_draws :: nat
  os_random :: "nat \<Rightarrow> string"
  os_tempdir :: string

definition next_call :: "os_state \<Rightarrow> os_state" where
  "next_call s = s\<lparr>os_calls := Suc (os_calls s)\<rparr>"

definition call_fault :: "string \<Rightarrow> os_state \<Rightarrow> (go_error \<times> nat) option" where
  "call_fault op s = os_fault s op (os_calls s)"

definition path_error :: "string \<Rightarrow> string \<Rightarrow> string \<Rightarrow> go_error" where
  "path_error op path reason = ErrNew (op @ '' '' @ path @ '': '' @ reason)"

definition os_ReadFile :: "string \<Rightarrow> os_state \<Rightarrow> (go_error + bytes) \<times> os_state" where
  "os_ReadFile path s =
     (case call_fault ''read'' s of
        Some (e, n) \<Rightarrow> (Inl e, next_call s)
      | None \<Rightarrow>
          (case os_files s path of
             None \<Rightarrow> (Inl (path_error ''open'' path ''no such file or directory''), next_call s)
           | Some (RegularFile b) \<Rightarrow> (Inr b, next_call s)
           | Some SocketFile \<Rightarrow> (Inl (path_error ''open'' path ''no such device or address''), next_call s)
           | Some (Directory es) \<Rightarrow> (Inl (path_error ''read'' path ''is a directory''), next_call s)))"

definition os_Stat :: "string \<Rightarrow> os_state \<Rightarrow> (go_error + unit) \<times> os_state" where
  "os_Stat path s =
     (case call_fault ''stat'' s of
        Some (e, n) \<Rightarrow> (Inl e, next_call s)
      | None \<Rightarrow>
          (case os_files s path of
             None \<Rightarrow> (Inl (path_error ''stat'' path ''no such file or directory''), next_call s)
           | Some nd \<Rightarrow> (Inr (), next_call s)))"

text \<open>\<open>os.Remove\<close> deletes a file or an empty directory.\<close>

definition os_Remove :: "string \<Rightarrow> os_state \<Rightarrow> go_error option \<times> os_state" where
  "os_Remove path s =
     (case call_fault ''remove'' s of
        Some (e, n) \<Rightarrow> (Some e, next_call s)
      | None \<Rightarrow>
          (case os_files s path of
             None \<Rightarrow> (Some (path_error ''remove'' path ''no such file or directory''), next_call s)
           | Some (Directory (x # xs)) \<Rightarrow>
               (Some (path_error ''remove'' path ''directory not empty''), next_call s)
           | Some nd \<Rightarrow> (None, (next_call s)\<lparr>os_files := (os_files s)(path := None)\<rparr>)))"

text \<open>
  \<open>os.CreateTemp("", prefix*suffix)\<close>: fresh names are tried, at most 10000 of them, until one is
  not taken; the file is created empty.
\<close>

definition temp_name :: "string \<Rightarrow> string \<Rightarrow> os_state \<Rightarrow> string" where
  "temp_name pre suf s = os_tempdir s @ ''/'' @ pre @ os_random s (os_draws s) @ suf"

fun create_temp :: "string \<Rightarrow> node \<Rightarrow> nat \<Rightarrow> string \<Rightarrow> string \<Rightarrow> os_state \<Rightarrow> (go_error + string) \<times> os_state" where
  "create_temp op nd 0 pre suf s =
     (Inl (path_error op (os_tempdir s @ ''/'' @ pre @ ''*'' @ suf) ''file exists''), s)"
| "create_temp op nd (Suc n) pre suf s =
     (let name = temp_name pre suf s; s' = (next_call s)\<lparr>os_draws := Suc (os_draws s)\<rparr> in
      case call_fault op s of
        Some (e, k) \<Rightarrow> (Inl e, s')
      | None \<Rightarrow>
          if os_files s name \<noteq> None then create_temp op nd n pre suf s'
          else (Inr name, s'\<lparr>os_files := (os_files s)(name := Some nd)\<rparr>))"

definition os_CreateTemp :: "string \<Rightarrow> string \<Rightarrow> os_state \<Rightarrow> (go_error + string) \<times> os_state" where
  "os_CreateTemp pre suf s = create_temp ''createtemp'' (RegularFile []) 10000 pre suf s"

text \<open>\<open>os.MkdirTemp("", prefix)\<close> does the same with an empty directory.\<close>

definition os_MkdirTemp :: "string \<Rightarrow> os_state \<Rightarrow> (go_error + string) \<times> os_state" where
  "os_MkdirTemp pre s = create_temp ''mkdirtemp'' (Directory []) 10000 pre [] s"

text \<open>\<open>os.RemoveAll\<close> deletes a path and all below it; a path that is not there is no error.\<close>

definition os_RemoveAll :: "string \<Rightarrow> os_state \<Rightarrow> go_error option \<times> os_state" where
  "os_RemoveAll path s =
     (case call_fault ''removeall'' s of
        Some (e, n) \<Rightarrow> (Some e, next_call s)
      | None \<Rightarrow> (None, (next_call s)\<lparr>os_files :=
          (\<lambda>p. if p = path \<or> take (length path + 1) p = path @ ''/'' then None else os_files s p)\<rparr>))"

text \<open>\<open>f.Write(data)\<close> on a file just created: a failing write leaves what it wrote before.\<close>

definition os_Write :: "string \<Rightarrow> bytes \<Rightarrow> os_state \<Rightarrow> go_error option \<times> os_state" where
  "os_Write path d s =
     (let put = (\<lambda>b. (next_call s)\<lparr>os_files := (os_files s)(path :=
                  (case os_files s path of
                     Some (RegularFile a) \<Rightarrow> Some (RegularFile (a @ b)) | x \<Rightarrow> x))\<rparr>)
      in case call_fault ''write'' s of
           Some (e, n) \<Rightarrow> (Some e, put (take n d))
         | None \<Rightarrow> (None, put d))"

text \<open>
  \<open>net.ListenConfig.Listen\<close> on a unix socket: the name of the network is taken as it is written,
  and a path in use is refused.
\<close>

definition net_Listen :: "string \<Rightarrow> string \<Rightarrow> os_state \<Rightarrow> (go_error + string) \<times> os_state" where
  "net_Listen network path s =
     (if network \<noteq> ''unix''
      then (Inl (ErrNew (''listen '' @ network @ '': unknown network '' @ network)), s)
      else case call_fault ''listen'' s of
        Some (e, n) \<Rightarrow> (Inl e, next_call s)
      | None \<Rightarrow>
          if os_files s path \<noteq> None
          then (Inl (ErrNew (''listen unix '' @ path @ '': bind: address already in use'')), next_call s)
          else (Inr path, (next_call s)\<lparr>os_files := (os_files s)(path := Some SocketFile)\<rparr>))"

lemma create_temp_fresh:
  "create_temp op nd n pre suf s = (Inr name, s') \<Longrightarrow>
     os_files s name = None \<and> os_files s' = (os_files s)(name := Some nd)
     \<and> os_fault s' = os_fault s \<and> os_tempdir s' = os_tempdir s"
  by (induction op nd n pre suf s rule: create_temp.induct)
    (auto simp: Let_def next_call_def split: option.splits if_splits)

lemma create_temp_failed:
  "create_temp op nd n pre suf s = (Inl e, s') \<Longrightarrow>
     os_files s' = os_files s \<and> os_fault s' = os_fault s \<and> os_tempdir s' = os_tempdir s"
  by (induction op nd n pre suf s rule: create_temp.induct)
    (auto simp: Let_def next_call_def split: option.splits if_splits)

lemma CreateTemp_first:
  assumes "call_fault ''createtemp'' s = None" "os_files s (temp_name pre suf s) = None"
  shows "os_CreateTemp pre suf s = (Inr (temp_name pre suf s), (next_call s)\<lparr>os_draws := Suc (os_draws s),
      os_files := (os_files s)(temp_name pre suf s := Some (RegularFile []))\<rparr>)"
proof -
  have "(10000 :: nat) = Suc 9999" by simp
  with assms show ?thesis unfolding os_CreateTemp_def by (simp only: create_temp.simps) (simp add: Let_def)
qed

subsection \<open>The world\<close>

text \<open>
  \<open>heap\<close> holds the objects the goroutines of the process share (the Vault client); \<open>svc\<close> is the
  state of everything behind the network, which only the parameters of the model can read or
  change.
\<close>

record ('h, 'v) world =
  heap :: 'h
  svc :: 'v
  os :: os_state
  env_vars :: "string \<Rightarrow> string option"
  events :: "event list"

definition emit :: "event \<Rightarrow> ('h, 'v) world \<Rightarrow> ('h, 'v) world" where
  "emit e w = w\<lparr>events := events w @ [e]\<rparr>"

definition emit_if :: "bool \<Rightarrow> event \<Rightarrow> ('h, 'v) world \<Rightarrow> ('h, 'v) world" where
  "emit_if b e w = (if b then emit e w else w)"

definition log_info :: "string \<Rightarrow> log_field list \<Rightarrow> ('h, 'v) world \<Rightarrow> ('h, 'v) world" where
  "log_info m fs = emit (Log InfoLevel m fs)"

definition log_error :: "string \<Rightarrow> log_field list \<Rightarrow> ('h, 'v) world \<Rightarrow> ('h, 'v) world" where
  "log_error m fs = emit (Log ErrorLevel m fs)"

definition log_debug :: "string \<Rightarrow> log_field list \<Rightarrow> ('h, 'v) world \<Rightarrow> ('h, 'v) world" where
  "log_debug m fs = emit (Log DebugLevel m fs)"

definition log_fatal :: "string \<Rightarrow> log_field list \<Rightarrow> ('h, 'v) world \<Rightarrow> ('h, 'v) world" where
  "log_fatal m fs = emit (Log FatalLevel m fs)"

text \<open>A call to a service behind the network: it sees and changes \<open>svc\<close> only.\<close>

definition on_svc :: "('v \<Rightarrow> 'r \<times> 'v) \<Rightarrow> ('h, 'v) world \<Rightarrow> 'r \<times> ('h, 'v) world" where
  "on_svc f w = (case f (svc w) of (r, v) \<Rightarrow> (r, w\<lparr>svc := v\<rparr>))"

definition on_os :: "(os_state \<Rightarrow> 'r \<times> os_state) \<Rightarrow> ('h, 'v) world \<Rightarrow> 'r \<times> ('h, 'v) world" where
  "on_os f w = (case f (os w) of (r, s) \<Rightarrow> (r, w\<lparr>os := s\<rparr>))"

lemma emit_simps [simp]:
  "heap (emit e w) = heap w" "svc (emit e w) = svc w" "os (emit e w) = os w"
  "env_vars (emit e w) = env_vars w" "events (emit e w) = events w @ [e]"
  by (simp_all add: emit_def)

lemma emit_if_simps [simp]:
  "heap (emit_if b e w) = heap w" "svc (emit_if b e w) = svc w" "os (emit_if b e w) = os w"
  "env_vars (emit_if b e w) = env_vars w"
  "events (emit_if b e w) = events w @ (if b then [e] else [])"
  by (simp_all add: emit_if_def)

lemma emit_if_False [simp]: "emit_if False e w = w"
  by (simp add: emit_if_def)

lemma log_simps [simp]:
  "heap (log_info m fs w) = heap w" "svc (log_info m fs w) = svc w" "os (log_info m fs w) = os w"
  "env_vars (log_info m fs w) = env_vars w"
  "events (log_info m fs w) = events w @ [Log InfoLevel m fs]"
  "heap (log_error m fs w) = heap w" "svc (log_error m fs w) = svc w" "os (log_error m fs w) = os w"
  "env_vars (log_error m fs w) = env_vars w"
  "events (log_error m fs w) = events w @ [Log ErrorLevel m fs]"
  "heap (log_debug m fs w) = heap w" "svc (log_debug m fs w) = svc w" "os (log_debug m fs w) = os w"
  "env_vars (log_debug m fs w) = env_vars w"
  "events (log_debug m fs w) = events w @ [Log DebugLevel m fs]"
  "heap (log_fatal m fs w) = heap w" "svc (log_fatal m fs w) = svc w" "os (log_fatal m fs w) = os w"
  "env_vars (log_fatal m fs w) = env_vars w"
  "events (log_fatal m fs w) = events w @ [Log FatalLevel m fs]"
  by (simp_all add: log_info_def log_error_def log_debug_def log_fatal_def)

lemma on_svc_simps [simp]:
  "heap (snd (on_svc f w)) = heap w" "os (snd (on_svc f w)) = os w"
  "env_vars (snd (on_svc f w)) = env_vars w" "events (snd (on_svc f w)) = events w"
  "fst (on_svc f w) = fst (f (svc w))" "svc (snd (on_svc f w)) = snd (f (svc w))"
  by (simp_all add: on_svc_def split: prod.split)

lemma on_os_simps [simp]:
  "heap (snd (on_os f w)) = heap w" "svc (snd (on_os f w)) = svc w"
  "env_vars (snd (on_os f w)) = env_vars w" "events (snd (on_os f w)) = events w"
  "fst (on_os f w) = fst (f (os w))" "os (snd (on_os f w)) = snd (f (os w))"
  by (simp_all add: on_os_def split: prod.split)

lemma on_os_os: "on_os f w = (r, w') \<Longrightarrow> os w' = snd (f (os w))"
  by (auto simp: on_os_def split: prod.splits)

end
