(* ===== verification/Go_Strings.thy ===== *)
theory Go_Strings
  imports KMS_Prelude
begin

text \<open>
  The part of Go's \<open>strings\<close>, \<open>strconv\<close> and \<open>net/url\<close> that the plugin uses, over bytes.
  \<open>ToLower\<close> and \<open>TrimSpace\<close> read UTF-8: of the runes beyond ASCII only two have a lower-case form
  in ASCII (U+0130 and U+212A), and the white space beyond ASCII is a fixed list of encodings.
  The plugin compares lower-cased strings with ASCII words only, so every other rune beyond ASCII,
  whose lower-case form is again beyond ASCII, is left as it is.
\<close>

subsection \<open>Prefixes and cutting\<close>

fun has_prefix :: "string \<Rightarrow> string \<Rightarrow> bool" where
  "has_prefix [] s = True"
| "has_prefix (p # ps) [] = False"
| "has_prefix (p # ps) (c # cs) = (p = c \<and> has_prefix ps cs)"

text \<open>\<open>strings.Cut(s, sep)\<close>: the parts around the first occurrence of the separator.\<close>

fun cut :: "string \<Rightarrow> string \<Rightarrow> (string \<times> string) option" where
  "cut sep [] = (if sep = [] then Some ([], []) else None)"
| "cut sep (c # s) =
     (if has_prefix sep (c # s) then Some ([], drop (length sep) (c # s))
      else map_option (\<lambda>(a, b). (c # a, b)) (cut sep s))"

text \<open>\<open>strings.SplitN(s, sep, 2)\<close>.\<close>

definition split_n2 :: "string \<Rightarrow> string \<Rightarrow> string list" where
  "split_n2 s sep = (case cut sep s of None \<Rightarrow> [s] | Some (a, b) \<Rightarrow> [a, b])"

lemma has_prefix_iff: "has_prefix p s \<longleftrightarrow> (\<exists>r. s = p @ r)"
  by (induction p s rule: has_prefix.induct) auto

lemma has_prefix_append [simp]: "has_prefix p (p @ s)"
  by (simp add: has_prefix_iff)

lemma cut_Some: "cut sep s = Some (a, b) \<Longrightarrow> s = a @ sep @ b"
proof (induction sep s arbitrary: a b rule: cut.induct)
  case (2 sep c s)
  then show ?case
    by (auto simp: has_prefix_iff split: if_splits)
qed (simp split: if_splits)

lemma cut_None: "cut sep s = None \<longleftrightarrow> (\<nexists>a b. s = a @ sep @ b)"
proof (induction sep s rule: cut.induct)
  case (2 sep c s)
  show ?case
  proof (cases "has_prefix sep (c # s)")
    case True
    then obtain r where "c # s = sep @ r" by (auto simp: has_prefix_iff)
    then show ?thesis using True by (metis append_Nil cut.simps(2) option.distinct(1))
  next
    case False
    then have "(\<exists>a b. c # s = a @ sep @ b) \<longleftrightarrow> (\<exists>a b. s = a @ sep @ b)"
      by (metis append_Cons append_Nil has_prefix_append list.exhaust list.inject)
    then show ?thesis using False 2 by auto
  qed
qed simp

text \<open>The first separator is found when its first byte does not come before it.\<close>

lemma cut_first: "c \<notin> set a \<Longrightarrow> cut (c # sep) (a @ (c # sep) @ b) = Some (a, b)"
  by (induction a) auto

subsection \<open>Lower case and white space\<close>

definition ascii_lower :: "char \<Rightarrow> char" where
  "ascii_lower c =
     (if 65 \<le> (of_char c :: nat) \<and> (of_char c :: nat) \<le> 90 then char_of (of_char c + (32 :: nat)) else c)"

fun to_lower :: "string \<Rightarrow> string" where
  "to_lower [] = []"
| "to_lower (c # s) =
     (if c = CHR 0xC4 \<and> take 1 s = [CHR 0xB0] then CHR ''i'' # to_lower (drop 1 s)
      else if c = CHR 0xE2 \<and> take 2 s = [CHR 0x84, CHR 0xAA] then CHR ''k'' # to_lower (drop 2 s)
      else ascii_lower c # to_lower s)"

definition is_ascii :: "string \<Rightarrow> bool" where
  "is_ascii s = list_all (\<lambda>c. (of_char c :: nat) < 128) s"

lemma to_lower_ascii: "is_ascii s \<Longrightarrow> to_lower s = map ascii_lower s"
  by (induction s rule: to_lower.induct) (auto simp: is_ascii_def)

lemma ascii_lower_low:
  assumes "(of_char d :: nat) < 65"
  shows "ascii_lower c = d \<longleftrightarrow> c = d"
proof (cases "65 \<le> (of_char c :: nat) \<and> (of_char c :: nat) \<le> 90")
  case True
  then have "of_char (ascii_lower c) = (of_char c + 32 :: nat)"
    by (simp add: ascii_lower_def)
  with True assms show ?thesis by auto
qed (auto simp: ascii_lower_def)

text \<open>A colon or a slash of the lower-cased string is one of the string.\<close>

lemma to_lower_append_low:
  assumes "(of_char d :: nat) < 65"
  shows "to_lower (a @ d # b) = to_lower a @ d # to_lower b"
proof (induction a rule: to_lower.induct)
  case 1
  have "ascii_lower d = d" using ascii_lower_low [OF assms] by simp
  with assms show ?case by (auto simp del: to_lower.simps(2) simp: to_lower.simps(2) [of d])
next
  case (2 c s)
  have d: "d \<noteq> CHR 0xB0" "d \<noteq> CHR 0x84" "d \<noteq> CHR 0xAA" using assms by auto
  have "take 1 (s @ d # b) = [CHR 0xB0] \<longleftrightarrow> take 1 s = [CHR 0xB0]"
    using d by (cases s) auto
  moreover have "take 2 (s @ d # b) = [CHR 0x84, CHR 0xAA] \<longleftrightarrow> take 2 s = [CHR 0x84, CHR 0xAA]"
    using d by (cases s; cases "tl s") auto
  moreover have "take 1 s = [CHR 0xB0] \<Longrightarrow> drop 1 (s @ d # b) = drop 1 s @ d # b"
    "take 2 s = [CHR 0x84, CHR 0xAA] \<Longrightarrow> drop 2 (s @ d # b) = drop 2 s @ d # b"
    by (cases s; cases "tl s"; simp)+
  ultimately show ?case
    using 2 by (simp del: take_append drop_append)
qed

lemma to_lower_set_low:
  assumes "(of_char d :: nat) < 65"
  shows "d \<notin> set s \<Longrightarrow> d \<notin> set (to_lower s)"
proof (induction s rule: to_lower.induct)
  case (2 c s)
  have "d \<noteq> CHR ''i''" "d \<noteq> CHR ''k''" using assms by auto
  moreover have "ascii_lower c \<noteq> d"
    using 2(4) ascii_lower_low [OF assms, of c] by auto
  ultimately show ?case
    using 2 by (auto dest: in_set_dropD)
qed simp

lemma first_eq: "d \<notin> set a \<Longrightarrow> d \<notin> set p \<Longrightarrow> a @ d # b = p @ d # r \<longleftrightarrow> a = p \<and> b = r"
proof (induction a arbitrary: p)
  case Nil
  then show ?case by (cases p) auto
next
  case (Cons x a)
  then show ?case by (cases p) auto
qed

lemma to_lower_split_low:
  assumes "(of_char d :: nat) < 65" "d \<notin> set p" "to_lower s = p @ d # r"
  shows "\<exists>a b. s = a @ d # b \<and> to_lower a = p \<and> to_lower b = r"
proof -
  have "d \<in> set (to_lower s)" using assms(3) by simp
  then have "d \<in> set s" using to_lower_set_low [OF assms(1)] by blast
  then obtain a b where ab: "s = a @ d # b" "d \<notin> set a"
    by (meson split_list_first)
  have "d \<notin> set (to_lower a)"
    using ab(2) by (rule to_lower_set_low [OF assms(1)])
  moreover have "to_lower a @ d # to_lower b = p @ d # r"
    using assms(3) to_lower_append_low [OF assms(1), of a b] by (simp add: ab(1))
  ultimately have "to_lower a = p" "to_lower b = r"
    using assms(2) by (simp_all add: first_eq)
  with ab(1) show ?thesis by blast
qed

text \<open>The encodings of the runes with the property White\_Space.\<close>

definition white_space :: "string list" where
  "white_space =
     [[CHR 0x09], [CHR 0x0A], [CHR 0x0B], [CHR 0x0C], [CHR 0x0D], [CHR 0x20],
      [CHR 0xC2, CHR 0x85], [CHR 0xC2, CHR 0xA0], [CHR 0xE1, CHR 0x9A, CHR 0x80],
      [CHR 0xE2, CHR 0x80, CHR 0x80], [CHR 0xE2, CHR 0x80, CHR 0x81],
      [CHR 0xE2, CHR 0x80, CHR 0x82], [CHR 0xE2, CHR 0x80, CHR 0x83],
      [CHR 0xE2, CHR 0x80, CHR 0x84], [CHR 0xE2, CHR 0x80, CHR 0x85],
      [CHR 0xE2, CHR 0x80, CHR 0x86], [CHR 0xE2, CHR 0x80, CHR 0x87],
      [CHR 0xE2, CHR 0x80, CHR 0x88], [CHR 0xE2, CHR 0x80, CHR 0x89],
      [CHR 0xE2, CHR 0x80, CHR 0x8A], [CHR 0xE2, CHR 0x80, CHR 0xA8],
      [CHR 0xE2, CHR 0x80, CHR 0xA9], [CHR 0xE2, CHR 0x80, CHR 0xAF],
      [CHR 0xE2, CHR 0x81, CHR 0x9F], [CHR 0xE3, CHR 0x80, CHR 0x80]]"

text \<open>The length of the word of the list that starts the string, 0 if there is none.\<close>

fun leading :: "string list \<Rightarrow> string \<Rightarrow> nat" where
  "leading [] s = 0"
| "leading (w # ws) s = (if has_prefix w s then length w else leading ws s)"

function trim_words :: "string list \<Rightarrow> string \<Rightarrow> string" where
  "trim_words ws s =
     (if leading ws s = 0 \<or> s = [] then s else trim_words ws (drop (leading ws s) s))"
  by pat_completeness auto
termination by (relation "measure (\<lambda>(ws, s). length s)") auto

declare trim_words.simps [simp del]

definition trim_space :: "string \<Rightarrow> string" where
  "trim_space s = rev (trim_words (map rev white_space) (rev (trim_words white_space s)))"

lemma trim_words_suffix: "\<exists>p. s = p @ trim_words ws s"
proof (induction ws s rule: trim_words.induct)
  case (1 ws s)
  show ?case
  proof (cases "leading ws s = 0 \<or> s = []")
    case True
    then show ?thesis by (simp add: trim_words.simps)
  next
    case False
    with 1 obtain p where "drop (leading ws s) s = p @ trim_words ws (drop (leading ws s) s)" by blast
    then have "s = (take (leading ws s) s @ p) @ trim_words ws (drop (leading ws s) s)"
      by (metis append_assoc append_take_drop_id)
    with False show ?thesis by (metis trim_words.simps)
  qed
qed

lemma trim_words_leading: "leading ws (trim_words ws s) = 0 \<or> trim_words ws s = []"
proof (induction ws s rule: trim_words.induct)
  case (1 ws s)
  then show ?case by (cases "leading ws s = 0 \<or> s = []") (auto simp: trim_words.simps [of ws s])
qed

text \<open>What is left is a part of the string, and no white space starts or ends it.\<close>

lemma trim_space_part: "\<exists>p q. s = p @ trim_space s @ q"
proof -
  obtain p where p: "s = p @ trim_words white_space s"
    using trim_words_suffix by blast
  obtain q where q: "rev (trim_words white_space s) = q @ rev (trim_space s)"
    using trim_words_suffix by (metis rev_rev_ident trim_space_def)
  from q have "trim_words white_space s = trim_space s @ rev q"
    by (metis rev_append rev_rev_ident)
  with p show ?thesis by metis
qed

subsection \<open>Decimal numbers\<close>

definition digit :: "nat \<Rightarrow> char" where
  "digit n = char_of (48 + n)"

definition is_digit :: "char \<Rightarrow> bool" where
  "is_digit c \<longleftrightarrow> 48 \<le> (of_char c :: nat) \<and> (of_char c :: nat) \<le> 57"

definition digit_value :: "char \<Rightarrow> nat" where
  "digit_value c = of_char c - 48"

text \<open>\<open>strconv.Itoa\<close> and \<open>strconv.FormatInt(n, 10)\<close>.\<close>

fun show_nat :: "nat \<Rightarrow> string" where
  "show_nat n = (if n < 10 then [digit n] else show_nat (n div 10) @ [digit (n mod 10)])"

declare show_nat.simps [simp del]

definition show_int :: "int \<Rightarrow> string" where
  "show_int i = (if i < 0 then CHR ''-'' # show_nat (nat (- i)) else show_nat (nat i))"

text \<open>The value of a run of digits, most significant first.\<close>

definition digits_value :: "string \<Rightarrow> nat" where
  "digits_value s = foldl (\<lambda>n c. 10 * n + digit_value c) 0 s"

lemma of_char_digit: "n < 10 \<Longrightarrow> of_char (digit n) = (48 + n :: nat)"
  by (simp add: digit_def)

lemma is_digit_digit [simp]: "n < 10 \<Longrightarrow> is_digit (digit n)"
  by (simp add: is_digit_def of_char_digit)

lemma digit_value_digit [simp]: "n < 10 \<Longrightarrow> digit_value (digit n) = n"
  by (simp add: digit_value_def of_char_digit)

lemma show_nat_digits: "list_all is_digit (show_nat n)"
proof (induction n rule: show_nat.induct)
  case (1 n)
  then show ?case by (cases "n < 10") (simp_all add: show_nat.simps [of n])
qed

lemma show_nat_nonempty [simp]: "show_nat n \<noteq> []"
  by (simp add: show_nat.simps)

lemma digits_value_snoc: "digits_value (s @ [c]) = 10 * digits_value s + digit_value c"
  by (simp add: digits_value_def)

lemma digits_value_show_nat [simp]: "digits_value (show_nat n) = n"
proof (induction n rule: show_nat.induct)
  case (1 n)
  show ?case
  proof (cases "n < 10")
    case True
    then show ?thesis by (simp add: show_nat.simps [of n] digits_value_def)
  next
    case False
    with 1 show ?thesis by (simp add: show_nat.simps [of n] digits_value_snoc)
  qed
qed

lemma show_nat_inj: "show_nat m = show_nat n \<longleftrightarrow> m = n"
  by (metis digits_value_show_nat)

subsection \<open>Path escaping\<close>

text \<open>
  \<open>url.PathEscape\<close>: letters, digits, the marks \<open>-_.~\<close> and the reserved characters that may
  stand in one path segment stay; every other byte is written as a percent sign and two
  upper-case hexadecimal digits.
\<close>

definition path_segment_char :: "char \<Rightarrow> bool" where
  "path_segment_char c \<longleftrightarrow>
     (let n = (of_char c :: nat) in
      (97 \<le> n \<and> n \<le> 122) \<or> (65 \<le> n \<and> n \<le> 90) \<or> (48 \<le> n \<and> n \<le> 57)
      \<or> c \<in> set ''-_.~'' \<or> c \<in> set ''$&+:=@'')"

definition hex_digit :: "nat \<Rightarrow> char" where
  "hex_digit n = ''0123456789ABCDEF'' ! n"

definition hex_value :: "char \<Rightarrow> nat" where
  "hex_value c = (let n = of_char c in if n \<le> 57 then n - 48 else n - 55)"

definition path_escape :: "string \<Rightarrow> string" where
  "path_escape s = concat (map (\<lambda>c. if path_segment_char c then [c]
     else [CHR ''%'', hex_digit (of_char c div 16), hex_digit (of_char c mod 16)]) s)"

fun path_unescape :: "string \<Rightarrow> string" where
  "path_unescape [] = []"
| "path_unescape (c # s) =
     (if c = CHR ''%'' then char_of (16 * hex_value (s ! 0) + hex_value (s ! 1)) # path_unescape (drop 2 s)
      else c # path_unescape s)"

lemma hex_digit_facts:
  assumes "n < 16"
  shows "hex_value (hex_digit n) = n" "path_segment_char (hex_digit n)"
proof -
  have "list_all (\<lambda>n. hex_value (hex_digit n) = n \<and> path_segment_char (hex_digit n)) [0..<16]"
    by code_simp
  with assms show "hex_value (hex_digit n) = n" "path_segment_char (hex_digit n)"
    by (simp_all add: list_all_iff)
qed

lemma percent_escaped: "\<not> path_segment_char (CHR ''%'')"
  by code_simp

lemma path_unescape_escape: "path_unescape (path_escape s) = s"
proof (induction s)
  case (Cons c s)
  have "char_of (16 * hex_value (hex_digit (of_char c div 16))
      + hex_value (hex_digit (of_char c mod 16))) = c"
    by (simp add: hex_digit_facts of_char_nibbles)
  with Cons percent_escaped show ?case
    by (auto simp: path_escape_def)
qed (simp add: path_escape_def)

lemma path_escape_inj: "path_escape s = path_escape t \<longleftrightarrow> s = t"
  by (metis path_unescape_escape)

lemma path_escape_chars: "c \<in> set (path_escape s) \<Longrightarrow> path_segment_char c \<or> c = CHR ''%''"
  by (auto simp: path_escape_def hex_digit_facts of_char_nibbles split: if_splits)

subsection \<open>Quoting\<close>

text \<open>
  The verb \<open>%q\<close> of the error texts, for ASCII: quotes, backslashes and control characters are
  escaped. Bytes beyond ASCII are kept.
\<close>

definition go_quote :: "string \<Rightarrow> string" where
  "go_quote s = ''\"'' @ concat (map (\<lambda>c.
     if c = CHR 0x22 \<or> c = CHR 0x5C then [CHR 0x5C, c]
     else if c = CHR 0x0A then [CHR 0x5C, CHR ''n'']
     else if c = CHR 0x0D then [CHR 0x5C, CHR ''r'']
     else if c = CHR 0x09 then [CHR 0x5C, CHR ''t'']
     else if c = CHR 0x07 then [CHR 0x5C, CHR ''a'']
     else if c = CHR 0x08 then [CHR 0x5C, CHR ''b'']
     else if c = CHR 0x0C then [CHR 0x5C, CHR ''f'']
     else if c = CHR 0x0B then [CHR 0x5C, CHR ''v'']
     else if (of_char c :: nat) < 32 \<or> c = CHR 0x7F
       then [CHR 0x5C, CHR ''x'', ''0123456789abcdef'' ! (of_char c div 16),
             ''0123456789abcdef'' ! (of_char c mod 16)]
     else [c]) s) @ ''\"''"

end
