(* ===== verification/Metrics.thy ===== *)
theory Metrics
  imports KMS_Prelude
begin

text \<open>
  \<open>pkg/metrics/metrics.go\<close>: the names of the collectors and the list that
  \<open>RegisterPrometheusMetrics\<close> registers. Prometheus itself is not part of the repository: a
  collector is its name, and the calls on it are events.
\<close>

definition MetricsPrefix :: string where
  "MetricsPrefix = ''vault_kubernetes_kms''"

definition metricsPrefix :: "string \<Rightarrow> string" where
  "metricsPrefix s = MetricsPrefix @ ''_'' @ s"

definition VaultRequestsDurationSeconds :: string where
  "VaultRequestsDurationSeconds = metricsPrefix ''vault_requests_duration_seconds''"

definition EncryptionOperationDurationSeconds :: string where
  "EncryptionOperationDurationSeconds = metricsPrefix ''encryption_operation_duration_seconds''"

definition DecryptionOperationDurationSeconds :: string where
  "DecryptionOperationDurationSeconds = metricsPrefix ''decryption_operation_duration_seconds''"

definition EncryptionErrorsTotal :: string where
  "EncryptionErrorsTotal = metricsPrefix ''encryption_operation_errors_total''"

definition DecryptionErrorsTotal :: string where
  "DecryptionErrorsTotal = metricsPrefix ''decryption_operation_errors_total''"

definition VaultTokenRenewalTotal :: string where
  "VaultTokenRenewalTotal = metricsPrefix ''token_renewals_total''"

definition VaultTokenExpirySeconds :: string where
  "VaultTokenExpirySeconds = metricsPrefix ''token_expiry_seconds''"

text \<open>
  The collectors registered beside the process collector, in the order of \<open>MustRegister\<close>.
  The process collector's own names are the library's; it gets the same prefix as its namespace.
\<close>

definition RegisterPrometheusMetrics :: "string list" where
  "RegisterPrometheusMetrics =
     [EncryptionErrorsTotal, DecryptionErrorsTotal, EncryptionOperationDurationSeconds,
      DecryptionOperationDurationSeconds, VaultTokenRenewalTotal, VaultTokenExpirySeconds,
      VaultRequestsDurationSeconds]"

lemma metricsPrefix_inj: "metricsPrefix a = metricsPrefix b \<longleftrightarrow> a = b"
  by (simp add: metricsPrefix_def)

text \<open>The collectors' names are told apart by their last part alone.\<close>

lemma collector_names_differ [simp]:
  "EncryptionErrorsTotal \<noteq> DecryptionErrorsTotal"
  "DecryptionErrorsTotal \<noteq> EncryptionErrorsTotal"
  "EncryptionOperationDurationSeconds \<noteq> DecryptionOperationDurationSeconds"
  "DecryptionOperationDurationSeconds \<noteq> EncryptionOperationDurationSeconds"
  "VaultTokenRenewalTotal \<noteq> EncryptionErrorsTotal"
  "VaultTokenRenewalTotal \<noteq> DecryptionErrorsTotal"
  "EncryptionErrorsTotal \<noteq> VaultTokenRenewalTotal"
  "DecryptionErrorsTotal \<noteq> VaultTokenRenewalTotal"
  "VaultRequestsDurationSeconds \<noteq> EncryptionOperationDurationSeconds"
  "VaultRequestsDurationSeconds \<noteq> DecryptionOperationDurationSeconds"
  "EncryptionOperationDurationSeconds \<noteq> VaultRequestsDurationSeconds"
  "DecryptionOperationDurationSeconds \<noteq> VaultRequestsDurationSeconds"
  by (simp_all add: EncryptionErrorsTotal_def DecryptionErrorsTotal_def
      EncryptionOperationDurationSeconds_def DecryptionOperationDurationSeconds_def
      VaultTokenRenewalTotal_def VaultRequestsDurationSeconds_def metricsPrefix_inj)

lemma registered_names_distinct: "distinct RegisterPrometheusMetrics"
  by (simp add: RegisterPrometheusMetrics_def EncryptionErrorsTotal_def DecryptionErrorsTotal_def
      EncryptionOperationDurationSeconds_def DecryptionOperationDurationSeconds_def
      VaultTokenRenewalTotal_def VaultTokenExpirySeconds_def VaultRequestsDurationSeconds_def
      metricsPrefix_inj)

end
