(* ===== verification/Http.thy ===== *)
theory Http
  imports Go_World Go_Strings Metrics
begin

text \<open>
  \<open>pkg/http\<close>: the round tripper that measures every request to Vault, the client constructors
  and the logging middleware of the health server. The transports of \<open>net/http\<close> and the Vault
  library are values of the type \<open>'t\<close>; what they do with a request is a parameter.
\<close>

record http_request =
  Method :: string
  URLPath :: string
  RequestURI :: string
  RemoteAddr :: string
  Context :: go_context

record http_response =
  StatusCode :: nat

datatype 't transport =
    BaseTransport 't
  | RoundTripper "'t transport"

record 't http_client =
  Timeout :: int
  Transport :: "'t transport"

definition requestTimeout :: int where
  "requestTimeout = seconds 10"

text \<open>
  A transport returns a response, an error, or (allowed by the interface, though no transport should)
  both or neither. The duration observed is wall-clock time.
\<close>

fun RoundTrip ::
  "('t \<Rightarrow> http_request \<Rightarrow> 'v \<Rightarrow> (http_response option \<times> go_error option) \<times> 'v) \<Rightarrow>
   't transport \<Rightarrow> http_request \<Rightarrow> ('h, 'v) world \<Rightarrow>
   (http_response option \<times> go_error option) \<times> ('h, 'v) world" where
  "RoundTrip base (BaseTransport t) req w = on_svc (base t req) w"
| "RoundTrip base (RoundTripper t) req w =
     (let (r, w1) = RoundTrip base t req w;
          status = (case fst r of None \<Rightarrow> ''error'' | Some resp \<Rightarrow> show_nat (StatusCode resp))
      in (r, emit (Observe VaultRequestsDurationSeconds [Method req, URLPath req, status]) w1))"

text \<open>
  \<open>New\<close>: the default transport if it is an \<open>*http.Transport\<close>, else a fresh one, cloned.
\<close>

definition New :: "'t option \<Rightarrow> 't \<Rightarrow> ('t \<Rightarrow> 't) \<Rightarrow> 't http_client" where
  "New dflt fresh clone =
     (let transport = (case dflt of Some t \<Rightarrow> t | None \<Rightarrow> fresh)
      in \<lparr>Timeout = requestTimeout, Transport = RoundTripper (BaseTransport (clone transport))\<rparr>)"

definition NewWithTransport :: "'t transport \<Rightarrow> 't http_client" where
  "NewWithTransport t = \<lparr>Timeout = requestTimeout, Transport = RoundTripper t\<rparr>"

subsection \<open>Handlers\<close>

text \<open>
  A response under construction: the status once it is written, and the body. Writing the body
  without a status writes 200 first, and a handler that returns without writing anything sends 200.
\<close>

record http_reply =
  rp_status :: "nat option"
  rp_body :: string

definition empty_reply :: http_reply where
  "empty_reply = \<lparr>rp_status = None, rp_body = []\<rparr>"

definition WriteHeader :: "nat \<Rightarrow> http_reply \<Rightarrow> http_reply" where
  "WriteHeader c r = (if rp_status r = None then r\<lparr>rp_status := Some c\<rparr> else r)"

definition write_body :: "string \<Rightarrow> http_reply \<Rightarrow> http_reply" where
  "write_body b r = (let r1 = WriteHeader 200 r in r1\<lparr>rp_body := rp_body r1 @ b\<rparr>)"

definition sent_status :: "http_reply \<Rightarrow> nat" where
  "sent_status r = (case rp_status r of None \<Rightarrow> 200 | Some c \<Rightarrow> c)"

type_synonym ('h, 'v) handler =
  "http_request \<Rightarrow> http_reply \<Rightarrow> ('h, 'v) world \<Rightarrow> unit outcome \<times> http_reply \<times> ('h, 'v) world"

text \<open>
  The duration in the log line is read off the clock; it is an argument of the model.
  When the wrapped handler panics the line is not logged.
\<close>

definition LoggingMiddleware :: "string \<Rightarrow> ('h, 'v) handler \<Rightarrow> ('h, 'v) handler" where
  "LoggingMiddleware duration next req rp w =
     (case next req rp w of
        (Ok u, rp1, w1) \<Rightarrow>
          (Ok (), rp1, log_debug ''received request''
             [FString ''method'' (Method req), FString ''path'' (RequestURI req),
              FString ''duration'' duration, FString ''client'' (RemoteAddr req)] w1)
      | (Err e, rp1, w1) \<Rightarrow> (Err e, rp1, w1)
      | (Panic k, rp1, w1) \<Rightarrow> (Panic k, rp1, w1))"

lemma reply_simps [simp]:
  "sent_status (WriteHeader c empty_reply) = c"
  "sent_status (write_body b (WriteHeader c r)) = sent_status (WriteHeader c r)"
  "rp_body (WriteHeader c r) = rp_body r"
  "rp_body (write_body b r) = rp_body r @ b"
  "rp_body empty_reply = []"
  "sent_status empty_reply = 200"
  by (simp_all add: sent_status_def WriteHeader_def write_body_def empty_reply_def Let_def
      split: option.split)

text \<open>Every layer of measuring adds one observation, and the answer is the base transport's.\<close>

fun layers :: "'t transport \<Rightarrow> nat" where
  "layers (BaseTransport t) = 0"
| "layers (RoundTripper t) = Suc (layers t)"

fun base_of :: "'t transport \<Rightarrow> 't" where
  "base_of (BaseTransport t) = t"
| "base_of (RoundTripper t) = base_of t"

lemma RoundTrip_result:
  "fst (RoundTrip base t req w) = fst (base (base_of t) req (svc w))
   \<and> svc (snd (RoundTrip base t req w)) = snd (base (base_of t) req (svc w))"
  by (induction t) (simp_all add: Let_def split_beta)

lemma RoundTrip_events:
  "events (snd (RoundTrip base t req w)) = events w @
     replicate (layers t) (Observe VaultRequestsDurationSeconds
       [Method req, URLPath req,
        (case fst (fst (base (base_of t) req (svc w))) of
           None \<Rightarrow> ''error'' | Some resp \<Rightarrow> show_nat (StatusCode resp))])"
proof (induction t)
  case (RoundTripper t)
  then show ?case
    using RoundTrip_result [of base t req w]
    by (simp add: Let_def split_beta replicate_append_same)
qed simp

text \<open>
  Every request of a client of \<open>NewWithTransport\<close> has the answer of the transport it wraps and is
  observed once, labelled with its method, its path and the status code, or \<open>error\<close> without one.
\<close>

theorem requests_measured:
  "RoundTrip base (Transport (NewWithTransport (BaseTransport t))) req w = (r, w') \<longleftrightarrow>
     (\<exists>v. base t req (svc w) = (r, v)
        \<and> w' = emit (Observe VaultRequestsDurationSeconds
            [Method req, URLPath req, case fst r of None \<Rightarrow> ''error'' | Some resp \<Rightarrow> show_nat (StatusCode resp)])
            (w\<lparr>svc := v\<rparr>))"
  by (auto simp: NewWithTransport_def on_svc_def Let_def split: prod.splits)

end
