(* ===== verification/Vault_API.thy ===== *)
theory Vault_API
  imports Http
begin

text \<open>
  The libraries the Vault client stands on, none of which is part of the repository: the Vault API
  client (\<open>github.com/hashicorp/vault/api\<close>), the SPIFFE library and the Workload API. They are the
  record \<open>deps\<close>, an argument of every definition that calls them: a configured API client is a
  value of the type \<open>'c\<close>, a base transport of the type \<open>'t\<close>, and the state of Vault and of the
  Workload API of the type \<open>'v\<close>. Nothing is assumed about them here; what a theorem needs is a
  hypothesis of that theorem.
\<close>

record tls_config =
  ClientCert :: string
  ClientKey :: string
  CACert :: string

record 't api_config =
  cfg_Address :: string
  cfg_HttpClient :: "'t http_client"

record auth_info =
  ClientToken :: string

record secret =
  Data :: "string \<Rightarrow> json option"
  Auth :: "auth_info option"

datatype spiffe_id = SpiffeID string

record jwt_params =
  Audience :: string
  Subject :: spiffe_id

record svid =
  Marshal :: string

text \<open>
  A \<open>*api.Secret\<close> is a pointer: \<open>None\<close> is nil. The optional string of \<open>FetchJWTSVID\<close> is the
  address option \<open>workloadapi.WithAddr\<close>.
\<close>

record ('c, 't, 'v) deps =
  DefaultConfig :: "(string \<Rightarrow> string option) \<Rightarrow> 't api_config"
  ConfigureTLS :: "'t api_config \<Rightarrow> tls_config \<Rightarrow> os_state \<Rightarrow> (go_error + 't api_config) \<times> os_state"
  api_NewClient :: "'t api_config \<Rightarrow> (string \<Rightarrow> string option) \<Rightarrow> go_error + 'c"
  SetAddress :: "'c \<Rightarrow> string \<Rightarrow> go_error option \<times> 'c"
  Address :: "'c \<Rightarrow> string"
  SetNamespace :: "'c \<Rightarrow> string \<Rightarrow> 'c"
  SetToken :: "'c \<Rightarrow> string \<Rightarrow> 'c"
  Write :: "'c \<Rightarrow> go_context \<Rightarrow> string \<Rightarrow> (string \<times> json) list \<Rightarrow> 'v \<Rightarrow> (go_error + secret option) \<times> 'v"
  Read :: "'c \<Rightarrow> go_context \<Rightarrow> string \<Rightarrow> 'v \<Rightarrow> (go_error + secret option) \<times> 'v"
  LookupSelf :: "'c \<Rightarrow> 'v \<Rightarrow> (go_error + secret option) \<times> 'v"
  RenewSelf :: "'c \<Rightarrow> int \<Rightarrow> 'v \<Rightarrow> (go_error + secret option) \<times> 'v"
  spiffeid_FromString :: "string \<Rightarrow> go_error + spiffe_id"
  FetchJWTSVID :: "go_context \<Rightarrow> jwt_params \<Rightarrow> string option \<Rightarrow> 'v \<Rightarrow> (go_error + svid) \<times> 'v"

text \<open>\<open>secret.Auth.ClientToken\<close>, \<open>None\<close> where the chain of pointers breaks.\<close>

fun client_token :: "secret option \<Rightarrow> string option" where
  "client_token None = None"
| "client_token (Some s) = map_option ClientToken (Auth s)"

end
