(* ===== verification/Vault_Client.thy ===== *)
theory Vault_Client
  imports Vault_API
begin

text \<open>
  \<open>pkg/vault/client.go\<close>, \<open>const.go\<close> and \<open>jwt.go\<close>: the client, the options that configure it and
  log it in, and \<open>NewClient\<close>. An \<open>Option\<close> is a Go closure; here it is the constructor of the
  function that made it with what it captured, and \<open>apply_option\<close> calls it. The client remembers
  the option that logged it in (\<open>AuthMethodFunc\<close>), which the lease refresher calls again.
\<close>

subsection \<open>Paths\<close>

definition appRoleAuthLoginPath :: "string \<Rightarrow> string" where
  "appRoleAuthLoginPath mount = ''auth/'' @ mount @ ''/login''"

definition userPassAuthLoginPath :: "string \<Rightarrow> string \<Rightarrow> string" where
  "userPassAuthLoginPath mount user = ''auth/'' @ mount @ ''/login/'' @ user"

definition certAuthLoginPath :: "string \<Rightarrow> string" where
  "certAuthLoginPath mount = ''auth/'' @ mount @ ''/login''"

definition encryptDataPath :: "string \<Rightarrow> string \<Rightarrow> string" where
  "encryptDataPath mount key = mount @ ''/encrypt/'' @ key"

definition decryptDataPath :: "string \<Rightarrow> string \<Rightarrow> string" where
  "decryptDataPath mount key = mount @ ''/decrypt/'' @ key"

definition transitKeyPath :: "string \<Rightarrow> string \<Rightarrow> string" where
  "transitKeyPath mount key = mount @ ''/keys/'' @ key"

subsection \<open>Token sources\<close>

record spiffe_source =
  src_endpoint :: string
  src_audience :: string
  src_subject :: spiffe_id

datatype jwt_token_source =
    FileJWTTokenSource string
  | SpiffeJWTTokenSource spiffe_source

definition spiffeJWTTokenFetchTimeout :: int where
  "spiffeJWTTokenFetchTimeout = seconds 10"

definition file_Token :: "string \<Rightarrow> go_context \<Rightarrow> ('h, 'v) world \<Rightarrow>
    (go_error + string) \<times> ('h, 'v) world" where
  "file_Token path ctx w =
     (case on_os (os_ReadFile path) w of
        (Inl e, w1) \<Rightarrow> (Inl (ErrWrap (''error reading jwt token file '' @ go_quote path) e), w1)
      | (Inr b, w1) \<Rightarrow> (Inr (trim_space b), w1))"

text \<open>
  \<open>fetch\<close> is the source's own function field; it is nil in every source the program makes, and the
  Workload API is used then.
\<close>

definition spiffe_Token :: "('c, 't, 'v) deps \<Rightarrow>
    (go_context \<Rightarrow> jwt_params \<Rightarrow> string option \<Rightarrow> 'v \<Rightarrow> (go_error + svid) \<times> 'v) option \<Rightarrow>
    spiffe_source \<Rightarrow> go_context \<Rightarrow> ('h, 'v) world \<Rightarrow> (go_error + string) \<times> ('h, 'v) world" where
  "spiffe_Token D fetch s ctx w =
     (let ctx1 = WithTimeout ctx spiffeJWTTokenFetchTimeout;
          options = (if src_endpoint s \<noteq> '''' then Some (src_endpoint s) else None);
          fetch1 = (case fetch of None \<Rightarrow> FetchJWTSVID D | Some f \<Rightarrow> f)
      in case on_svc (fetch1 ctx1 \<lparr>Audience = src_audience s, Subject = src_subject s\<rparr> options) w of
           (Inl e, w1) \<Rightarrow> (Inl (ErrWrap ''error fetching SPIFFE JWT-SVID'' e), w1)
         | (Inr svid, w1) \<Rightarrow> (Inr (Marshal svid), w1))"

fun source_Token :: "('c, 't, 'v) deps \<Rightarrow> jwt_token_source \<Rightarrow> go_context \<Rightarrow> ('h, 'v) world \<Rightarrow>
    (go_error + string) \<times> ('h, 'v) world" where
  "source_Token D (FileJWTTokenSource path) ctx w = file_Token path ctx w"
| "source_Token D (SpiffeJWTTokenSource s) ctx w = spiffe_Token D None s ctx w"

subsection \<open>The client and its options\<close>

datatype client_option =
    WithVaultAddress string
  | WithVaultNamespace string
  | WithTransit string string
  | WithTokenAuth string
  | WithTokenRenewalSeconds int
  | WithAppRoleAuth string string string
  | WithUserPassAuth string string string
  | WithCertAuth string string string string string
  | WithSPIFFEJWTAuth string string string string string
  | WithJWTTokenSource string string jwt_token_source

definition WithJWTAuth :: "string \<Rightarrow> string \<Rightarrow> string \<Rightarrow> client_option" where
  "WithJWTAuth mount role tokenPath = WithJWTTokenSource mount role (FileJWTTokenSource tokenPath)"

record 'c client =
  api :: 'c
  Token :: string
  AppRoleMount :: string
  AppRoleID :: string
  AppRoleSecretID :: string
  UserPassMount :: string
  Username :: string
  Password :: string
  CertAuthMount :: string
  CertRole :: string
  CertFile :: string
  CertKey :: string
  JWTMount :: string
  JWTRole :: string
  AuthMethodFunc :: "client_option option"
  TokenRenewalSeconds :: int
  TransitEngine :: string
  TransitKey :: string

text \<open>\<open>&Client{Client: c}\<close>.\<close>

definition fresh_client :: "'c \<Rightarrow> 'c client" where
  "fresh_client a = \<lparr>api = a, Token = [], AppRoleMount = [], AppRoleID = [], AppRoleSecretID = [],
     UserPassMount = [], Username = [], Password = [], CertAuthMount = [], CertRole = [],
     CertFile = [], CertKey = [], JWTMount = [], JWTRole = [], AuthMethodFunc = None,
     TokenRenewalSeconds = 0, TransitEngine = [], TransitKey = []\<rparr>"

text \<open>\<open>if c.AuthMethodFunc == nil { c.AuthMethodFunc = opt }\<close>.\<close>

definition remember :: "client_option \<Rightarrow> 'c client \<Rightarrow> 'c client" where
  "remember m c = (if AuthMethodFunc c = None then c\<lparr>AuthMethodFunc := Some m\<rparr> else c)"

text \<open>
  What AppRole, UserPass and certificate logins do with Vault's answer: they follow
  \<open>s.Auth.ClientToken\<close> without looking at the pointers.
\<close>

definition use_login :: "('c, 't, 'v) deps \<Rightarrow> string \<Rightarrow> client_option \<Rightarrow> 'c client \<Rightarrow>
    (go_error + secret option) \<times> ('h, 'v) world \<Rightarrow> unit outcome \<times> 'c client \<times> ('h, 'v) world" where
  "use_login D what m c answer =
     (case answer of
        (Inl e, w1) \<Rightarrow> (Err (ErrWrap (''error performing '' @ what @ '' auth'') e), c, w1)
      | (Inr s, w1) \<Rightarrow>
          (case client_token s of
             None \<Rightarrow> (Panic NilDereference, c, w1)
           | Some t \<Rightarrow> (Ok (), remember m (c\<lparr>api := SetToken D (api c) t\<rparr>), w1)))"

definition approle_login :: "('c, 't, 'v) deps \<Rightarrow> string \<Rightarrow> string \<Rightarrow> string \<Rightarrow> 'c client \<Rightarrow>
    ('h, 'v) world \<Rightarrow> unit outcome \<times> 'c client \<times> ('h, 'v) world" where
  "approle_login D mount roleID secretID c w =
     (let c1 = c\<lparr>AppRoleID := roleID, AppRoleMount := mount, AppRoleSecretID := secretID\<rparr>;
          opts = [(''role_id'', JString roleID), (''secret_id'', JString secretID)]
      in use_login D ''approle'' (WithAppRoleAuth mount roleID secretID) c1
           (on_svc (Write D (api c1) Background (appRoleAuthLoginPath mount) opts) w))"

definition userpass_login :: "('c, 't, 'v) deps \<Rightarrow> string \<Rightarrow> string \<Rightarrow> string \<Rightarrow> 'c client \<Rightarrow>
    ('h, 'v) world \<Rightarrow> unit outcome \<times> 'c client \<times> ('h, 'v) world" where
  "userpass_login D mount username password c w =
     (let c1 = c\<lparr>UserPassMount := mount, Username := username, Password := password\<rparr>;
          opts = [(''password'', JString password)]
      in use_login D ''userpass'' (WithUserPassAuth mount username password) c1
           (on_svc (Write D (api c1) Background
             (userPassAuthLoginPath mount (path_escape username)) opts) w))"

text \<open>
  Certificate login goes through a second API client that has the certificate on its transport:
  the default configuration with the address of the first client.
\<close>

definition cert_login :: "('c, 't, 'v) deps \<Rightarrow> string \<Rightarrow> string \<Rightarrow> string \<Rightarrow> string \<Rightarrow> string \<Rightarrow> 'c client \<Rightarrow>
    ('h, 'v) world \<Rightarrow> unit outcome \<times> 'c client \<times> ('h, 'v) world" where
  "cert_login D mount role certFile keyFile caFile c w =
     (let c1 = c\<lparr>CertAuthMount := mount, CertRole := role, CertFile := certFile, CertKey := keyFile\<rparr>;
          tmpCfg = (DefaultConfig D (env_vars w))\<lparr>cfg_Address := Address D (api c1)\<rparr>;
          tls = \<lparr>ClientCert = certFile, ClientKey = keyFile, CACert = caFile\<rparr>
      in case on_os (ConfigureTLS D tmpCfg tls) w of
           (Inl e, w1) \<Rightarrow> (Err (ErrWrap ''error configuring TLS for cert auth'' e), c1, w1)
         | (Inr cfg, w1) \<Rightarrow>
             (case api_NewClient D cfg (env_vars w1) of
                Inl e \<Rightarrow> (Err (ErrWrap ''error creating cert auth client'' e), c1, w1)
              | Inr tmpClient \<Rightarrow>
                  use_login D ''cert'' (WithCertAuth mount role certFile keyFile caFile) c1
                    (on_svc (Write D tmpClient Background (certAuthLoginPath mount)
                      [(''name'', JString role)]) w1)))"

text \<open>
  A JWT login over any token source: the source's \<open>Token\<close> method is an argument, as the interface
  value is in Go. This login looks at the pointers before it follows them.
\<close>

definition jwt_login :: "('c, 't, 'v) deps \<Rightarrow>
    (go_context \<Rightarrow> ('h, 'v) world \<Rightarrow> (go_error + string) \<times> ('h, 'v) world) \<Rightarrow>
    string \<Rightarrow> string \<Rightarrow> client_option \<Rightarrow> 'c client \<Rightarrow>
    ('h, 'v) world \<Rightarrow> unit outcome \<times> 'c client \<times> ('h, 'v) world" where
  "jwt_login D token mount role m c w =
     (let c1 = c\<lparr>JWTMount := mount, JWTRole := role\<rparr> in
      case token Background w of
        (Inl e, w1) \<Rightarrow> (Err e, c1, w1)
      | (Inr jwtToken, w1) \<Rightarrow>
          (case on_svc (Write D (api c1) Background (certAuthLoginPath mount)
              [(''role'', JString role), (''jwt'', JString jwtToken)]) w1 of
             (Inl e, w2) \<Rightarrow> (Err (ErrWrap ''error performing jwt auth'' e), c1, w2)
           | (Inr s, w2) \<Rightarrow>
               (case client_token s of
                  None \<Rightarrow> (Err (ErrNew ''jwt auth: empty auth response from vault''), c1, w2)
                | Some t \<Rightarrow> (Ok (), remember m (c1\<lparr>api := SetToken D (api c1) t\<rparr>), w2))))"

definition spiffe_login :: "('c, 't, 'v) deps \<Rightarrow> string \<Rightarrow> string \<Rightarrow> string \<Rightarrow> string \<Rightarrow> string \<Rightarrow>
    'c client \<Rightarrow> ('h, 'v) world \<Rightarrow> unit outcome \<times> 'c client \<times> ('h, 'v) world" where
  [simp]: "spiffe_login D mount role endpoint audience subject c w =
     (case spiffeid_FromString D subject of
        Inl e \<Rightarrow> (Err (ErrWrap (''invalid SPIFFE ID '' @ go_quote subject) e), c, w)
      | Inr subjectID \<Rightarrow>
          (let src = SpiffeJWTTokenSource
                 \<lparr>src_endpoint = endpoint, src_audience = audience, src_subject = subjectID\<rparr>
           in jwt_login D (source_Token D src) mount role (WithJWTTokenSource mount role src) c w))"

fun apply_option :: "('c, 't, 'v) deps \<Rightarrow> client_option \<Rightarrow> 'c client \<Rightarrow> ('h, 'v) world \<Rightarrow>
    unit outcome \<times> 'c client \<times> ('h, 'v) world" where
  "apply_option D (WithVaultAddress address) c w =
     (case SetAddress D (api c) address of
        (Some e, a) \<Rightarrow> (Err e, c\<lparr>api := a\<rparr>, w)
      | (None, a) \<Rightarrow> (Ok (), c\<lparr>api := a\<rparr>, w))"
| "apply_option D (WithVaultNamespace ns) c w =
     (Ok (), if ns \<noteq> '''' then c\<lparr>api := SetNamespace D (api c) ns\<rparr> else c, w)"
| "apply_option D (WithTransit mount key) c w =
     (Ok (), c\<lparr>TransitEngine := mount, TransitKey := key\<rparr>, w)"
| "apply_option D (WithTokenAuth token) c w =
     (let c1 = c\<lparr>Token := token\<rparr>;
          c2 = (if token \<noteq> '''' then c1\<lparr>api := SetToken D (api c1) token\<rparr> else c1)
      in (Ok (), remember (WithTokenAuth token) c2, w))"
| "apply_option D (WithTokenRenewalSeconds n) c w = (Ok (), c\<lparr>TokenRenewalSeconds := n\<rparr>, w)"
| "apply_option D (WithAppRoleAuth mount roleID secretID) c w =
     approle_login D mount roleID secretID c w"
| "apply_option D (WithUserPassAuth mount username password) c w =
     userpass_login D mount username password c w"
| "apply_option D (WithCertAuth mount role certFile keyFile caFile) c w =
     cert_login D mount role certFile keyFile caFile c w"
| "apply_option D (WithSPIFFEJWTAuth mount role endpoint audience subject) c w =
     spiffe_login D mount role endpoint audience subject c w"
| "apply_option D (WithJWTTokenSource mount role src) c w =
     jwt_login D (source_Token D src) mount role (WithJWTTokenSource mount role src) c w"

fun apply_options :: "('c, 't, 'v) deps \<Rightarrow> client_option list \<Rightarrow> 'c client \<Rightarrow> ('h, 'v) world \<Rightarrow>
    unit outcome \<times> 'c client \<times> ('h, 'v) world" where
  "apply_options D [] c w = (Ok (), c, w)"
| "apply_options D (m # ms) c w =
     (case apply_option D m c w of
        (Ok u, c1, w1) \<Rightarrow> apply_options D ms c1 w1
      | (Err e, c1, w1) \<Rightarrow> (Err e, c1, w1)
      | (Panic k, c1, w1) \<Rightarrow> (Panic k, c1, w1))"

definition NewClient :: "('c, 't, 'v) deps \<Rightarrow> client_option list \<Rightarrow> ('h, 'v) world \<Rightarrow>
    'c client outcome \<times> ('h, 'v) world" where
  "NewClient D opts w =
     (let cfg = DefaultConfig D (env_vars w);
          cfg1 = cfg\<lparr>cfg_HttpClient := NewWithTransport (Transport (cfg_HttpClient cfg))\<rparr>
      in case api_NewClient D cfg1 (env_vars w) of
           Inl e \<Rightarrow> (Err e, w)
         | Inr a \<Rightarrow>
             (case apply_options D opts (fresh_client a) w of
                (Err e, c1, w1) \<Rightarrow> (Err e, w1)
              | (Panic k, c1, w1) \<Rightarrow> (Panic k, w1)
              | (Ok u, c1, w1) \<Rightarrow>
                  (case on_svc (LookupSelf D (api c1)) w1 of
                     (Inl e, w2) \<Rightarrow> (Err (ErrWrap ''failed to connect to vault'' e), w2)
                   | (Inr s, w2) \<Rightarrow> (Ok c1, w2))))"

subsection \<open>What a token source owes a login\<close>

text \<open>
  The interface \<open>jwtTokenSource\<close>: a source may read files and ask services, and leaves the client,
  the environment, the logs and the metrics alone. Over any such source the login does what it
  does for these two.
\<close>

locale jwt_source =
  fixes token :: "go_context \<Rightarrow> ('h, 'v) world \<Rightarrow> (go_error + string) \<times> ('h, 'v) world"
  assumes token_frame: "token ctx w = (r, w') \<Longrightarrow>
      heap w' = heap w \<and> env_vars w' = env_vars w \<and> events w' = events w"
begin

lemma login_frame:
  "jwt_login D token mount role m c w = (r, c', w') \<Longrightarrow>
     heap w' = heap w \<and> env_vars w' = env_vars w \<and> events w' = events w"
  by (auto simp: jwt_login_def Let_def on_svc_def dest!: token_frame
      split: prod.splits sum.splits option.splits)

lemma login_no_panic: "\<not> is_Panic (fst (jwt_login D token mount role m c w))"
  by (auto simp: jwt_login_def Let_def split: prod.splits sum.splits option.splits)

lemma login_effect:
  assumes "jwt_login D token mount role m c w = (r, c', w')"
  shows "r = Ok () \<Longrightarrow> \<exists>t. c' = remember m (c\<lparr>JWTMount := mount, JWTRole := role, api := SetToken D (api c) t\<rparr>)"
    and "r \<noteq> Ok () \<Longrightarrow> c' = c\<lparr>JWTMount := mount, JWTRole := role\<rparr>"
  using assms
  by (auto simp: jwt_login_def Let_def split: prod.splits sum.splits option.splits)

end

interpretation file_source: jwt_source "file_Token path" for path
  by unfold_locales
    (auto simp: file_Token_def on_os_def split: prod.splits sum.splits)

interpretation svid_source: jwt_source "spiffe_Token D fetch s" for D fetch s
  by unfold_locales
    (auto simp: spiffe_Token_def on_svc_def Let_def split: prod.splits sum.splits)

interpretation any_source: jwt_source "source_Token D src" for D src
  by unfold_locales
    (cases src; auto dest: file_source.token_frame svid_source.token_frame)

subsection \<open>Logins\<close>

text \<open>The options that log the client in, and the part of the client the other options configure.\<close>

fun logs_in :: "client_option \<Rightarrow> bool" where
  "logs_in (WithVaultAddress a) = False"
| "logs_in (WithVaultNamespace n) = False"
| "logs_in (WithTransit m k) = False"
| "logs_in (WithTokenRenewalSeconds n) = False"
| "logs_in _ = True"

definition config_of :: "'c client \<Rightarrow> string \<times> string \<times> int" where
  "config_of c = (TransitEngine c, TransitKey c, TokenRenewalSeconds c)"

lemma remember_simps [simp]:
  "api (remember m c) = api c" "config_of (remember m c) = config_of c"
  "AuthMethodFunc (remember m c) = Some (case AuthMethodFunc c of None \<Rightarrow> m | Some m' \<Rightarrow> m')"
  by (simp_all add: remember_def config_of_def split: option.split)

lemma config_of_simps [simp]:
  "config_of (api_update f c) = config_of c"
  "config_of (JWTMount_update g c) = config_of c" "config_of (JWTRole_update g c) = config_of c"
  "config_of (AppRoleMount_update g c) = config_of c" "config_of (AppRoleID_update g c) = config_of c"
  "config_of (AppRoleSecretID_update g c) = config_of c"
  "config_of (UserPassMount_update g c) = config_of c" "config_of (Username_update g c) = config_of c"
  "config_of (Password_update g c) = config_of c" "config_of (CertAuthMount_update g c) = config_of c"
  "config_of (CertRole_update g c) = config_of c" "config_of (CertFile_update g c) = config_of c"
  "config_of (CertKey_update g c) = config_of c" "config_of (Token_update g c) = config_of c"
  by (simp_all add: config_of_def)

lemmas login_defs = approle_login_def userpass_login_def cert_login_def use_login_def Let_def

text \<open>No option touches the shared objects, the environment, the logs or the metrics.\<close>

lemma option_frame:
  "apply_option D m c w = (r, c', w') \<Longrightarrow>
     heap w' = heap w \<and> env_vars w' = env_vars w \<and> events w' = events w"
  by (cases m)
    (auto simp: login_defs on_svc_def on_os_def dest: any_source.login_frame
      split: prod.splits sum.splits option.splits)

text \<open>
  A login changes nothing but the token of its API client, what it notes down of its own method,
  and the remembered method when there was none; a failed one keeps token and method.
\<close>

lemma login_config:
  "logs_in m \<Longrightarrow> apply_option D m c w = (r, c', w') \<Longrightarrow> config_of c' = config_of c"
  by (cases m)
    (auto simp: login_defs on_svc_def on_os_def jwt_login_def
      split: prod.splits sum.splits option.splits if_splits)

lemma login_failed:
  "logs_in m \<Longrightarrow> apply_option D m c w = (r, c', w') \<Longrightarrow> r \<noteq> Ok () \<Longrightarrow>
     api c' = api c \<and> AuthMethodFunc c' = AuthMethodFunc c"
  by (cases m)
    (auto simp: login_defs on_svc_def on_os_def jwt_login_def
      split: prod.splits sum.splits option.splits if_splits)

text \<open>The method a login remembers: the option itself, with a SPIFFE ID it has parsed.\<close>

fun remembered :: "('c, 't, 'v) deps \<Rightarrow> client_option \<Rightarrow> client_option" where
  "remembered D (WithSPIFFEJWTAuth mount role endpoint audience subject) =
     (case spiffeid_FromString D subject of
        Inl e \<Rightarrow> WithSPIFFEJWTAuth mount role endpoint audience subject
      | Inr sid \<Rightarrow> WithJWTTokenSource mount role (SpiffeJWTTokenSource
          \<lparr>src_endpoint = endpoint, src_audience = audience, src_subject = sid\<rparr>))"
| "remembered D m = m"

lemma remembered_same: "apply_option D (remembered D m) c w = apply_option D m c w"
  by (cases m) (auto simp: Let_def split: sum.splits)

lemma login_done:
  "logs_in m \<Longrightarrow> apply_option D m c w = (Ok (), c', w') \<Longrightarrow>
     (\<exists>t. api c' = (if m = WithTokenAuth [] then api c else SetToken D (api c) t))
     \<and> AuthMethodFunc c' = Some (case AuthMethodFunc c of None \<Rightarrow> remembered D m | Some m' \<Rightarrow> m')"
  by (cases m)
    (auto simp: login_defs on_svc_def on_os_def jwt_login_def
      split: prod.splits sum.splits option.splits if_splits)

text \<open>Only the logins that follow the pointers unseen crash, on an answer without a token.\<close>

lemma use_login_panic:
  "is_Panic (fst (use_login D what m c (on_svc f w))) \<longleftrightarrow> (\<exists>s. fst (f (svc w)) = Inr s \<and> client_token s = None)"
  by (auto simp: use_login_def on_svc_def split: prod.splits sum.splits option.splits)

subsection \<open>NewClient\<close>

lemma options_frame:
  "apply_options D ms c w = (r, c', w') \<Longrightarrow>
     heap w' = heap w \<and> env_vars w' = env_vars w \<and> events w' = events w"
proof (induction ms arbitrary: c w)
  case (Cons m ms)
  obtain r1 c1 w1 where 1: "apply_option D m c w = (r1, c1, w1)" by (cases "apply_option D m c w")
  with Cons option_frame [OF 1] show ?case
    by (cases r1) auto
qed simp

lemma options_last:
  "apply_options D (ms @ [m]) c w = (Ok (), c', w') \<Longrightarrow>
     \<exists>c1 w1. apply_options D ms c w = (Ok (), c1, w1) \<and> apply_option D m c1 w1 = (Ok (), c', w')"
proof (induction ms arbitrary: c w)
  case Nil
  then show ?case by (auto split: prod.splits outcome.splits)
next
  case (Cons m0 ms)
  obtain r1 c1 w1 where "apply_option D m0 c w = (r1, c1, w1)" by (cases "apply_option D m0 c w")
  with Cons show ?case by (cases r1) auto
qed

text \<open>The options the plugin configures its client with before it logs in.\<close>

lemma options_config:
  "apply_options D [WithVaultAddress addr, WithVaultNamespace ns, WithTransit mount key,
      WithTokenRenewalSeconds n] c w = (Ok (), c', w') \<Longrightarrow>
     config_of c' = (mount, key, n) \<and> AuthMethodFunc c' = AuthMethodFunc c \<and> w' = w"
  by (auto simp: config_of_def split: prod.splits option.splits if_splits outcome.splits)

lemma NewClient_frame:
  "NewClient D opts w = (r, w') \<Longrightarrow>
     heap w' = heap w \<and> env_vars w' = env_vars w \<and> events w' = events w"
  by (auto simp: NewClient_def Let_def on_svc_def dest!: options_frame
      split: prod.splits sum.splits outcome.splits)

lemma NewClient_Ok:
  assumes "NewClient D opts w = (Ok c, w')"
  obtains a w1 s where "apply_options D opts (fresh_client a) w = (Ok (), c, w1)"
    "LookupSelf D (api c) (svc w1) = (Inr s, svc w')"
  using assms
  by (auto simp: NewClient_def Let_def on_svc_def split: prod.splits sum.splits outcome.splits)

lemma NewClient_configured:
  assumes "NewClient D [WithVaultAddress addr, WithVaultNamespace ns, WithTransit mount key,
      WithTokenRenewalSeconds n, m] w = (Ok c, w')" and "logs_in m"
  obtains v s where "config_of c = (mount, key, n)" "AuthMethodFunc c = Some (remembered D m)"
    "LookupSelf D (api c) v = (Inr s, svc w')"
proof -
  obtain a w1 s where 1: "apply_options D [WithVaultAddress addr, WithVaultNamespace ns, WithTransit mount key,
      WithTokenRenewalSeconds n, m] (fresh_client a) w = (Ok (), c, w1)"
    and 2: "LookupSelf D (api c) (svc w1) = (Inr s, svc w')"
    using assms(1) by (rule NewClient_Ok)
  from 1 obtain c0 w0
    where c0: "apply_options D [WithVaultAddress addr, WithVaultNamespace ns, WithTransit mount key,
        WithTokenRenewalSeconds n] (fresh_client a) w = (Ok (), c0, w0)"
      "apply_option D m c0 w0 = (Ok (), c, w1)"
    using options_last [of D "[WithVaultAddress addr, WithVaultNamespace ns, WithTransit mount key,
        WithTokenRenewalSeconds n]" m] by (metis append_Cons append_Nil)
  from options_config [OF c0(1)] have cfg: "config_of c0 = (mount, key, n)" "AuthMethodFunc c0 = None"
    by (simp_all add: fresh_client_def)
  show thesis
    using that [OF _ _ 2] login_config [OF assms(2) c0(2)] login_done [OF assms(2) c0(2)] cfg by simp
qed

lemma remembered_logs_in: "logs_in m \<Longrightarrow> logs_in (remembered D m)"
  by (cases m) (auto split: sum.splits)

end
