(* ===== verification/Plugin_API.thy ===== *)
theory Plugin_API
  imports Go_World Metrics
begin

text \<open>
  The interface \<open>Plugin\<close> of \<open>pkg/plugin/plugin_v2.go\<close>, which both KMS wrappers call and the Vault
  client implements, and its contract: what an encryption service owes the wrappers, and that it
  leaves the operation metrics to them.
\<close>

record ('h, 'v) plugin =
  Encrypt :: "go_context \<Rightarrow> bytes \<Rightarrow> ('h, 'v) world \<Rightarrow> (bytes \<times> string) outcome \<times> ('h, 'v) world"
  Decrypt :: "go_context \<Rightarrow> bytes \<Rightarrow> ('h, 'v) world \<Rightarrow> bytes outcome \<times> ('h, 'v) world"
  GetKeyVersion :: "go_context \<Rightarrow> ('h, 'v) world \<Rightarrow> string outcome \<times> ('h, 'v) world"

text \<open>
  The gRPC server, as far as the wrappers use it: the services registered with it, in order; gRPC
  gives a request to the service of its API.
\<close>

datatype kms_version = KMS1 | KMS2

type_synonym grpc_server = "kms_version list"

text \<open>The counters and histograms of the KMS operations: errors and durations.\<close>

definition op_meter :: "event list \<Rightarrow> nat \<times> nat \<times> nat \<times> nat" where
  "op_meter es =
     (incs EncryptionErrorsTotal es, incs DecryptionErrorsTotal es,
      observations EncryptionOperationDurationSeconds es,
      observations DecryptionOperationDurationSeconds es)"

lemma op_meter_log [simp]: "op_meter (es @ [Log l m fs]) = op_meter es"
  by (simp add: op_meter_def)

lemma op_meter_log_log [simp]: "op_meter (es @ [Log l m fs, Log l' m' fs']) = op_meter es"
  by (simp add: op_meter_def)

text \<open>
  \<open>ready p w\<close>: the service behind the object \<open>p\<close> works. \<open>stored p ct x w\<close>: the service will
  decrypt \<open>ct\<close> to \<open>x\<close>. A working service encrypts, keeps what it has encrypted and stays working;
  neither fact depends on what was logged or measured.
\<close>

locale kms_service =
  fixes impl :: "'p \<Rightarrow> ('h, 'v) plugin"
    and ready :: "'p \<Rightarrow> ('h, 'v) world \<Rightarrow> bool"
    and stored :: "'p \<Rightarrow> bytes \<Rightarrow> bytes \<Rightarrow> ('h, 'v) world \<Rightarrow> bool"
  assumes encrypt_ready:
      "ready p w \<Longrightarrow> \<exists>ct kid w'. Encrypt (impl p) ctx x w = (Ok (ct, kid), w')
         \<and> ready p w' \<and> stored p ct x w'"
    and decrypt_ready:
      "ready p w \<Longrightarrow> Decrypt (impl p) ctx ct w = (d, w') \<Longrightarrow> ready p w'"
    and decrypt_stored:
      "ready p w \<Longrightarrow> stored p ct x w \<Longrightarrow> fst (Decrypt (impl p) ctx ct w) = Ok x"
    and version_ready:
      "ready p w \<Longrightarrow> \<exists>kid w'. GetKeyVersion (impl p) ctx w = (Ok kid, w') \<and> ready p w'"
    and stored_encrypt:
      "ready p w \<Longrightarrow> stored p ct x w \<Longrightarrow> Encrypt (impl p) ctx y w = (e, w') \<Longrightarrow> stored p ct x w'"
    and stored_decrypt:
      "ready p w \<Longrightarrow> stored p ct x w \<Longrightarrow> Decrypt (impl p) ctx y w = (d, w') \<Longrightarrow> stored p ct x w'"
    and stored_version:
      "ready p w \<Longrightarrow> stored p ct x w \<Longrightarrow> GetKeyVersion (impl p) ctx w = (v, w') \<Longrightarrow> stored p ct x w'"
    and ready_emit: "ready p (emit ev w) \<longleftrightarrow> ready p w"
    and stored_emit: "stored p ct x (emit ev w) \<longleftrightarrow> stored p ct x w"

locale quiet_plugin =
  fixes impl :: "'p \<Rightarrow> ('h, 'v) plugin"
  assumes encrypt_quiet:
      "Encrypt (impl p) ctx x w = (e, w') \<Longrightarrow> op_meter (events w') = op_meter (events w)"
    and decrypt_quiet:
      "Decrypt (impl p) ctx y w = (d, w') \<Longrightarrow> op_meter (events w') = op_meter (events w)"
    and version_quiet:
      "GetKeyVersion (impl p) ctx w = (v, w') \<Longrightarrow> op_meter (events w') = op_meter (events w)"

locale metered_kms = kms_service + quiet_plugin

end
