(* ===== verification/Plugin_V1.thy ===== *)
theory Plugin_V1
  imports Plugin_API
begin

text \<open>
  \<open>pkg/plugin/plugin_v1.go\<close>: the KMS v1 wrapper. The timer of an operation is deferred, so it
  observes the operation on every way out, a panic of the plugin included; the probes
  (\<open>recordMetrics = False\<close>) neither measure nor log.
\<close>

record ('h, 'v) KMSv1 =
  v1_plugin :: "('h, 'v) plugin"

record v1_VersionResponse =
  v1_Version_field :: string
  v1_RuntimeName :: string
  v1_RuntimeVersion :: string

record v1_EncryptResponse = v1_Cipher :: bytes

record v1_DecryptResponse = v1_Plain :: bytes

definition NewPluginV1 :: "('h, 'v) plugin \<Rightarrow> ('h, 'v) KMSv1" where
  "NewPluginV1 p = \<lparr>v1_plugin = p\<rparr>"

definition v1_Register :: "('h, 'v) KMSv1 \<Rightarrow> grpc_server \<Rightarrow> grpc_server" where
  "v1_Register v1 s = s @ [KMS1]"

definition v1_Version :: "('h, 'v) KMSv1 \<Rightarrow> v1_VersionResponse outcome" where
  "v1_Version v1 = Ok \<lparr>v1_Version_field = ''v1beta1'', v1_RuntimeName = ''vault'',
     v1_RuntimeVersion = ''0.0.1''\<rparr>"

definition v1_encrypt :: "('h, 'v) KMSv1 \<Rightarrow> go_context \<Rightarrow> bytes \<Rightarrow> bool \<Rightarrow> ('h, 'v) world \<Rightarrow>
    v1_EncryptResponse outcome \<times> ('h, 'v) world" where
  "v1_encrypt v1 ctx plain recordMetrics w =
     (let observe = emit_if recordMetrics (Observe EncryptionOperationDurationSeconds []) in
      case Encrypt (v1_plugin v1) ctx plain w of
        (Err e, w1) \<Rightarrow> (Err e, observe (emit_if recordMetrics (CounterInc EncryptionErrorsTotal) w1))
      | (Panic k, w1) \<Rightarrow> (Panic k, observe w1)
      | (Ok (resp, kid), w1) \<Rightarrow>
          (Ok \<lparr>v1_Cipher = resp\<rparr>,
           observe (emit_if recordMetrics (Log InfoLevel ''v1 encryption request'' []) w1)))"

definition v1_decrypt :: "('h, 'v) KMSv1 \<Rightarrow> go_context \<Rightarrow> bytes \<Rightarrow> bool \<Rightarrow> ('h, 'v) world \<Rightarrow>
    v1_DecryptResponse outcome \<times> ('h, 'v) world" where
  "v1_decrypt v1 ctx cipher recordMetrics w =
     (let observe = emit_if recordMetrics (Observe DecryptionOperationDurationSeconds []) in
      case Decrypt (v1_plugin v1) ctx cipher w of
        (Err e, w1) \<Rightarrow> (Err e, observe (emit_if recordMetrics (CounterInc DecryptionErrorsTotal) w1))
      | (Panic k, w1) \<Rightarrow> (Panic k, observe w1)
      | (Ok resp, w1) \<Rightarrow>
          (Ok \<lparr>v1_Plain = resp\<rparr>,
           observe (emit_if recordMetrics (Log InfoLevel ''v1 decryption request'' []) w1)))"

definition v1_Encrypt :: "('h, 'v) KMSv1 \<Rightarrow> go_context \<Rightarrow> bytes \<Rightarrow> ('h, 'v) world \<Rightarrow>
    v1_EncryptResponse outcome \<times> ('h, 'v) world" where
  "v1_Encrypt v1 ctx plain w = v1_encrypt v1 ctx plain True w"

definition v1_Decrypt :: "('h, 'v) KMSv1 \<Rightarrow> go_context \<Rightarrow> bytes \<Rightarrow> ('h, 'v) world \<Rightarrow>
    v1_DecryptResponse outcome \<times> ('h, 'v) world" where
  "v1_Decrypt v1 ctx cipher w = v1_decrypt v1 ctx cipher True w"

definition v1_Health :: "('h, 'v) KMSv1 \<Rightarrow> go_context \<Rightarrow> ('h, 'v) world \<Rightarrow>
    unit outcome \<times> ('h, 'v) world" where
  "v1_Health v1 ctx w =
     (case v1_encrypt v1 ctx ''health'' False w of
        (Err e, w1) \<Rightarrow> (Err e, w1)
      | (Panic k, w1) \<Rightarrow> (Panic k, w1)
      | (Ok enc, w1) \<Rightarrow>
          (case v1_decrypt v1 ctx (v1_Cipher enc) False w1 of
             (Err e, w2) \<Rightarrow> (Err e, w2)
           | (Panic k, w2) \<Rightarrow> (Panic k, w2)
           | (Ok dec, w2) \<Rightarrow>
               if ''health'' \<noteq> v1_Plain dec
               then (Err (ErrNew ''v1 health check failed''), log_info ''v1 health status failed'' [] w2)
               else (Ok (), w2)))"

end
