(* ===== verification/Plugin_V2.thy ===== *)
theory Plugin_V2
  imports Plugin_API Go_Strings
begin

text \<open>
  \<open>pkg/plugin/plugin_v2.go\<close>: the KMS v2 wrapper. \<open>now\<close> is the Unix time the health probe reads to
  name its own requests.
\<close>

record ('h, 'v) KMSv2 =
  v2_plugin :: "('h, 'v) plugin"

record v2_StatusResponse =
  v2_Version :: string
  v2_Healthz :: string
  v2_KeyId :: string

record v2_EncryptResponse =
  v2_Ciphertext :: bytes
  v2_enc_KeyId :: string

record v2_DecryptResponse = v2_Plaintext :: bytes

definition NewPluginV2 :: "('h, 'v) plugin \<Rightarrow> ('h, 'v) KMSv2" where
  "NewPluginV2 p = \<lparr>v2_plugin = p\<rparr>"

definition v2_Register :: "('h, 'v) KMSv2 \<Rightarrow> grpc_server \<Rightarrow> grpc_server" where
  "v2_Register v2 s = s @ [KMS2]"

definition v2_encrypt :: "('h, 'v) KMSv2 \<Rightarrow> go_context \<Rightarrow> bytes \<Rightarrow> string \<Rightarrow> bool \<Rightarrow> ('h, 'v) world \<Rightarrow>
    v2_EncryptResponse outcome \<times> ('h, 'v) world" where
  "v2_encrypt v2 ctx plain requestID recordMetrics w =
     (let observe = emit_if recordMetrics (Observe EncryptionOperationDurationSeconds []) in
      case Encrypt (v2_plugin v2) ctx plain w of
        (Err e, w1) \<Rightarrow> (Err e, observe (emit_if recordMetrics (CounterInc EncryptionErrorsTotal) w1))
      | (Panic k, w1) \<Rightarrow> (Panic k, observe w1)
      | (Ok (resp, kid), w1) \<Rightarrow>
          (Ok \<lparr>v2_Ciphertext = resp, v2_enc_KeyId = kid\<rparr>,
           observe (emit_if recordMetrics
             (Log InfoLevel ''v2 encryption request'' [FString ''request_id'' requestID]) w1)))"

definition v2_decrypt :: "('h, 'v) KMSv2 \<Rightarrow> go_context \<Rightarrow> bytes \<Rightarrow> string \<Rightarrow> bool \<Rightarrow> ('h, 'v) world \<Rightarrow>
    v2_DecryptResponse outcome \<times> ('h, 'v) world" where
  "v2_decrypt v2 ctx cipher requestID recordMetrics w =
     (let observe = emit_if recordMetrics (Observe DecryptionOperationDurationSeconds []) in
      case Decrypt (v2_plugin v2) ctx cipher w of
        (Err e, w1) \<Rightarrow> (Err e, observe (emit_if recordMetrics (CounterInc DecryptionErrorsTotal) w1))
      | (Panic k, w1) \<Rightarrow> (Panic k, observe w1)
      | (Ok resp, w1) \<Rightarrow>
          (Ok \<lparr>v2_Plaintext = resp\<rparr>,
           observe (emit_if recordMetrics
             (Log InfoLevel ''v2 decryption request'' [FString ''request_id'' requestID]) w1)))"

definition v2_Encrypt :: "('h, 'v) KMSv2 \<Rightarrow> go_context \<Rightarrow> bytes \<Rightarrow> string \<Rightarrow> ('h, 'v) world \<Rightarrow>
    v2_EncryptResponse outcome \<times> ('h, 'v) world" where
  "v2_Encrypt v2 ctx plain uid w = v2_encrypt v2 ctx plain uid True w"

definition v2_Decrypt :: "('h, 'v) KMSv2 \<Rightarrow> go_context \<Rightarrow> bytes \<Rightarrow> string \<Rightarrow> ('h, 'v) world \<Rightarrow>
    v2_DecryptResponse outcome \<times> ('h, 'v) world" where
  "v2_Decrypt v2 ctx cipher uid w = v2_decrypt v2 ctx cipher uid True w"

definition v2_Health :: "int \<Rightarrow> ('h, 'v) KMSv2 \<Rightarrow> go_context \<Rightarrow> ('h, 'v) world \<Rightarrow>
    unit outcome \<times> ('h, 'v) world" where
  "v2_Health now v2 ctx w =
     (case v2_encrypt v2 ctx ''health'' (show_int now) False w of
        (Err e, w1) \<Rightarrow> (Err e, w1)
      | (Panic k, w1) \<Rightarrow> (Panic k, w1)
      | (Ok enc, w1) \<Rightarrow>
          (case v2_decrypt v2 ctx (v2_Ciphertext enc) (show_int now) False w1 of
             (Err e, w2) \<Rightarrow> (Err e, w2)
           | (Panic k, w2) \<Rightarrow> (Panic k, w2)
           | (Ok dec, w2) \<Rightarrow>
               if ''health'' \<noteq> v2_Plaintext dec
               then (Err (ErrNew ''v2 health check failed''), log_info ''v2 health status failed'' [] w2)
               else (Ok (), w2)))"

definition v2_Status :: "int \<Rightarrow> ('h, 'v) KMSv2 \<Rightarrow> go_context \<Rightarrow> ('h, 'v) world \<Rightarrow>
    v2_StatusResponse outcome \<times> ('h, 'v) world" where
  "v2_Status now v2 ctx w =
     (case GetKeyVersion (v2_plugin v2) ctx w of
        (Err e, w1) \<Rightarrow> (Err e, w1)
      | (Panic k, w1) \<Rightarrow> (Panic k, w1)
      | (Ok kv, w1) \<Rightarrow>
          (let report = (\<lambda>health w3.
                 (Ok \<lparr>v2_Version = ''v2'', v2_Healthz = health, v2_KeyId = kv\<rparr>,
                  log_info ''health status''
                    [FString ''key_id'' kv, FString ''healthz'' health, FString ''version'' ''v2''] w3))
           in case v2_Health now v2 ctx w1 of
                (Ok u, w2) \<Rightarrow> report ''ok'' w2
              | (Err e, w2) \<Rightarrow> report ''err'' (log_info ''v2 health check failed'' [FError e] w2)
              | (Panic k, w2) \<Rightarrow> (Panic k, w2)))"

end
