(* ===== verification/Probes.thy ===== *)
theory Probes
  imports Http
begin

text \<open>
  \<open>pkg/probes\<close>: the health endpoint. A prober is the \<open>Health\<close> method of an object; an entry of
  the list can be a nil interface value (\<open>None\<close>).
\<close>

type_synonym ('h, 'v) prober = "go_context \<Rightarrow> ('h, 'v) world \<Rightarrow> unit outcome \<times> ('h, 'v) world"

fun HealthZ :: "('h, 'v) prober option list \<Rightarrow> ('h, 'v) handler" where
  "HealthZ [] req rp w =
     (Ok (), write_body ''OK'' (WriteHeader 200 rp), log_debug ''health checks succeeded'' [] w)"
| "HealthZ (None # ps) req rp w = (Ok (), rp, w)"
| "HealthZ (Some p # ps) req rp w =
     (case p (Context req) w of
        (Ok u, w1) \<Rightarrow> HealthZ ps req rp w1
      | (Err e, w1) \<Rightarrow>
          (Ok (), write_body (error_text e) (WriteHeader 500 rp),
           log_error ''health check failed'' [FError e] w1)
      | (Panic k, w1) \<Rightarrow> (Panic k, rp, w1))"

text \<open>
  The contract of probers that share what they check (the two KMS wrappers share the Vault client):
  while the shared object \<open>p\<close> is good, a probe of any kind succeeds and leaves it good, and the
  probes leave a measure of the world (the operation metrics) alone.
\<close>

locale probing =
  fixes health :: "'k \<Rightarrow> 'p \<Rightarrow> ('h, 'v) prober"
    and good :: "'p \<Rightarrow> ('h, 'v) world \<Rightarrow> bool"
    and meter :: "event list \<Rightarrow> 'm"
  assumes health_good:
      "good p w \<Longrightarrow> \<exists>w'. health k p ctx w = (Ok (), w') \<and> good p w'"
    and health_meter:
      "health k p ctx w = (r, w') \<Longrightarrow> meter (events w') = meter (events w)"
    and meter_log: "meter (es @ [Log l m fs]) = meter es"
begin

lemma healthz_good:
  "good p w \<Longrightarrow> \<exists>w'. HealthZ (map (\<lambda>k. Some (health k p)) ks) req rp w
      = (Ok (), write_body ''OK'' (WriteHeader 200 rp), w')"
proof (induction ks arbitrary: w)
  case (Cons k ks)
  from health_good [OF Cons.prems] obtain w1
    where "health k p (Context req) w = (Ok (), w1)" "good p w1" by blast
  with Cons.IH [of w1] show ?case by simp
qed simp

lemma healthz_meter:
  "HealthZ (map (\<lambda>k. Some (health k p)) ks) req rp w = (r, rp', w') \<Longrightarrow>
     meter (events w') = meter (events w)"
proof (induction ks arbitrary: w)
  case (Cons k ks)
  show ?case
  proof (cases "health k p (Context req) w")
    case (Pair res w1)
    then have "meter (events w1) = meter (events w)" by (rule health_meter)
    with Cons Pair show ?thesis
      by (cases res) (auto simp: meter_log)
  qed
qed (auto simp: meter_log)

end

text \<open>
  What the endpoint promises, without its loop: \<open>passes\<close> says that a list of probers, run one after
  another from a world, all succeed.
\<close>

inductive passes :: "('h, 'v) prober option list \<Rightarrow> go_context \<Rightarrow>
    ('h, 'v) world \<Rightarrow> ('h, 'v) world \<Rightarrow> bool" where
  passes_Nil: "passes [] ctx w w"
| passes_Cons: "p ctx w = (Ok (), w1) \<Longrightarrow> passes ps ctx w1 w2 \<Longrightarrow> passes (Some p # ps) ctx w w2"

inductive_simps passes_Nil_iff [simp]: "passes [] ctx w w'"
inductive_simps passes_None_iff [simp]: "passes (None # ps) ctx w w'"
inductive_simps passes_Some_iff [simp]: "passes (Some p # ps) ctx w w'"

lemma HealthZ_passes:
  "passes ps (Context req) w w1 \<Longrightarrow> HealthZ (ps @ qs) req rp w = HealthZ qs req rp w1"
proof (induction ps arbitrary: w)
  case (Cons p ps)
  then show ?case by (cases p) auto
qed simp

lemma passes_append:
  "passes (ps @ qs) ctx w w2 \<longleftrightarrow> (\<exists>w1. passes ps ctx w w1 \<and> passes qs ctx w1 w2)"
proof (induction ps arbitrary: w)
  case (Cons p ps)
  then show ?case by (cases p) auto
qed simp

lemma passes_det: "passes ps ctx w w1 \<Longrightarrow> passes ps ctx w w2 \<Longrightarrow> w1 = w2"
proof (induction ps arbitrary: w)
  case (Cons p ps)
  then show ?case by (cases p) auto
qed simp

text \<open>Every run ends in exactly one of four ways.\<close>

lemma HealthZ_cases:
  obtains (all) w1 where "passes ps ctx w w1"
  | (nil) pre suf w1 where "ps = pre @ None # suf" "passes pre ctx w w1"
  | (failed) pre p suf w1 e w2 where "ps = pre @ Some p # suf" "passes pre ctx w w1"
      "p ctx w1 = (Err e, w2)"
  | (crashed) pre p suf w1 k w2 where "ps = pre @ Some p # suf" "passes pre ctx w w1"
      "p ctx w1 = (Panic k, w2)"
proof -
  have "(\<exists>w1. passes ps ctx w w1)
    \<or> (\<exists>pre suf w1. ps = pre @ None # suf \<and> passes pre ctx w w1)
    \<or> (\<exists>pre p suf w1 e w2. ps = pre @ Some p # suf \<and> passes pre ctx w w1 \<and> p ctx w1 = (Err e, w2))
    \<or> (\<exists>pre p suf w1 k w2. ps = pre @ Some p # suf \<and> passes pre ctx w w1 \<and> p ctx w1 = (Panic k, w2))"
    (is "?P ps w")
  proof (induction ps arbitrary: w)
    case (Cons q ps)
    show ?case
    proof (cases q)
      case None
      then show ?thesis using passes_Nil by (metis append_Nil)
    next
      case (Some p)
      obtain r w1 where pw: "p ctx w = (r, w1)" by (cases "p ctx w")
      show ?thesis
      proof (cases r)
        case (Ok u)
        with pw have step: "passes (Some p # pre) ctx w w2" if "passes pre ctx w1 w2" for pre w2
          using that by simp
        show ?thesis
          using Cons.IH [of w1] step Some by (metis append_Cons)
      next
        case (Err e)
        with pw Some show ?thesis using passes_Nil by (metis append_Nil)
      next
        case (Panic k)
        with pw Some show ?thesis using passes_Nil by (metis append_Nil)
      qed
    qed
  qed (auto intro: passes_Nil)
  then show thesis using that by blast
qed

end
