(* ===== verification/Plugin_Service.thy ===== *)
theory Plugin_Service
  imports Plugin_V1 Plugin_V2 Probes
begin

text \<open>
  The two KMS wrappers as one gRPC service: the requests the kube-apiserver and the health endpoint
  make, served one after another over the same plugin, and what the wrappers guarantee when the
  plugin keeps its contract.
\<close>

datatype kms_request =
    V1EncryptRequest bytes
  | V1DecryptRequest bytes
  | V1HealthProbe
  | V2EncryptRequest bytes string
  | V2DecryptRequest bytes string
  | V2HealthProbe int
  | V2StatusRequest int

datatype kms_reply =
    V1Encrypted "v1_EncryptResponse outcome"
  | V1Decrypted "v1_DecryptResponse outcome"
  | V2Encrypted "v2_EncryptResponse outcome"
  | V2Decrypted "v2_DecryptResponse outcome"
  | StatusReport "v2_StatusResponse outcome"
  | Probed "unit outcome"

fun kms_serve :: "('h, 'v) plugin \<Rightarrow> go_context \<Rightarrow> kms_request \<Rightarrow> ('h, 'v) world \<Rightarrow>
    kms_reply \<times> ('h, 'v) world" where
  "kms_serve p ctx (V1EncryptRequest x) w = map_prod V1Encrypted id (v1_Encrypt (NewPluginV1 p) ctx x w)"
| "kms_serve p ctx (V1DecryptRequest c) w = map_prod V1Decrypted id (v1_Decrypt (NewPluginV1 p) ctx c w)"
| "kms_serve p ctx V1HealthProbe w = map_prod Probed id (v1_Health (NewPluginV1 p) ctx w)"
| "kms_serve p ctx (V2EncryptRequest x uid) w =
     map_prod V2Encrypted id (v2_Encrypt (NewPluginV2 p) ctx x uid w)"
| "kms_serve p ctx (V2DecryptRequest c uid) w =
     map_prod V2Decrypted id (v2_Decrypt (NewPluginV2 p) ctx c uid w)"
| "kms_serve p ctx (V2HealthProbe now) w = map_prod Probed id (v2_Health now (NewPluginV2 p) ctx w)"
| "kms_serve p ctx (V2StatusRequest now) w =
     map_prod StatusReport id (v2_Status now (NewPluginV2 p) ctx w)"

fun kms_run :: "('h, 'v) plugin \<Rightarrow> (go_context \<times> kms_request) list \<Rightarrow> ('h, 'v) world \<Rightarrow>
    kms_reply list \<times> ('h, 'v) world" where
  "kms_run p [] w = ([], w)"
| "kms_run p ((ctx, r) # rs) w =
     (let (a, w1) = kms_serve p ctx r w; (as, w2) = kms_run p rs w1 in (a # as, w2))"

text \<open>What a served request owes the operation metrics: an observation, and an error if it failed.\<close>

fun charge :: "kms_reply \<Rightarrow> nat \<times> nat \<times> nat \<times> nat" where
  "charge (V1Encrypted r) = ((if is_Err r then 1 else 0), 0, 1, 0)"
| "charge (V1Decrypted r) = (0, (if is_Err r then 1 else 0), 0, 1)"
| "charge (V2Encrypted r) = ((if is_Err r then 1 else 0), 0, 1, 0)"
| "charge (V2Decrypted r) = (0, (if is_Err r then 1 else 0), 0, 1)"
| "charge (StatusReport r) = (0, 0, 0, 0)"
| "charge (Probed r) = (0, 0, 0, 0)"

fun add4 :: "nat \<times> nat \<times> nat \<times> nat \<Rightarrow> nat \<times> nat \<times> nat \<times> nat \<Rightarrow> nat \<times> nat \<times> nat \<times> nat" where
  "add4 (a, b, c, d) (a', b', c', d') = (a + a', b + b', c + c', d + d')"

fun charges :: "kms_reply list \<Rightarrow> nat \<times> nat \<times> nat \<times> nat" where
  "charges [] = (0, 0, 0, 0)"
| "charges (r # rs) = add4 (charge r) (charges rs)"

lemmas wrapper_defs =
  v1_Encrypt_def v1_Decrypt_def v1_encrypt_def v1_decrypt_def v1_Health_def
  v2_Encrypt_def v2_Decrypt_def v2_encrypt_def v2_decrypt_def v2_Health_def v2_Status_def
  NewPluginV1_def NewPluginV2_def

lemma add4_zero [simp]: "add4 (0, 0, 0, 0) x = x" "add4 x (0, 0, 0, 0) = x"
  by (cases x, simp)+

lemma add4_assoc: "add4 (add4 x y) z = add4 x (add4 y z)"
  by (cases x, cases y, cases z) simp

subsection \<open>The probes\<close>

text \<open>
  What a health probe does to the plugin: it succeeds when what it encrypted is decrypted to the same
  bytes, and crashes when one of the two calls does.
\<close>

fun probe_passes :: "('h, 'v) plugin \<Rightarrow> go_context \<Rightarrow> ('h, 'v) world \<Rightarrow> bool" where
  "probe_passes p ctx w =
     (case Encrypt p ctx ''health'' w of
        (Ok (ct, kid), w1) \<Rightarrow> fst (Decrypt p ctx ct w1) = Ok ''health''
      | _ \<Rightarrow> False)"

fun probe_crashes :: "('h, 'v) plugin \<Rightarrow> go_context \<Rightarrow> ('h, 'v) world \<Rightarrow> bool" where
  "probe_crashes p ctx w =
     (case Encrypt p ctx ''health'' w of
        (Ok (ct, kid), w1) \<Rightarrow> is_Panic (fst (Decrypt p ctx ct w1))
      | (Panic k, w1) \<Rightarrow> True
      | (Err e, w1) \<Rightarrow> False)"

lemma v1_Health_probe:
  "fst (v1_Health (NewPluginV1 p) ctx w) = Ok () \<longleftrightarrow> probe_passes p ctx w"
  "is_Panic (fst (v1_Health (NewPluginV1 p) ctx w)) \<longleftrightarrow> probe_crashes p ctx w"
  by (auto simp: v1_Health_def v1_encrypt_def v1_decrypt_def NewPluginV1_def Let_def
      split: prod.splits outcome.splits)

lemma v2_Health_probe:
  "fst (v2_Health now (NewPluginV2 p) ctx w) = Ok () \<longleftrightarrow> probe_passes p ctx w"
  "is_Panic (fst (v2_Health now (NewPluginV2 p) ctx w)) \<longleftrightarrow> probe_crashes p ctx w"
  by (auto simp: v2_Health_def v2_encrypt_def v2_decrypt_def NewPluginV2_def Let_def
      split: prod.splits outcome.splits)

subsection \<open>Metrics\<close>

lemma op_meter_snoc:
  "op_meter (es @ [CounterInc EncryptionErrorsTotal, Observe EncryptionOperationDurationSeconds []])
     = add4 (op_meter es) (1, 0, 1, 0)"
  "op_meter (es @ [CounterInc DecryptionErrorsTotal, Observe DecryptionOperationDurationSeconds []])
     = add4 (op_meter es) (0, 1, 0, 1)"
  "op_meter (es @ [Observe EncryptionOperationDurationSeconds []]) = add4 (op_meter es) (0, 0, 1, 0)"
  "op_meter (es @ [Observe DecryptionOperationDurationSeconds []]) = add4 (op_meter es) (0, 0, 0, 1)"
  "op_meter (es @ [Log l m fs, Observe EncryptionOperationDurationSeconds []])
     = add4 (op_meter es) (0, 0, 1, 0)"
  "op_meter (es @ [Log l m fs, Observe DecryptionOperationDurationSeconds []])
     = add4 (op_meter es) (0, 0, 0, 1)"
  by (simp_all add: op_meter_def)

context quiet_plugin
begin

lemma v1_encrypt_meter:
  "v1_encrypt (NewPluginV1 (impl p)) ctx x rec w = (r, w') \<Longrightarrow>
     op_meter (events w') = add4 (op_meter (events w))
       (if rec then ((if is_Err r then 1 else 0), 0, 1, 0) else (0, 0, 0, 0))"
  by (cases rec; cases "Encrypt (impl p) ctx x w")
    (auto simp: v1_encrypt_def NewPluginV1_def Let_def op_meter_snoc dest: encrypt_quiet
      split: outcome.splits)

lemma v1_decrypt_meter:
  "v1_decrypt (NewPluginV1 (impl p)) ctx c rec w = (r, w') \<Longrightarrow>
     op_meter (events w') = add4 (op_meter (events w))
       (if rec then (0, (if is_Err r then 1 else 0), 0, 1) else (0, 0, 0, 0))"
  by (cases rec; cases "Decrypt (impl p) ctx c w")
    (auto simp: v1_decrypt_def NewPluginV1_def Let_def op_meter_snoc dest: decrypt_quiet
      split: outcome.splits)

lemma v2_encrypt_meter:
  "v2_encrypt (NewPluginV2 (impl p)) ctx x uid rec w = (r, w') \<Longrightarrow>
     op_meter (events w') = add4 (op_meter (events w))
       (if rec then ((if is_Err r then 1 else 0), 0, 1, 0) else (0, 0, 0, 0))"
  by (cases rec; cases "Encrypt (impl p) ctx x w")
    (auto simp: v2_encrypt_def NewPluginV2_def Let_def op_meter_snoc dest: encrypt_quiet
      split: outcome.splits)

lemma v2_decrypt_meter:
  "v2_decrypt (NewPluginV2 (impl p)) ctx c uid rec w = (r, w') \<Longrightarrow>
     op_meter (events w') = add4 (op_meter (events w))
       (if rec then (0, (if is_Err r then 1 else 0), 0, 1) else (0, 0, 0, 0))"
  by (cases rec; cases "Decrypt (impl p) ctx c w")
    (auto simp: v2_decrypt_def NewPluginV2_def Let_def op_meter_snoc dest: decrypt_quiet
      split: outcome.splits)

text \<open>The probes measure nothing, whatever comes of them.\<close>

lemma v1_Health_meter:
  "v1_Health (NewPluginV1 (impl p)) ctx w = (r, w') \<Longrightarrow> op_meter (events w') = op_meter (events w)"
  by (auto simp: v1_Health_def dest!: v1_encrypt_meter v1_decrypt_meter
      split: outcome.splits prod.splits if_splits)

lemma v2_Health_meter:
  "v2_Health now (NewPluginV2 (impl p)) ctx w = (r, w') \<Longrightarrow>
     op_meter (events w') = op_meter (events w)"
  by (auto simp: v2_Health_def dest!: v2_encrypt_meter v2_decrypt_meter
      split: outcome.splits prod.splits if_splits)

lemma v2_Status_meter:
  assumes "v2_Status now (NewPluginV2 (impl p)) ctx w = (r, w')"
  shows "op_meter (events w') = op_meter (events w)"
proof (cases "GetKeyVersion (impl p) ctx w")
  case (Pair kv w1)
  then have "op_meter (events w1) = op_meter (events w)" by (rule version_quiet)
  moreover obtain h w2 where h: "v2_Health now (NewPluginV2 (impl p)) ctx w1 = (h, w2)"
    by (cases "v2_Health now (NewPluginV2 (impl p)) ctx w1")
  ultimately have "op_meter (events w2) = op_meter (events w)"
    by (simp add: v2_Health_meter)
  with assms Pair h \<open>op_meter (events w1) = op_meter (events w)\<close> show ?thesis
    by (cases kv; cases h) (auto simp: v2_Status_def NewPluginV2_def Let_def)
qed

lemmas wrapper_meters =
  v1_encrypt_meter v1_decrypt_meter v2_encrypt_meter v2_decrypt_meter
  v1_Health_meter v2_Health_meter v2_Status_meter

lemma kms_serve_meter:
  "kms_serve (impl p) ctx q w = (a, w') \<Longrightarrow>
     op_meter (events w') = add4 (op_meter (events w)) (charge a)"
  by (cases q)
    (auto simp: v1_Encrypt_def v1_Decrypt_def v2_Encrypt_def v2_Decrypt_def map_prod_def
      dest!: wrapper_meters split: prod.splits)

lemma kms_run_meter:
  "kms_run (impl p) qs w = (as, w') \<Longrightarrow>
     op_meter (events w') = add4 (op_meter (events w)) (charges as)"
proof (induction qs arbitrary: w as)
  case (Cons q qs)
  obtain a w1 where 1: "kms_serve (impl p) (fst q) (snd q) w = (a, w1)"
    by (cases "kms_serve (impl p) (fst q) (snd q) w")
  obtain bs w2 where 2: "kms_run (impl p) qs w1 = (bs, w2)"
    by (cases "kms_run (impl p) qs w1")
  from Cons.prems 1 2 have "as = a # bs" "w' = w2"
    by (cases q; auto)+
  with Cons.IH [of w1 bs] 2 kms_serve_meter [OF 1] show ?case
    by (simp add: add4_assoc)
qed simp

end

subsection \<open>What a request adds to the log and the metrics\<close>

text \<open>
  The identifier a request carries, and the events serving an encryption or a decryption adds: they
  are made of the identifier and of the kind of the answer alone.
\<close>

fun request_id :: "kms_request \<Rightarrow> string" where
  "request_id (V2EncryptRequest x uid) = uid"
| "request_id (V2DecryptRequest c uid) = uid"
| "request_id _ = []"

fun is_probe :: "kms_request \<Rightarrow> bool" where
  "is_probe V1HealthProbe = True"
| "is_probe (V2HealthProbe now) = True"
| "is_probe (V2StatusRequest now) = True"
| "is_probe _ = False"

fun logged :: "event \<Rightarrow> string \<Rightarrow> 'a outcome \<Rightarrow> event list" where
  "logged l n (Ok x) = [l]"
| "logged l n (Err e) = [CounterInc n]"
| "logged l n (Panic k) = []"

fun request_events :: "string \<Rightarrow> kms_reply \<Rightarrow> event list" where
  "request_events uid (V1Encrypted r) =
     logged (Log InfoLevel ''v1 encryption request'' []) EncryptionErrorsTotal r
     @ [Observe EncryptionOperationDurationSeconds []]"
| "request_events uid (V1Decrypted r) =
     logged (Log InfoLevel ''v1 decryption request'' []) DecryptionErrorsTotal r
     @ [Observe DecryptionOperationDurationSeconds []]"
| "request_events uid (V2Encrypted r) =
     logged (Log InfoLevel ''v2 encryption request'' [FString ''request_id'' uid]) EncryptionErrorsTotal r
     @ [Observe EncryptionOperationDurationSeconds []]"
| "request_events uid (V2Decrypted r) =
     logged (Log InfoLevel ''v2 decryption request'' [FString ''request_id'' uid]) DecryptionErrorsTotal r
     @ [Observe DecryptionOperationDurationSeconds []]"
| "request_events uid _ = []"

subsection \<open>Service\<close>

context kms_service
begin

lemma ready_emit_if [simp]: "ready p (emit_if b ev w) \<longleftrightarrow> ready p w"
  by (simp add: emit_if_def ready_emit)

lemma stored_emit_if [simp]: "stored p ct x (emit_if b ev w) \<longleftrightarrow> stored p ct x w"
  by (simp add: emit_if_def stored_emit)

lemma ready_log_info [simp]: "ready p (log_info m fs w) \<longleftrightarrow> ready p w"
  by (simp add: log_info_def ready_emit)

lemma stored_log_info [simp]: "stored p ct x (log_info m fs w) \<longleftrightarrow> stored p ct x w"
  by (simp add: log_info_def stored_emit)

text \<open>Encryption through either wrapper.\<close>

lemma v1_encrypt_ready:
  assumes "ready p w"
  obtains ct w' where "v1_encrypt (NewPluginV1 (impl p)) ctx x rec w = (Ok \<lparr>v1_Cipher = ct\<rparr>, w')"
    "ready p w'" "stored p ct x w'" "\<And>ct' y. stored p ct' y w \<Longrightarrow> stored p ct' y w'"
proof -
  from encrypt_ready [OF assms] obtain ct kid w1
    where w1: "Encrypt (impl p) ctx x w = (Ok (ct, kid), w1)" "ready p w1" "stored p ct x w1"
    by blast
  obtain r w' where e: "v1_encrypt (NewPluginV1 (impl p)) ctx x rec w = (r, w')"
    by (cases "v1_encrypt (NewPluginV1 (impl p)) ctx x rec w")
  with w1 stored_encrypt [OF assms _ w1(1)] have "r = Ok \<lparr>v1_Cipher = ct\<rparr>" "ready p w'"
    "stored p ct x w'" "\<And>ct' y. stored p ct' y w \<Longrightarrow> stored p ct' y w'"
    by (auto simp: v1_encrypt_def NewPluginV1_def Let_def)
  with e show thesis using that by blast
qed

lemma v2_encrypt_ready:
  assumes "ready p w"
  obtains ct kid w'
  where "v2_encrypt (NewPluginV2 (impl p)) ctx x uid rec w
      = (Ok \<lparr>v2_Ciphertext = ct, v2_enc_KeyId = kid\<rparr>, w')"
    "ready p w'" "stored p ct x w'" "\<And>ct' y. stored p ct' y w \<Longrightarrow> stored p ct' y w'"
proof -
  from encrypt_ready [OF assms] obtain ct kid w1
    where w1: "Encrypt (impl p) ctx x w = (Ok (ct, kid), w1)" "ready p w1" "stored p ct x w1"
    by blast
  obtain r w' where e: "v2_encrypt (NewPluginV2 (impl p)) ctx x uid rec w = (r, w')"
    by (cases "v2_encrypt (NewPluginV2 (impl p)) ctx x uid rec w")
  with w1 stored_encrypt [OF assms _ w1(1)]
  have "r = Ok \<lparr>v2_Ciphertext = ct, v2_enc_KeyId = kid\<rparr>" "ready p w'"
    "stored p ct x w'" "\<And>ct' y. stored p ct' y w \<Longrightarrow> stored p ct' y w'"
    by (auto simp: v2_encrypt_def NewPluginV2_def Let_def)
  with e show thesis using that by blast
qed

text \<open>Decryption keeps the service; of a stored ciphertext it returns the plaintext.\<close>

lemma v1_decrypt_ready:
  assumes "ready p w" "v1_decrypt (NewPluginV1 (impl p)) ctx c rec w = (r, w')"
  shows "ready p w'" "stored p c x w \<Longrightarrow> r = Ok \<lparr>v1_Plain = x\<rparr>"
    "stored p ct y w \<Longrightarrow> stored p ct y w'"
proof -
  obtain d w1 where d: "Decrypt (impl p) ctx c w = (d, w1)"
    by (cases "Decrypt (impl p) ctx c w")
  note facts = decrypt_ready [OF assms(1) d] stored_decrypt [OF assms(1) _ d]
    decrypt_stored [OF assms(1), of c _ ctx]
  from facts assms(2) d show "ready p w'" "stored p ct y w \<Longrightarrow> stored p ct y w'"
    by (cases d; auto simp: v1_decrypt_def NewPluginV1_def Let_def)+
  assume "stored p c x w"
  with facts assms(2) d show "r = Ok \<lparr>v1_Plain = x\<rparr>"
    by (auto simp: v1_decrypt_def NewPluginV1_def Let_def)
qed

lemma v2_decrypt_ready:
  assumes "ready p w" "v2_decrypt (NewPluginV2 (impl p)) ctx c uid rec w = (r, w')"
  shows "ready p w'" "stored p c x w \<Longrightarrow> r = Ok \<lparr>v2_Plaintext = x\<rparr>"
    "stored p ct y w \<Longrightarrow> stored p ct y w'"
proof -
  obtain d w1 where d: "Decrypt (impl p) ctx c w = (d, w1)"
    by (cases "Decrypt (impl p) ctx c w")
  note facts = decrypt_ready [OF assms(1) d] stored_decrypt [OF assms(1) _ d]
    decrypt_stored [OF assms(1), of c _ ctx]
  from facts assms(2) d show "ready p w'" "stored p ct y w \<Longrightarrow> stored p ct y w'"
    by (cases d; auto simp: v2_decrypt_def NewPluginV2_def Let_def)+
  assume "stored p c x w"
  with facts assms(2) d show "r = Ok \<lparr>v2_Plaintext = x\<rparr>"
    by (auto simp: v2_decrypt_def NewPluginV2_def Let_def)
qed

text \<open>The health probes of a working service succeed.\<close>

lemma v1_Health_ready:
  assumes "ready p w"
  obtains w' where "v1_Health (NewPluginV1 (impl p)) ctx w = (Ok (), w')"
    "ready p w'" "\<And>ct y. stored p ct y w \<Longrightarrow> stored p ct y w'"
proof -
  from v1_encrypt_ready [OF assms] obtain ct w1
    where 1: "v1_encrypt (NewPluginV1 (impl p)) ctx ''health'' False w = (Ok \<lparr>v1_Cipher = ct\<rparr>, w1)"
      "ready p w1" "stored p ct ''health'' w1" "\<And>ct' y. stored p ct' y w \<Longrightarrow> stored p ct' y w1"
    by blast
  obtain r w2 where 2: "v1_decrypt (NewPluginV1 (impl p)) ctx ct False w1 = (r, w2)"
    by (cases "v1_decrypt (NewPluginV1 (impl p)) ctx ct False w1")
  from v1_decrypt_ready [OF 1(2) 2] 1 2 show thesis
    by (intro that [of w2]) (auto simp: v1_Health_def)
qed

lemma v2_Health_ready:
  assumes "ready p w"
  obtains w' where "v2_Health now (NewPluginV2 (impl p)) ctx w = (Ok (), w')"
    "ready p w'" "\<And>ct y. stored p ct y w \<Longrightarrow> stored p ct y w'"
proof -
  from v2_encrypt_ready [OF assms] obtain ct kid w1
    where 1: "v2_encrypt (NewPluginV2 (impl p)) ctx ''health'' (show_int now) False w
        = (Ok \<lparr>v2_Ciphertext = ct, v2_enc_KeyId = kid\<rparr>, w1)"
      "ready p w1" "stored p ct ''health'' w1" "\<And>ct' y. stored p ct' y w \<Longrightarrow> stored p ct' y w1"
    by blast
  obtain r w2 where 2: "v2_decrypt (NewPluginV2 (impl p)) ctx ct (show_int now) False w1 = (r, w2)"
    by (cases "v2_decrypt (NewPluginV2 (impl p)) ctx ct (show_int now) False w1")
  from v2_decrypt_ready [OF 1(2) 2] 1 2 show thesis
    by (intro that [of w2]) (auto simp: v2_Health_def)
qed

lemma v2_Status_ready:
  assumes "ready p w"
  obtains kid w'
  where "v2_Status now (NewPluginV2 (impl p)) ctx w
      = (Ok \<lparr>v2_Version = ''v2'', v2_Healthz = ''ok'', v2_KeyId = kid\<rparr>, w')"
    "ready p w'" "\<And>ct y. stored p ct y w \<Longrightarrow> stored p ct y w'"
proof -
  from version_ready [OF assms] obtain kid w1
    where 1: "GetKeyVersion (impl p) ctx w = (Ok kid, w1)" "ready p w1" by blast
  from v2_Health_ready [OF 1(2)] obtain w2
    where 2: "v2_Health now (NewPluginV2 (impl p)) ctx w1 = (Ok (), w2)"
      "ready p w2" "\<And>ct y. stored p ct y w1 \<Longrightarrow> stored p ct y w2"
    by blast
  let ?w' = "log_info ''health status'' [FString ''key_id'' kid, FString ''healthz'' ''ok'',
    FString ''version'' ''v2''] w2"
  show thesis
  proof (rule that)
    show "v2_Status now (NewPluginV2 (impl p)) ctx w
      = (Ok \<lparr>v2_Version = ''v2'', v2_Healthz = ''ok'', v2_KeyId = kid\<rparr>, ?w')"
      using 1 2 by (simp add: v2_Status_def NewPluginV2_def Let_def)
    show "ready p ?w'" "\<And>ct y. stored p ct y w \<Longrightarrow> stored p ct y ?w'"
      using 2 stored_version [OF assms _ 1(1)] by auto
  qed
qed

text \<open>What the reply to a request says when the service works; a decryption may still be refused.\<close>

fun good_reply :: "kms_reply \<Rightarrow> bool" where
  "good_reply (V1Encrypted r) = is_Ok r"
| "good_reply (V2Encrypted r) = is_Ok r"
| "good_reply (StatusReport r) = (case r of Ok s \<Rightarrow> v2_Version s = ''v2'' \<and> v2_Healthz s = ''ok'' | _ \<Rightarrow> False)"
| "good_reply (Probed r) = is_Ok r"
| "good_reply (V1Decrypted r) = True"
| "good_reply (V2Decrypted r) = True"

lemma kms_serve_ready:
  assumes "ready p w" "kms_serve (impl p) ctx q w = (a, w')"
  shows "ready p w' \<and> good_reply a \<and> (\<forall>ct y. stored p ct y w \<longrightarrow> stored p ct y w')"
proof (cases q)
  case (V1EncryptRequest x)
  show ?thesis
    by (rule v1_encrypt_ready [OF assms(1), of ctx x True])
      (use V1EncryptRequest assms(2) in \<open>auto simp: v1_Encrypt_def\<close>)
next
  case (V1DecryptRequest c)
  obtain r w1 where r: "v1_decrypt (NewPluginV1 (impl p)) ctx c True w = (r, w1)"
    by (cases "v1_decrypt (NewPluginV1 (impl p)) ctx c True w")
  with V1DecryptRequest v1_decrypt_ready [OF assms(1) r] show ?thesis
    using assms(2) by (auto simp: v1_Decrypt_def)
next
  case V1HealthProbe
  show ?thesis
    by (rule v1_Health_ready [OF assms(1), of ctx])
      (use V1HealthProbe assms(2) in \<open>auto\<close>)
next
  case (V2EncryptRequest x uid)
  show ?thesis
    by (rule v2_encrypt_ready [OF assms(1), of ctx x uid True])
      (use V2EncryptRequest assms(2) in \<open>auto simp: v2_Encrypt_def\<close>)
next
  case (V2DecryptRequest c uid)
  obtain r w1 where r: "v2_decrypt (NewPluginV2 (impl p)) ctx c uid True w = (r, w1)"
    by (cases "v2_decrypt (NewPluginV2 (impl p)) ctx c uid True w")
  with V2DecryptRequest v2_decrypt_ready [OF assms(1) r] show ?thesis
    using assms(2) by (auto simp: v2_Decrypt_def)
next
  case (V2HealthProbe now)
  show ?thesis
    by (rule v2_Health_ready [OF assms(1), of now ctx])
      (use V2HealthProbe assms(2) in \<open>auto\<close>)
next
  case (V2StatusRequest now)
  show ?thesis
    by (rule v2_Status_ready [OF assms(1), of now ctx])
      (use V2StatusRequest assms(2) in \<open>auto\<close>)
qed

text \<open>Nothing the service is asked to do makes it forget what it has encrypted.\<close>

lemma kms_run_ready:
  "ready p w \<Longrightarrow> kms_run (impl p) qs w = (as, w') \<Longrightarrow>
     ready p w' \<and> list_all good_reply as \<and> (\<forall>ct y. stored p ct y w \<longrightarrow> stored p ct y w')"
proof (induction qs arbitrary: w as)
  case (Cons q qs)
  obtain a w1 where 1: "kms_serve (impl p) (fst q) (snd q) w = (a, w1)"
    by (cases "kms_serve (impl p) (fst q) (snd q) w")
  obtain bs w2 where 2: "kms_run (impl p) qs w1 = (bs, w2)"
    by (cases "kms_run (impl p) qs w1")
  from Cons.prems(2) 1 2 have "as = a # bs" "w' = w2"
    by (cases q; auto)+
  with Cons.IH [of w1 bs] 2 kms_serve_ready [OF Cons.prems(1) 1] show ?case
    by auto
qed simp

lemma decrypt_after_run:
  assumes "ready p w" "stored p ct x w" "kms_run (impl p) qs w = (as, w')"
  shows "fst (v1_Decrypt (NewPluginV1 (impl p)) ctx ct w') = Ok \<lparr>v1_Plain = x\<rparr>"
    "fst (v2_Decrypt (NewPluginV2 (impl p)) ctx ct uid w') = Ok \<lparr>v2_Plaintext = x\<rparr>"
proof -
  have *: "ready p w'" "stored p ct x w'"
    using kms_run_ready [OF assms(1,3)] assms(2) by auto
  obtain r w1 where 1: "v1_decrypt (NewPluginV1 (impl p)) ctx ct True w' = (r, w1)"
    by (cases "v1_decrypt (NewPluginV1 (impl p)) ctx ct True w'")
  with v1_decrypt_ready(2) [OF *(1) 1 *(2)]
  show "fst (v1_Decrypt (NewPluginV1 (impl p)) ctx ct w') = Ok \<lparr>v1_Plain = x\<rparr>"
    by (simp add: v1_Decrypt_def)
  obtain r w2 where 2: "v2_decrypt (NewPluginV2 (impl p)) ctx ct uid True w' = (r, w2)"
    by (cases "v2_decrypt (NewPluginV2 (impl p)) ctx ct uid True w'")
  with v2_decrypt_ready(2) [OF *(1) 2 *(2)]
  show "fst (v2_Decrypt (NewPluginV2 (impl p)) ctx ct uid w') = Ok \<lparr>v2_Plaintext = x\<rparr>"
    by (simp add: v2_Decrypt_def)
qed

end

subsection \<open>The wrappers as probers\<close>

datatype kms_api = KMSv1_API | KMSv2_API int

fun kms_health :: "('p \<Rightarrow> ('h, 'v) plugin) \<Rightarrow> kms_api \<Rightarrow> 'p \<Rightarrow> ('h, 'v) prober" where
  "kms_health impl KMSv1_API p = v1_Health (NewPluginV1 (impl p))"
| "kms_health impl (KMSv2_API now) p = v2_Health now (NewPluginV2 (impl p))"

sublocale metered_kms < probing "kms_health impl" ready op_meter
proof
  fix p w k ctx
  assume "ready p w"
  then show "\<exists>w'. kms_health impl k p ctx w = (Ok (), w') \<and> ready p w'"
    by (cases k) (auto elim: v1_Health_ready v2_Health_ready)
next
  fix k p ctx w r w'
  assume "kms_health impl k p ctx w = (r, w')"
  then show "op_meter (events w') = op_meter (events w)"
    by (cases k) (auto dest: v1_Health_meter v2_Health_meter)
qed simp

end
