(* ===== verification/Go_Base64.thy ===== *)
theory Go_Base64
  imports KMS_Prelude
begin

text \<open>
  Go's \<open>encoding/base64\<close>, as \<open>pkg/vault/transit.go\<close> uses it (\<open>StdEncoding\<close>) and as the PEM
  reader does: the encoder, and the decoder with its skipped line ends, its padding rules and its
  refusal of trailing bytes. The decoder's error carries the offset of the bad byte in its text;
  here it is one error.
\<close>

record b64_encoding =
  b64_alphabet :: string
  b64_padding :: "char option"

definition StdEncoding :: b64_encoding where
  "StdEncoding = \<lparr>b64_alphabet =
      ''ABCDEFGHIJKLMNOPQRSTUVWXYZabcdefghijklmnopqrstuvwxyz0123456789+/'',
    b64_padding = Some (CHR ''='')\<rparr>"

definition b64_char :: "b64_encoding \<Rightarrow> nat \<Rightarrow> char" where
  "b64_char E n = b64_alphabet E ! n"

fun index_of :: "'a \<Rightarrow> 'a list \<Rightarrow> nat option" where
  "index_of x [] = None"
| "index_of x (y # ys) = (if x = y then Some 0 else map_option Suc (index_of x ys))"

definition b64_value :: "b64_encoding \<Rightarrow> char \<Rightarrow> nat option" where
  "b64_value E c = index_of c (b64_alphabet E)"

definition b64_pad :: "b64_encoding \<Rightarrow> nat \<Rightarrow> string" where
  "b64_pad E n = (case b64_padding E of None \<Rightarrow> [] | Some c \<Rightarrow> replicate n c)"

definition byte_of :: "nat \<Rightarrow> char" where
  "byte_of n = char_of n"

text \<open>The digits of a 24-bit group, most significant first.\<close>

definition sextet :: "nat \<Rightarrow> nat \<Rightarrow> nat" where
  "sextet i v = v div 64 ^ i mod 64"

fun b64_encode :: "b64_encoding \<Rightarrow> bytes \<Rightarrow> string" where
  "b64_encode E [] = []"
| "b64_encode E [a] =
     (let v = of_char a * 65536
      in [b64_char E (sextet 3 v), b64_char E (sextet 2 v)] @ b64_pad E 2)"
| "b64_encode E [a, b] =
     (let v = of_char a * 65536 + of_char b * 256
      in [b64_char E (sextet 3 v), b64_char E (sextet 2 v), b64_char E (sextet 1 v)] @ b64_pad E 1)"
| "b64_encode E (a # b # c # r) =
     (let v = of_char a * 65536 + of_char b * 256 + of_char c
      in b64_char E (sextet 3 v) # b64_char E (sextet 2 v) # b64_char E (sextet 1 v)
         # b64_char E (sextet 0 v) # b64_encode E r)"

definition b64_group :: "nat \<Rightarrow> nat \<Rightarrow> nat \<Rightarrow> nat \<Rightarrow> nat" where
  "b64_group x y z u = x * 262144 + y * 4096 + z * 64 + u"

definition b64_bytes :: "nat \<Rightarrow> bytes" where
  "b64_bytes v = [byte_of (v div 65536 mod 256), byte_of (v div 256 mod 256), byte_of (v mod 256)]"

text \<open>
  One quantum of four characters after another. A missing fourth or third character is accepted
  without padding only when the encoding has none; a padded group must be the last one.
\<close>

fun b64_quanta :: "b64_encoding \<Rightarrow> string \<Rightarrow> bytes option" where
  "b64_quanta E [] = Some []"
| "b64_quanta E [a] = None"
| "b64_quanta E [a, b] =
     (case (b64_value E a, b64_value E b) of
        (Some x, Some y) \<Rightarrow>
          if b64_padding E = None then Some (take 1 (b64_bytes (b64_group x y 0 0))) else None
      | _ \<Rightarrow> None)"
| "b64_quanta E [a, b, c] =
     (case (b64_value E a, b64_value E b, b64_value E c) of
        (Some x, Some y, Some z) \<Rightarrow>
          if b64_padding E = None then Some (take 2 (b64_bytes (b64_group x y z 0))) else None
      | _ \<Rightarrow> None)"
| "b64_quanta E (a # b # c # d # r) =
     (case (b64_value E a, b64_value E b) of
        (Some x, Some y) \<Rightarrow>
          (case b64_value E c of
             Some z \<Rightarrow>
               (case b64_value E d of
                  Some u \<Rightarrow> map_option ((@) (b64_bytes (b64_group x y z u))) (b64_quanta E r)
                | None \<Rightarrow>
                    if Some d = b64_padding E \<and> r = []
                    then Some (take 2 (b64_bytes (b64_group x y z 0))) else None)
           | None \<Rightarrow>
               if Some c = b64_padding E \<and> Some d = b64_padding E \<and> r = []
               then Some (take 1 (b64_bytes (b64_group x y 0 0))) else None)
      | _ \<Rightarrow> None)"

fun is_newline :: "char \<Rightarrow> bool" where
  "is_newline c = (c = CHR 0x0A \<or> c = CHR 0x0D)"

definition CorruptInputError :: go_error where
  "CorruptInputError = ErrNew ''illegal base64 data''"

definition b64_decode :: "b64_encoding \<Rightarrow> string \<Rightarrow> go_error + bytes" where
  "b64_decode E s =
     (case b64_quanta E (filter (\<lambda>c. \<not> is_newline c) s) of
        None \<Rightarrow> Inl CorruptInputError
      | Some b \<Rightarrow> Inr b)"

subsection \<open>The round trip\<close>

definition b64_wf :: "b64_encoding \<Rightarrow> bool" where
  "b64_wf E \<longleftrightarrow> length (b64_alphabet E) = 64 \<and> distinct (b64_alphabet E)
     \<and> list_all (\<lambda>c. \<not> is_newline c) (b64_alphabet E)
     \<and> (\<forall>p. b64_padding E = Some p \<longrightarrow> p \<notin> set (b64_alphabet E) \<and> \<not> is_newline p)"

lemma b64_wf_Std: "b64_wf StdEncoding"
  by (simp add: b64_wf_def StdEncoding_def)

lemma index_of_None: "index_of x ys = None \<longleftrightarrow> x \<notin> set ys"
  by (induction ys) auto

lemma index_of_nth: "distinct ys \<Longrightarrow> i < length ys \<Longrightarrow> index_of (ys ! i) ys = Some i"
proof (induction ys arbitrary: i)
  case (Cons y ys)
  then show ?case by (cases i) auto
qed simp

lemma sextet_less: "sextet i v < 64"
  by (simp add: sextet_def)

lemma b64_value_char: "b64_wf E \<Longrightarrow> b64_value E (b64_char E (sextet i v)) = Some (sextet i v)"
  by (simp add: b64_value_def b64_char_def b64_wf_def index_of_nth sextet_less)

lemma b64_value_pad: "b64_wf E \<Longrightarrow> b64_padding E = Some p \<Longrightarrow> b64_value E p = None"
  by (simp add: b64_value_def b64_wf_def index_of_None)

lemma b64_group_sextets:
  assumes "v < 16777216"
  shows "b64_group (sextet 3 v) (sextet 2 v) (sextet 1 v) (sextet 0 v) = v"
proof -
  define p q r where "p = v div 64" and "q = p div 64" and "r = q div 64"
  have "v = 64 * p + v mod 64" "p = 64 * q + p mod 64" "q = 64 * r + q mod 64"
    by (simp_all add: p_def q_def r_def)
  then have eq: "r * 262144 + (q mod 64) * 4096 + (p mod 64) * 64 + v mod 64 = v"
    by linarith
  have qr: "q = v div 4096" "r = v div 262144"
    by (simp_all add: p_def q_def r_def flip: div_mult2_eq)
  then have "r mod 64 = r"
    using assms by simp
  then have "sextet 3 v = r" "sextet 2 v = q mod 64" "sextet 1 v = p mod 64" "sextet 0 v = v mod 64"
    by (simp_all add: sextet_def p_def flip: qr)
  with eq show ?thesis
    by (simp add: b64_group_def)
qed

lemma byte_of_of_char [simp]: "byte_of (of_char c) = c"
  by (simp add: byte_of_def)

lemma b64_bytes_sum:
  assumes "a < 256" "b < 256" "c < 256"
  shows "b64_bytes (a * 65536 + b * 256 + c) = [byte_of a, byte_of b, byte_of c]"
proof -
  let ?v = "a * 65536 + b * 256 + c"
  have "?v div 65536 = a"
    using assms div_mult_self3 [of 65536 a "b * 256 + c"] by (simp add: ac_simps)
  moreover have "?v div 256 = (a * 256 + b) + c div 256"
    using div_mult_self3 [of 256 "a * 256 + b" c] by (simp add: algebra_simps)
  then have "?v div 256 = a * 256 + b"
    using assms by simp
  moreover have "?v mod 256 = (c + (a * 256 + b) * 256) mod 256"
    by (simp add: algebra_simps)
  then have "?v mod 256 = c"
    using assms mod_mult_self1 [of c "a * 256 + b" 256] by simp
  ultimately show ?thesis
    using assms by (simp add: b64_bytes_def)
qed

lemma b64_char_no_newline:
  assumes "b64_wf E"
  shows "\<not> is_newline (b64_char E (sextet i v))"
proof -
  have "b64_char E (sextet i v) \<in> set (b64_alphabet E)"
    using assms sextet_less [of i v] by (simp add: b64_char_def b64_wf_def)
  with assms show ?thesis
    by (auto simp: b64_wf_def list_all_iff)
qed

lemma b64_pad_no_newline: "b64_wf E \<Longrightarrow> list_all (\<lambda>c. \<not> is_newline c) (b64_pad E n)"
  by (auto simp: b64_pad_def b64_wf_def list_all_iff split: option.splits)

lemma b64_encode_no_newline:
  "b64_wf E \<Longrightarrow> list_all (\<lambda>c. \<not> is_newline c) (b64_encode E s)"
  by (induction E s rule: b64_encode.induct)
    (auto simp: Let_def b64_char_no_newline b64_pad_no_newline simp del: is_newline.simps)

lemma b64_char_in: "b64_wf E \<Longrightarrow> b64_char E (sextet i v) \<in> set (b64_alphabet E)"
  using sextet_less [of i v] by (simp add: b64_char_def b64_wf_def)

lemma b64_encode_set:
  "b64_wf E \<Longrightarrow> set (b64_encode E s) \<subseteq> set (b64_alphabet E) \<union> set_option (b64_padding E)"
  by (induction E s rule: b64_encode.induct)
    (auto simp: Let_def b64_char_in b64_pad_def split: option.splits)

lemma b64_encode_Nil [simp]: "b64_encode E s = [] \<longleftrightarrow> s = []"
  by (cases "(E, s)" rule: b64_encode.cases) (auto simp: Let_def)

lemma filter_all: "list_all P xs \<Longrightarrow> filter P xs = xs"
  by (induction xs) auto

lemma b64_quanta_encode: "b64_wf E \<Longrightarrow> b64_quanta E (b64_encode E s) = Some s"
proof (induction E s rule: b64_encode.induct)
  case (1 E)
  show ?case by simp
next
  case (2 E a)
  define v where "v = of_char a * (65536::nat)"
  have v: "b64_group (sextet 3 v) (sextet 2 v) 0 0 = v" "b64_bytes v = [a, byte_of 0, byte_of 0]"
    using b64_group_sextets [of v] b64_bytes_sum [of "of_char a" 0 0]
    by (simp_all add: v_def sextet_def)
  with 2 show ?case
    by (cases "b64_padding E")
      (simp_all add: Let_def b64_value_char b64_value_pad b64_pad_def numeral_2_eq_2 flip: v_def)
next
  case (3 E a b)
  define v where "v = of_char a * 65536 + of_char b * (256::nat)"
  have "v < 16777216"
    using of_char_less [of a] of_char_less [of b] unfolding v_def by linarith
  moreover have "sextet 0 v = 0"
    by (simp add: v_def sextet_def)
  ultimately have v: "b64_group (sextet 3 v) (sextet 2 v) (sextet 1 v) 0 = v"
    using b64_group_sextets [of v] by simp
  have "b64_bytes v = [a, b, byte_of 0]"
    using b64_bytes_sum [of "of_char a" "of_char b" 0] by (simp add: v_def)
  note v = v this
  with 3 show ?case
    by (cases "b64_padding E")
      (simp_all add: Let_def b64_value_char b64_value_pad b64_pad_def numeral_2_eq_2 flip: v_def)
next
  case (4 E a b c r)
  define v where "v = of_char a * 65536 + of_char b * 256 + (of_char c :: nat)"
  have "v < 16777216"
    using of_char_less [of a] of_char_less [of b] of_char_less [of c] unfolding v_def by linarith
  then have "b64_group (sextet 3 v) (sextet 2 v) (sextet 1 v) (sextet 0 v) = v"
    by (rule b64_group_sextets)
  moreover have "b64_bytes v = [a, b, c]"
    using b64_bytes_sum [of "of_char a" "of_char b" "of_char c"] by (simp add: v_def)
  ultimately show ?case
    using 4 by (simp add: Let_def b64_value_char flip: v_def)
qed

theorem b64_decode_encode: "b64_wf E \<Longrightarrow> b64_decode E (b64_encode E s) = Inr s"
  by (simp add: b64_decode_def filter_all b64_encode_no_newline b64_quanta_encode
      del: is_newline.simps)

end
