(* ===== verification/Vault_Transit.thy ===== *)
theory Vault_Transit
  imports Vault_Client Plugin_Service Go_Base64
begin

text \<open>
  \<open>pkg/vault/transit.go\<close>: the client's side of Vault's transit engine, and the client as a
  provider of the \<open>Plugin\<close> interface. A nil answer without an error (\<open>Inr None\<close>) is followed
  by \<open>Encrypt\<close> and \<open>Decrypt\<close> and not by \<open>GetKeyVersion\<close>.
\<close>

definition client_GetKeyVersion :: "('c, 't, 'v) deps \<Rightarrow> 'c client \<Rightarrow> go_context \<Rightarrow> ('h, 'v) world \<Rightarrow>
    string outcome \<times> ('h, 'v) world" where
  "client_GetKeyVersion D c ctx w =
     (case on_svc (Read D (api c) ctx (transitKeyPath (TransitEngine c) (TransitKey c))) w of
        (Inl e, w1) \<Rightarrow> (Err e, w1)
      | (Inr None, w1) \<Rightarrow>
          (Err (ErrNew (''could not read transit key: '' @ TransitEngine c @ ''/'' @ TransitKey c
             @ ''. Check transit engine and key and permissions'')), w1)
      | (Inr (Some resp), w1) \<Rightarrow>
          (case assert_number (Data resp ''latest_version'') of
             None \<Rightarrow> (Err (ErrNew (''could not get latest_version of transit key: ''
                       @ TransitEngine c @ ''/'' @ TransitKey c)), w1)
           | Some kv \<Rightarrow> (Ok kv, w1)))"

definition client_Encrypt :: "('c, 't, 'v) deps \<Rightarrow> 'c client \<Rightarrow> go_context \<Rightarrow> bytes \<Rightarrow> ('h, 'v) world \<Rightarrow>
    (bytes \<times> string) outcome \<times> ('h, 'v) world" where
  "client_Encrypt D c ctx d w =
     (let p = encryptDataPath (TransitEngine c) (TransitKey c);
          opts = [(''plaintext'', JString (b64_encode StdEncoding d))]
      in case on_svc (Write D (api c) ctx p opts) w of
           (Inl e, w1) \<Rightarrow> (Err e, w1)
         | (Inr None, w1) \<Rightarrow> (Panic NilDereference, w1)
         | (Inr (Some resp), w1) \<Rightarrow>
             (case assert_string (Data resp ''ciphertext'') of
                None \<Rightarrow> (Err (ErrNew ''invalid response''), w1)
              | Some res \<Rightarrow>
                  (case client_GetKeyVersion D c ctx w1 of
                     (Ok kv, w2) \<Rightarrow> (Ok (res, kv), w2)
                   | (Err e, w2) \<Rightarrow> (Err e, w2)
                   | (Panic k, w2) \<Rightarrow> (Panic k, w2))))"

definition client_Decrypt :: "('c, 't, 'v) deps \<Rightarrow> 'c client \<Rightarrow> go_context \<Rightarrow> bytes \<Rightarrow> ('h, 'v) world \<Rightarrow>
    bytes outcome \<times> ('h, 'v) world" where
  "client_Decrypt D c ctx d w =
     (let p = decryptDataPath (TransitEngine c) (TransitKey c);
          opts = [(''ciphertext'', JString d)]
      in case on_svc (Write D (api c) ctx p opts) w of
           (Inl e, w1) \<Rightarrow> (Err e, w1)
         | (Inr None, w1) \<Rightarrow> (Panic NilDereference, w1)
         | (Inr (Some resp), w1) \<Rightarrow>
             (case assert_string (Data resp ''plaintext'') of
                None \<Rightarrow> (Err (ErrNew ''invalid response''), w1)
              | Some res \<Rightarrow>
                  (case b64_decode StdEncoding res of
                     Inl e \<Rightarrow> (Err e, w1)
                   | Inr decoded \<Rightarrow> (Ok decoded, w1))))"

text \<open>
  The client as the wrappers get it: a pointer to the shared client, so every call reads the client
  that is in the heap then.
\<close>

definition vault_plugin :: "('c, 't, 'v) deps \<Rightarrow> ('c client, 'v) plugin" where
  "vault_plugin D = \<lparr>
     Encrypt = (\<lambda>ctx d w. client_Encrypt D (heap w) ctx d w),
     Decrypt = (\<lambda>ctx d w. client_Decrypt D (heap w) ctx d w),
     GetKeyVersion = (\<lambda>ctx w. client_GetKeyVersion D (heap w) ctx w)\<rparr>"

lemma vault_plugin_simps [simp]:
  "Encrypt (vault_plugin D) ctx d w = client_Encrypt D (heap w) ctx d w"
  "Decrypt (vault_plugin D) ctx d w = client_Decrypt D (heap w) ctx d w"
  "GetKeyVersion (vault_plugin D) ctx w = client_GetKeyVersion D (heap w) ctx w"
  by (simp_all add: vault_plugin_def)

subsection \<open>What the operations leave alone\<close>

text \<open>Only the state of the service changes.\<close>

definition svc_only :: "('h, 'v) world \<Rightarrow> ('h, 'v) world \<Rightarrow> bool" where
  "svc_only w w' \<longleftrightarrow> w' = w\<lparr>svc := svc w'\<rparr>"

lemma svc_only_refl [simp]: "svc_only w w"
  by (simp add: svc_only_def)

lemma svc_only_trans: "svc_only u v \<Longrightarrow> svc_only v w \<Longrightarrow> svc_only u w"
  by (metis (no_types) svc_only_def world.surjective world.update_convs(2))

lemma svc_only_on_svc: "on_svc f w = (r, w') \<Longrightarrow> svc_only w w'"
  by (auto simp: on_svc_def svc_only_def split: prod.splits)

lemma svc_only_fields:
  "svc_only w w' \<Longrightarrow> heap w' = heap w \<and> os w' = os w \<and> env_vars w' = env_vars w \<and> events w' = events w"
  by (metis svc_only_def world.select_convs(1,3,4,5) world.surjective world.update_convs(2))

lemma GetKeyVersion_svc_only: "client_GetKeyVersion D c ctx w = (r, w') \<Longrightarrow> svc_only w w'"
  by (auto simp: client_GetKeyVersion_def dest: svc_only_on_svc split: prod.splits sum.splits option.splits)

lemma Decrypt_svc_only: "client_Decrypt D c ctx d w = (r, w') \<Longrightarrow> svc_only w w'"
  by (auto simp: client_Decrypt_def Let_def dest: svc_only_on_svc
      split: prod.splits sum.splits option.splits)

lemma Encrypt_svc_only: "client_Encrypt D c ctx d w = (r, w') \<Longrightarrow> svc_only w w'"
  by (auto simp: client_Encrypt_def Let_def
      dest!: svc_only_on_svc GetKeyVersion_svc_only intro: svc_only_trans
      split: prod.splits sum.splits option.splits outcome.splits)

interpretation vault_quiet: quiet_plugin vault_plugin
  by unfold_locales
    (auto dest!: Encrypt_svc_only Decrypt_svc_only GetKeyVersion_svc_only svc_only_fields)

subsection \<open>The client over a working transit engine\<close>

text \<open>
  What Vault's documentation says of a transit engine \<open>mount\<close> with the key \<open>key\<close>, for an API client
  \<open>a\<close> that may use it. \<open>up\<close> are the states of Vault in which the key is usable, and \<open>known ct pt\<close>
  says that Vault decrypts \<open>ct\<close> to \<open>pt\<close>: \<open>encrypt\<close> answers with a ciphertext that is known from
  then on, \<open>decrypt\<close> of a known ciphertext answers with its plaintext, reading the key reports the
  number of its latest version, and no request makes Vault forget a ciphertext.
\<close>

definition keeps :: "('v \<Rightarrow> bool) \<Rightarrow> (string \<Rightarrow> string \<Rightarrow> 'v \<Rightarrow> bool) \<Rightarrow> 'v \<Rightarrow> 'v \<Rightarrow> bool" where
  "keeps up known v v' \<longleftrightarrow> up v' \<and> (\<forall>ct pt. known ct pt v \<longrightarrow> known ct pt v')"

definition transit_encrypts :: "('c, 't, 'v) deps \<Rightarrow> 'c \<Rightarrow> string \<Rightarrow> string \<Rightarrow> ('v \<Rightarrow> bool) \<Rightarrow>
    (string \<Rightarrow> string \<Rightarrow> 'v \<Rightarrow> bool) \<Rightarrow> bool" where
  "transit_encrypts D a mount key up known \<longleftrightarrow>
     (\<forall>v ctx pt. up v \<longrightarrow> (\<exists>s ct v'.
        Write D a ctx (encryptDataPath mount key) [(''plaintext'', JString pt)] v = (Inr (Some s), v')
        \<and> Data s ''ciphertext'' = Some (JString ct) \<and> known ct pt v' \<and> keeps up known v v'))"

definition transit_decrypts :: "('c, 't, 'v) deps \<Rightarrow> 'c \<Rightarrow> string \<Rightarrow> string \<Rightarrow> ('v \<Rightarrow> bool) \<Rightarrow>
    (string \<Rightarrow> string \<Rightarrow> 'v \<Rightarrow> bool) \<Rightarrow> bool" where
  "transit_decrypts D a mount key up known \<longleftrightarrow>
     (\<forall>v ctx ct. up v \<longrightarrow>
        keeps up known v
          (snd (Write D a ctx (decryptDataPath mount key) [(''ciphertext'', JString ct)] v))
        \<and> (\<forall>pt. known ct pt v \<longrightarrow> (\<exists>s.
             fst (Write D a ctx (decryptDataPath mount key) [(''ciphertext'', JString ct)] v) = Inr (Some s)
             \<and> Data s ''plaintext'' = Some (JString pt))))"

definition transit_reports :: "('c, 't, 'v) deps \<Rightarrow> 'c \<Rightarrow> string \<Rightarrow> string \<Rightarrow> ('v \<Rightarrow> bool) \<Rightarrow>
    (string \<Rightarrow> string \<Rightarrow> 'v \<Rightarrow> bool) \<Rightarrow> bool" where
  "transit_reports D a mount key up known \<longleftrightarrow>
     (\<forall>v ctx. up v \<longrightarrow> (\<exists>s n v'.
        Read D a ctx (transitKeyPath mount key) v = (Inr (Some s), v')
        \<and> Data s ''latest_version'' = Some (JNumber n) \<and> keeps up known v v'))"

definition transit_service :: "('c, 't, 'v) deps \<Rightarrow> 'c \<Rightarrow> string \<Rightarrow> string \<Rightarrow> ('v \<Rightarrow> bool) \<Rightarrow>
    (string \<Rightarrow> string \<Rightarrow> 'v \<Rightarrow> bool) \<Rightarrow> bool" where
  "transit_service D a mount key up known \<longleftrightarrow>
     transit_encrypts D a mount key up known \<and> transit_decrypts D a mount key up known
     \<and> transit_reports D a mount key up known"

text \<open>
  The Vault client as a KMS service: the libraries together with the two predicates of the
  hypothesis.
\<close>

type_synonym ('c, 't, 'v) vault_kms =
  "('c, 't, 'v) deps \<times> ('v \<Rightarrow> bool) \<times> (string \<Rightarrow> string \<Rightarrow> 'v \<Rightarrow> bool)"

definition vk_impl :: "('c, 't, 'v) vault_kms \<Rightarrow> ('c client, 'v) plugin" where
  "vk_impl p = vault_plugin (fst p)"

fun vk_ready :: "('c, 't, 'v) vault_kms \<Rightarrow> ('c client, 'v) world \<Rightarrow> bool" where
  "vk_ready (D, up, known) w \<longleftrightarrow>
     transit_service D (api (heap w)) (TransitEngine (heap w)) (TransitKey (heap w)) up known
     \<and> up (svc w)"

fun vk_stored :: "('c, 't, 'v) vault_kms \<Rightarrow> bytes \<Rightarrow> bytes \<Rightarrow> ('c client, 'v) world \<Rightarrow> bool" where
  "vk_stored (D, up, known) ct x w \<longleftrightarrow> known ct (b64_encode StdEncoding x) (svc w)"

lemma GetKeyVersion_service:
  assumes "transit_service D (api c) (TransitEngine c) (TransitKey c) up known" "up (svc w)"
  obtains n w' where "client_GetKeyVersion D c ctx w = (Ok n, w')" "keeps up known (svc w) (svc w')"
    "heap w' = heap w"
proof -
  from assms obtain s n v'
    where "Read D (api c) ctx (transitKeyPath (TransitEngine c) (TransitKey c)) (svc w) = (Inr (Some s), v')"
      "Data s ''latest_version'' = Some (JNumber n)" "keeps up known (svc w) v'"
    unfolding transit_service_def transit_reports_def by blast
  then show thesis
    by (intro that [of n "w\<lparr>svc := v'\<rparr>"]) (simp_all add: client_GetKeyVersion_def on_svc_def)
qed

lemma Encrypt_service:
  assumes "transit_service D (api c) (TransitEngine c) (TransitKey c) up known" "up (svc w)"
  obtains ct n w' where "client_Encrypt D c ctx x w = (Ok (ct, n), w')"
    "keeps up known (svc w) (svc w')" "known ct (b64_encode StdEncoding x) (svc w')" "heap w' = heap w"
proof -
  from assms obtain s ct v1
    where 1: "Write D (api c) ctx (encryptDataPath (TransitEngine c) (TransitKey c))
        [(''plaintext'', JString (b64_encode StdEncoding x))] (svc w) = (Inr (Some s), v1)"
      "Data s ''ciphertext'' = Some (JString ct)" "known ct (b64_encode StdEncoding x) v1"
      "keeps up known (svc w) v1"
    unfolding transit_service_def transit_encrypts_def by blast
  let ?w1 = "w\<lparr>svc := v1\<rparr>"
  have "up (svc ?w1)"
    using 1(4) by (simp add: keeps_def)
  from GetKeyVersion_service [OF assms(1) this, of ctx] obtain n w2
    where 2: "client_GetKeyVersion D c ctx ?w1 = (Ok n, w2)" "keeps up known v1 (svc w2)" "heap w2 = heap w"
    by auto
  show thesis
  proof (rule that [of ct n w2])
    show "client_Encrypt D c ctx x w = (Ok (ct, n), w2)"
      using 1(1,2) 2(1) by (simp add: client_Encrypt_def on_svc_def)
    show "keeps up known (svc w) (svc w2)" "known ct (b64_encode StdEncoding x) (svc w2)"
      using 1(3,4) 2(2) by (simp_all add: keeps_def)
  qed (rule 2(3))
qed

lemma Decrypt_service:
  assumes "transit_service D (api c) (TransitEngine c) (TransitKey c) up known" "up (svc w)"
    and "client_Decrypt D c ctx ct w = (r, w')"
  shows "keeps up known (svc w) (svc w')"
    and "known ct (b64_encode StdEncoding x) (svc w) \<Longrightarrow> r = Ok x"
proof -
  let ?f = "Write D (api c) ctx (decryptDataPath (TransitEngine c) (TransitKey c))
    [(''ciphertext'', JString ct)]"
  have "svc w' = snd (?f (svc w))"
    using assms(3) by (auto simp: client_Decrypt_def on_svc_def Let_def
        split: prod.splits sum.splits option.splits)
  with assms(1,2) show "keeps up known (svc w) (svc w')"
    by (simp add: transit_service_def transit_decrypts_def)
  assume "known ct (b64_encode StdEncoding x) (svc w)"
  with assms(1,2) obtain s where "fst (?f (svc w)) = Inr (Some s)"
    "Data s ''plaintext'' = Some (JString (b64_encode StdEncoding x))"
    unfolding transit_service_def transit_decrypts_def by blast
  with assms(3) show "r = Ok x"
    by (auto simp: client_Decrypt_def on_svc_def b64_decode_encode [OF b64_wf_Std] split: prod.splits)
qed

lemma vk_frame:
  assumes "vk_ready p w" "svc_only w w'" "keeps (fst (snd p)) (snd (snd p)) (svc w) (svc w')"
  shows "vk_ready p w'" "vk_stored p ct x w \<Longrightarrow> vk_stored p ct x w'"
  using assms svc_only_fields [OF assms(2)] by (cases p; auto simp: keeps_def)+

lemma vk_encrypt:
  assumes "vk_ready p w" "Encrypt (vk_impl p) ctx x w = (r, w')"
  shows "\<exists>ct kid. r = Ok (ct, kid) \<and> vk_stored p ct x w'"
    and "keeps (fst (snd p)) (snd (snd p)) (svc w) (svc w')" "svc_only w w'"
proof -
  obtain D up known where p: "p = (D, up, known)" by (cases p)
  have *: "transit_service D (api (heap w)) (TransitEngine (heap w)) (TransitKey (heap w)) up known"
    "up (svc w)"
    using assms(1) by (simp_all add: p)
  have **: "client_Encrypt D (heap w) ctx x w = (r, w')"
    using assms(2) by (simp add: p vk_impl_def)
  show "\<exists>ct kid. r = Ok (ct, kid) \<and> vk_stored p ct x w'"
    by (rule Encrypt_service [OF *, of ctx x]) (use ** in \<open>simp add: p\<close>)
  show "keeps (fst (snd p)) (snd (snd p)) (svc w) (svc w')"
    by (rule Encrypt_service [OF *, of ctx x]) (use ** in \<open>simp add: p\<close>)
  show "svc_only w w'"
    by (rule Encrypt_svc_only [OF **])
qed

lemma vk_version:
  assumes "vk_ready p w" "GetKeyVersion (vk_impl p) ctx w = (r, w')"
  shows "is_Ok r" "keeps (fst (snd p)) (snd (snd p)) (svc w) (svc w')" "svc_only w w'"
proof -
  obtain D up known where p: "p = (D, up, known)" by (cases p)
  have *: "transit_service D (api (heap w)) (TransitEngine (heap w)) (TransitKey (heap w)) up known"
    "up (svc w)"
    using assms(1) by (simp_all add: p)
  have **: "client_GetKeyVersion D (heap w) ctx w = (r, w')"
    using assms(2) by (simp add: p vk_impl_def)
  show "is_Ok r"
    by (rule GetKeyVersion_service [OF *, of ctx]) (use ** in simp)
  show "keeps (fst (snd p)) (snd (snd p)) (svc w) (svc w')"
    by (rule GetKeyVersion_service [OF *, of ctx]) (use ** in \<open>simp add: p\<close>)
  show "svc_only w w'"
    by (rule GetKeyVersion_svc_only [OF **])
qed

lemma vk_decrypt:
  assumes "vk_ready p w" "Decrypt (vk_impl p) ctx ct w = (r, w')"
  shows "vk_stored p ct x w \<Longrightarrow> r = Ok x"
    and "keeps (fst (snd p)) (snd (snd p)) (svc w) (svc w')" "svc_only w w'"
proof -
  obtain D up known where p: "p = (D, up, known)" by (cases p)
  have *: "transit_service D (api (heap w)) (TransitEngine (heap w)) (TransitKey (heap w)) up known"
    "up (svc w)"
    using assms(1) by (simp_all add: p)
  have **: "client_Decrypt D (heap w) ctx ct w = (r, w')"
    using assms(2) by (simp add: p vk_impl_def)
  show "vk_stored p ct x w \<Longrightarrow> r = Ok x"
    using Decrypt_service(2) [OF * **] by (simp add: p)
  show "keeps (fst (snd p)) (snd (snd p)) (svc w) (svc w')"
    using Decrypt_service(1) [OF * **] by (simp add: p)
  show "svc_only w w'"
    by (rule Decrypt_svc_only [OF **])
qed

lemma vk_emit: "vk_ready p (emit ev w) \<longleftrightarrow> vk_ready p w" "vk_stored p ct x (emit ev w) \<longleftrightarrow> vk_stored p ct x w"
  by (cases p; simp)+

interpretation vault_kms: metered_kms vk_impl vk_ready vk_stored
proof
  fix p :: "('a, 'b, 'c) vault_kms" and w :: "('a client, 'c) world" and ctx x
  assume r: "vk_ready p w"
  obtain e w1 where e: "Encrypt (vk_impl p) ctx x w = (e, w1)" by fastforce
  with vk_encrypt [OF r e] vk_frame [OF r]
  show "\<exists>ct kid w'. Encrypt (vk_impl p) ctx x w = (Ok (ct, kid), w') \<and> vk_ready p w' \<and> vk_stored p ct x w'"
    by blast
  obtain v w2 where v: "GetKeyVersion (vk_impl p) ctx w = (v, w2)" by fastforce
  with vk_version [OF r v] vk_frame [OF r]
  show "\<exists>kid w'. GetKeyVersion (vk_impl p) ctx w = (Ok kid, w') \<and> vk_ready p w'"
    unfolding is_Ok_iff by blast
next
  fix p :: "('a, 'b, 'c) vault_kms" and w w' :: "('a client, 'c) world" and ctx ct x y d e v
  assume r: "vk_ready p w"
  show "Decrypt (vk_impl p) ctx ct w = (d, w') \<Longrightarrow> vk_ready p w'"
    using vk_decrypt [OF r] vk_frame [OF r] by blast
  assume s: "vk_stored p ct x w"
  show "fst (Decrypt (vk_impl p) ctx ct w) = Ok x"
    using vk_decrypt(1) [OF r _ s] by (metis prod.collapse)
  show "Encrypt (vk_impl p) ctx y w = (e, w') \<Longrightarrow> vk_stored p ct x w'"
    using vk_encrypt [OF r] vk_frame [OF r] s by blast
  show "Decrypt (vk_impl p) ctx y w = (d, w') \<Longrightarrow> vk_stored p ct x w'"
    using vk_decrypt [OF r] vk_frame [OF r] s by blast
  show "GetKeyVersion (vk_impl p) ctx w = (v, w') \<Longrightarrow> vk_stored p ct x w'"
    using vk_version [OF r] vk_frame [OF r] s by blast
qed (auto simp: vk_impl_def vk_emit dest!: Encrypt_svc_only Decrypt_svc_only GetKeyVersion_svc_only svc_only_fields)

end
