(* ===== verification/KMS_Store.thy ===== *)
theory KMS_Store
  imports Vault_Transit
begin

text \<open>
  The abstract specification of the KMS service and the refinement. Its state is the set of the
  pairs (ciphertext, plaintext) it has answered with; the two APIs, the probes and the metrics are
  not part of it. Every run of the wrappers over a working Vault is a run of this store.
\<close>

subsection \<open>Requests and answers\<close>

text \<open>The ciphertext an encryption answered with, and the plaintext a decryption answered with.\<close>

fun ciphertext_of :: "kms_reply \<Rightarrow> bytes option" where
  "ciphertext_of (V1Encrypted (Ok r)) = Some (v1_Cipher r)"
| "ciphertext_of (V2Encrypted (Ok r)) = Some (v2_Ciphertext r)"
| "ciphertext_of _ = None"

fun plaintext_of :: "kms_reply \<Rightarrow> bytes option" where
  "plaintext_of (V1Decrypted (Ok r)) = Some (v1_Plain r)"
| "plaintext_of (V2Decrypted (Ok r)) = Some (v2_Plaintext r)"
| "plaintext_of _ = None"

fun encrypts :: "bytes \<Rightarrow> kms_request \<Rightarrow> bool" where
  "encrypts x (V1EncryptRequest y) \<longleftrightarrow> y = x"
| "encrypts x (V2EncryptRequest y uid) \<longleftrightarrow> y = x"
| "encrypts x _ \<longleftrightarrow> False"

fun decrypts :: "bytes \<Rightarrow> kms_request \<Rightarrow> bool" where
  "decrypts c (V1DecryptRequest d) \<longleftrightarrow> d = c"
| "decrypts c (V2DecryptRequest d uid) \<longleftrightarrow> d = c"
| "decrypts c _ \<longleftrightarrow> False"

fun healthy :: "kms_request \<Rightarrow> kms_reply \<Rightarrow> bool" where
  "healthy V1HealthProbe (Probed r) \<longleftrightarrow> r = Ok ()"
| "healthy (V2HealthProbe now) (Probed r) \<longleftrightarrow> r = Ok ()"
| "healthy (V2StatusRequest now) (StatusReport r) \<longleftrightarrow>
     (\<exists>kv. r = Ok \<lparr>v2_Version = ''v2'', v2_Healthz = ''ok'', v2_KeyId = kv\<rparr>)"
| "healthy q a \<longleftrightarrow> False"

subsection \<open>The store\<close>

text \<open>
  An encryption always succeeds and its pair joins the store; a ciphertext of the store is decrypted
  to its plaintext; about any other ciphertext nothing is promised; the health is always good.
\<close>

inductive store_step :: "(bytes \<times> bytes) set \<Rightarrow> kms_request \<Rightarrow> kms_reply \<Rightarrow> (bytes \<times> bytes) set \<Rightarrow> bool" where
  store_encrypt: "encrypts x q \<Longrightarrow> ciphertext_of a = Some ct \<Longrightarrow> store_step S q a (insert (ct, x) S)"
| store_decrypt: "decrypts ct q \<Longrightarrow> (ct, x) \<in> S \<Longrightarrow> plaintext_of a = Some x \<Longrightarrow> store_step S q a S"
| store_unknown: "decrypts ct q \<Longrightarrow> ct \<notin> fst ` S \<Longrightarrow> store_step S q a S"
| store_health: "healthy q a \<Longrightarrow> store_step S q a S"

inductive_cases store_stepE: "store_step S q a S'"

fun store_run :: "(bytes \<times> bytes) set \<Rightarrow> (go_context \<times> kms_request) list \<Rightarrow> kms_reply list \<Rightarrow>
    (bytes \<times> bytes) set \<Rightarrow> bool" where
  "store_run S [] [] S' \<longleftrightarrow> S' = S"
| "store_run S ((ctx, q) # qs) (a # as) S' \<longleftrightarrow> (\<exists>S1. store_step S q a S1 \<and> store_run S1 qs as S')"
| "store_run S qs as S' \<longleftrightarrow> False"

subsection \<open>The simulation\<close>

context kms_service
begin

text \<open>The relation: the service works and holds every pair of the store.\<close>

definition holds :: "'p \<Rightarrow> (bytes \<times> bytes) set \<Rightarrow> ('h, 'v) world \<Rightarrow> bool" where
  "holds p S w \<longleftrightarrow> ready p w \<and> (\<forall>(ct, x) \<in> S. stored p ct x w)"

lemma holds_mono:
  "holds p S w \<Longrightarrow> ready p w' \<Longrightarrow> (\<And>ct y. stored p ct y w \<Longrightarrow> stored p ct y w') \<Longrightarrow> holds p S w'"
  by (auto simp: holds_def)

lemma serve_encrypts:
  assumes "ready p w" "kms_serve (impl p) ctx q w = (a, w')" "encrypts x q"
  shows "\<exists>ct. ciphertext_of a = Some ct \<and> stored p ct x w'"
proof (cases q)
  case (V1EncryptRequest y)
  show ?thesis
    by (rule v1_encrypt_ready [OF assms(1), of ctx x True])
      (use V1EncryptRequest assms in \<open>auto simp: v1_Encrypt_def\<close>)
next
  case (V2EncryptRequest y uid)
  show ?thesis
    by (rule v2_encrypt_ready [OF assms(1), of ctx x uid True])
      (use V2EncryptRequest assms in \<open>auto simp: v2_Encrypt_def\<close>)
qed (use assms(3) in auto)

lemma serve_decrypts:
  assumes "ready p w" "kms_serve (impl p) ctx q w = (a, w')" "decrypts ct q" "stored p ct x w"
  shows "plaintext_of a = Some x"
  using assms(2,3) decrypt_after_run [OF assms(1,4), of "[]" "[]" w ctx]
  by (cases q) (auto simp: prod_eq_iff)

lemma serve_healthy:
  assumes "ready p w" "kms_serve (impl p) ctx q w = (a, w')" "\<nexists>x. encrypts x q" "\<nexists>ct. decrypts ct q"
  shows "healthy q a"
proof (cases q)
  case V1HealthProbe
  show ?thesis
    by (rule v1_Health_ready [OF assms(1), of ctx]) (use V1HealthProbe assms in auto)
next
  case (V2HealthProbe now)
  show ?thesis
    by (rule v2_Health_ready [OF assms(1), of now ctx]) (use V2HealthProbe assms in auto)
next
  case (V2StatusRequest now)
  show ?thesis
    by (rule v2_Status_ready [OF assms(1), of now ctx]) (use V2StatusRequest assms in auto)
qed (use assms(3,4) in auto)

text \<open>One request is one step of the store.\<close>

lemma serve_refines:
  assumes "holds p S w" "kms_serve (impl p) ctx q w = (a, w')"
  shows "\<exists>S'. store_step S q a S' \<and> holds p S' w'"
proof -
  have r: "ready p w" and s: "\<And>ct x. (ct, x) \<in> S \<Longrightarrow> stored p ct x w"
    using assms(1) by (auto simp: holds_def)
  have k: "ready p w'" "\<And>ct y. stored p ct y w \<Longrightarrow> stored p ct y w'"
    using kms_serve_ready [OF r assms(2)] by auto
  note h = holds_mono [OF assms(1) k]
  consider (enc) x where "encrypts x q" | (dec) ct where "decrypts ct q"
    | (other) "\<nexists>x. encrypts x q" "\<nexists>ct. decrypts ct q" by blast
  then show ?thesis
  proof cases
    case enc
    then obtain ct where "ciphertext_of a = Some ct" "stored p ct x w'"
      using serve_encrypts [OF r assms(2)] by blast
    then show ?thesis
      using store_encrypt [OF enc] h by (intro exI [of _ "insert (ct, x) S"]) (auto simp: holds_def)
  next
    case dec
    show ?thesis
    proof (cases "ct \<in> fst ` S")
      case True
      then obtain x where "(ct, x) \<in> S" by force
      with serve_decrypts [OF r assms(2) dec s] store_decrypt [OF dec] h show ?thesis by blast
    qed (use store_unknown [OF dec] h in blast)
  next
    case other
    then show ?thesis using store_health serve_healthy [OF r assms(2)] h by blast
  qed
qed

lemma run_refines:
  "holds p S w \<Longrightarrow> \<exists>S'. store_run S qs (fst (kms_run (impl p) qs w)) S' \<and> holds p S' (snd (kms_run (impl p) qs w))"
proof (induction qs arbitrary: S w)
  case (Cons cq qs)
  obtain ctx q where cq: "cq = (ctx, q)" by fastforce
  obtain a w1 where 1: "kms_serve (impl p) ctx q w = (a, w1)" by fastforce
  from serve_refines [OF Cons.prems 1] obtain S1 where "store_step S q a S1" "holds p S1 w1" by blast
  with Cons.IH [of S1 w1] cq 1 show ?case by (auto simp: Let_def split_beta)
qed auto

end

subsection \<open>The Vault client\<close>

lemma vk_serve: "kms_serve (vk_impl (D, up, known)) = kms_serve (vault_plugin D)"
  "kms_run (vk_impl (D, up, known)) = kms_run (vault_plugin D)"
  by (simp_all add: vk_impl_def)

lemma transit_service_ready:
  "transit_service D (api (heap w)) (TransitEngine (heap w)) (TransitKey (heap w)) up known \<Longrightarrow> up (svc w) \<Longrightarrow>
     vk_ready (D, up, known) w"
  by simp

lemma served_decrypts:
  assumes "transit_service D (api (heap w)) (TransitEngine (heap w)) (TransitKey (heap w)) up known"
    "up (svc w)" "known ct (b64_encode StdEncoding x) (svc w)" "decrypts ct q"
  shows "plaintext_of (fst (kms_serve (vault_plugin D) ctx q (snd (kms_run (vault_plugin D) qs w)))) = Some x"
proof -
  let ?p = "(D, up, known)" and ?w = "snd (kms_run (vault_plugin D) qs w)"
  have "vk_ready ?p ?w" "vk_stored ?p ct x ?w"
    using vault_kms.kms_run_ready [OF transit_service_ready [OF assms(1,2)], of qs "fst (kms_run (vault_plugin D) qs w)" ?w]
      assms(3) by (simp_all add: vk_serve)
  from vault_kms.serve_decrypts [OF this(1) _ assms(4) this(2), of ctx] show ?thesis
    by (simp add: vk_serve prod_eq_iff)
qed

lemma served_encrypts:
  assumes "transit_service D (api (heap w)) (TransitEngine (heap w)) (TransitKey (heap w)) up known"
    and "up (svc w)" and "encrypts x q"
  shows "\<exists>ct w1. ciphertext_of (fst (kms_serve (vault_plugin D) ctx q w)) = Some ct
    \<and> snd (kms_serve (vault_plugin D) ctx q w) = w1
    \<and> transit_service D (api (heap w1)) (TransitEngine (heap w1)) (TransitKey (heap w1)) up known
    \<and> up (svc w1) \<and> known ct (b64_encode StdEncoding x) (svc w1)"
proof -
  let ?p = "(D, up, known)"
  note r = transit_service_ready [OF assms(1,2)]
  obtain a w1 where s: "kms_serve (vk_impl ?p) ctx q w = (a, w1)" by fastforce
  from vault_kms.serve_encrypts [OF r s assms(3)] vault_kms.kms_serve_ready [OF r s]
  have "(\<exists>ct. ciphertext_of a = Some ct \<and> vk_stored ?p ct x w1) \<and> vk_ready ?p w1" by blast
  with s show ?thesis by (simp add: vk_serve)
qed

text \<open>A ciphertext Vault knows has one plaintext.\<close>

lemma known_single:
  assumes "transit_service D a mount key up known" "up v"
    and "known ct (b64_encode StdEncoding x) v" "known ct (b64_encode StdEncoding y) v"
  shows "x = y"
proof -
  let ?r = "fst (Write D a Background (decryptDataPath mount key) [(''ciphertext'', JString ct)] v)"
  have k: "\<exists>s. ?r = Inr (Some s) \<and> Data s ''plaintext'' = Some (JString (b64_encode StdEncoding z))"
    if "known ct (b64_encode StdEncoding z) v" for z
    using assms(1,2) that unfolding transit_service_def transit_decrypts_def by blast
  from k [OF assms(3)] k [OF assms(4)] have "b64_encode StdEncoding x = b64_encode StdEncoding y" by auto
  then have "b64_decode StdEncoding (b64_encode StdEncoding x) = b64_decode StdEncoding (b64_encode StdEncoding y)"
    by simp
  then show ?thesis by (simp add: b64_decode_encode [OF b64_wf_Std])
qed

lemma vault_refines_store:
  assumes "transit_service D (api (heap w)) (TransitEngine (heap w)) (TransitKey (heap w)) up known"
    and "up (svc w)"
  obtains S where "store_run {} qs (fst (kms_run (vault_plugin D) qs w)) S" "single_valued S"
proof -
  let ?p = "(D, up, known)" and ?w = "snd (kms_run (vault_plugin D) qs w)"
  have "vault_kms.holds ?p {} w"
    using assms by (simp add: vault_kms.holds_def)
  from vault_kms.run_refines [OF this, of qs] obtain S
    where S: "store_run {} qs (fst (kms_run (vault_plugin D) qs w)) S" "vault_kms.holds ?p S ?w"
    by (auto simp: vk_serve)
  have h: "vk_ready ?p ?w" "\<And>ct x. (ct, x) \<in> S \<Longrightarrow> known ct (b64_encode StdEncoding x) (svc ?w)"
    using S(2) by (auto simp: vault_kms.holds_def)
  then have "transit_service D (api (heap ?w)) (TransitEngine (heap ?w)) (TransitKey (heap ?w)) up known" "up (svc ?w)"
    by simp_all
  from known_single [OF this h(2) h(2)] have "single_valued S"
    by (auto simp: single_valued_def)
  with S(1) that show thesis by blast
qed

end
