(* ===== verification/Example_Client.thy ===== *)
theory Example_Client
  imports KMS_Store
begin

text \<open>
  \<open>cmd/v2_client/main.go\<close>: the manual client of the KMS v2 API. It asks for the status, encrypts its
  arguments, decrypts the answer and prints both. gRPC is a parameter: the connection and the three
  calls of the generated client.
\<close>

definition socket :: string where "socket = ''/tmp/kms.socket''"

record ('h, 'v) kms_stub =
  stub_Status :: "go_context \<Rightarrow> ('h, 'v) world \<Rightarrow> (go_error + v2_StatusResponse) \<times> ('h, 'v) world"
  stub_Encrypt :: "go_context \<Rightarrow> bytes \<Rightarrow> ('h, 'v) world \<Rightarrow> (go_error + v2_EncryptResponse) \<times> ('h, 'v) world"
  stub_Decrypt :: "go_context \<Rightarrow> bytes \<Rightarrow> ('h, 'v) world \<Rightarrow> (go_error + v2_DecryptResponse) \<times> ('h, 'v) world"

text \<open>What the process leaves: its standard output, the text of its fatal log line, its exit code.\<close>

record client_exit =
  stdout :: string
  fatal :: string
  code :: nat

definition log_Fatalf :: "string \<Rightarrow> string \<Rightarrow> go_error \<Rightarrow> client_exit" where
  "log_Fatalf out what err = \<lparr>stdout = out, fatal = what @ error_text err, code = 1\<rparr>"

fun go_join :: "string \<Rightarrow> string list \<Rightarrow> string" where
  "go_join sep [] = []"
| "go_join sep [s] = s"
| "go_join sep (s # ss) = s @ sep @ go_join sep ss"

text \<open>\<open>dial\<close> is \<open>grpc.NewClient\<close>; \<open>args\<close> is \<open>os.Args\<close>.\<close>

definition client_main :: "(string \<Rightarrow> go_error option) \<Rightarrow> ('h, 'v) kms_stub \<Rightarrow> string list \<Rightarrow> ('h, 'v) world \<Rightarrow>
    client_exit \<times> ('h, 'v) world" where
  "client_main dial client args w =
     (if length args = 1
      then (\<lparr>stdout = ''Usage: cmd/v2_Client/main.go <string>'' @ [CHR 0x0A], fatal = [], code = 0\<rparr>, w)
      else case dial (''unix:'' @ socket) of
        Some err \<Rightarrow> (log_Fatalf [] ''Failed to initialize grpc client: '' err, w)
      | None \<Rightarrow>
     (case stub_Status client Background w of
        (Inl err, w1) \<Rightarrow> (log_Fatalf [] ''Failed to get version: '' err, w1)
      | (Inr s, w1) \<Rightarrow>
          if 1 < length args then
            (let input = go_join '' '' (drop 1 args) in
             case stub_Encrypt client Background input w1 of
               (Inl err, w2) \<Rightarrow> (log_Fatalf [] ''Failed to encrypt: '' err, w2)
             | (Inr encRes, w2) \<Rightarrow>
                 (let resp = b64_encode StdEncoding (v2_Ciphertext encRes);
                      out = [CHR 0x22] @ input @ [CHR 0x22] @ '' -> '' @ [CHR 0x22] @ resp @ [CHR 0x22]
                  in case b64_decode StdEncoding resp of
                    Inl err \<Rightarrow> (log_Fatalf out ''Failed to decode: '' err, w2)
                  | Inr b \<Rightarrow>
                      (case stub_Decrypt client Background b w2 of
                         (Inl err, w3) \<Rightarrow> (log_Fatalf out ''Failed to encrypt: '' err, w3)
                       | (Inr decResp, w3) \<Rightarrow>
                           (\<lparr>stdout = out @ '' -> '' @ [CHR 0x22] @ v2_Plaintext decResp @ [CHR 0x22, CHR 0x0A],
                             fatal = [], code = 0\<rparr>, w3))))
          else (\<lparr>stdout = [], fatal = [], code = 0\<rparr>, w1)))"

text \<open>
  gRPC over the plugin's socket: a call reaches the handler of the wrapper, and what the handler
  answers without an error comes back. A request the client sends has the empty identifier.
\<close>

definition carries :: "('c client, 'v) kms_stub \<Rightarrow> ('c, 't, 'v) deps \<Rightarrow> go_context \<Rightarrow> int \<Rightarrow> bool" where
  "carries stub D ctx now \<longleftrightarrow>
     (\<forall>w c r w'. kms_serve (vault_plugin D) ctx (V2StatusRequest now) w = (StatusReport (Ok r), w') \<longrightarrow>
        stub_Status stub c w = (Inr r, w'))
     \<and> (\<forall>w c x r w'. kms_serve (vault_plugin D) ctx (V2EncryptRequest x []) w = (V2Encrypted (Ok r), w') \<longrightarrow>
        stub_Encrypt stub c x w = (Inr r, w'))
     \<and> (\<forall>w c y r w'. kms_serve (vault_plugin D) ctx (V2DecryptRequest y []) w = (V2Decrypted (Ok r), w') \<longrightarrow>
        stub_Decrypt stub c y w = (Inr r, w'))"

lemma healthy_status: "healthy (V2StatusRequest now) a \<Longrightarrow> \<exists>s. a = StatusReport (Ok s)"
  by (cases a) auto

lemma served_status:
  assumes "transit_service D (api (heap w)) (TransitEngine (heap w)) (TransitKey (heap w)) up known" "up (svc w)"
  obtains s w' where "kms_serve (vault_plugin D) ctx (V2StatusRequest now) w = (StatusReport (Ok s), w')"
    "transit_service D (api (heap w')) (TransitEngine (heap w')) (TransitKey (heap w')) up known" "up (svc w')"
proof -
  note r = transit_service_ready [OF assms]
  obtain a w' where a: "kms_serve (vk_impl (D, up, known)) ctx (V2StatusRequest now) w = (a, w')" by fastforce
  from healthy_status [OF vault_kms.serve_healthy [OF r a]] vault_kms.kms_serve_ready [OF r a]
  show thesis using that a by (auto simp: vk_serve)
qed

lemma client_main_works:
  assumes "transit_service D (api (heap w)) (TransitEngine (heap w)) (TransitKey (heap w)) up known" "up (svc w)"
    and "carries stub D ctx now" "dial (''unix:'' @ socket) = None" "1 < length args"
  obtains ct where "fst (client_main dial stub args w) =
    \<lparr>stdout = [CHR 0x22] @ go_join '' '' (drop 1 args) @ [CHR 0x22] @ '' -> ''
        @ [CHR 0x22] @ b64_encode StdEncoding ct @ [CHR 0x22] @ '' -> ''
        @ [CHR 0x22] @ go_join '' '' (drop 1 args) @ [CHR 0x22, CHR 0x0A],
      fatal = [], code = 0\<rparr>"
proof -
  let ?x = "go_join '' '' (drop 1 args)"
  obtain s w1 where 1: "kms_serve (vault_plugin D) ctx (V2StatusRequest now) w = (StatusReport (Ok s), w1)"
    "transit_service D (api (heap w1)) (TransitEngine (heap w1)) (TransitKey (heap w1)) up known" "up (svc w1)"
    by (rule served_status [OF assms(1,2)])
  obtain e w2 where "v2_Encrypt (NewPluginV2 (vault_plugin D)) ctx ?x [] w1 = (e, w2)" by fastforce
  then have 2: "kms_serve (vault_plugin D) ctx (V2EncryptRequest ?x []) w1 = (V2Encrypted e, w2)" by simp
  from served_encrypts [OF 1(2,3), of ?x "V2EncryptRequest ?x []" ctx, unfolded 2] obtain ct
    where ct: "ciphertext_of (V2Encrypted e) = Some ct" "up (svc w2)"
      "transit_service D (api (heap w2)) (TransitEngine (heap w2)) (TransitKey (heap w2)) up known"
      "known ct (b64_encode StdEncoding ?x) (svc w2)"
    by auto
  then obtain r where e: "e = Ok r" "v2_Ciphertext r = ct" by (cases e) auto
  obtain d w3 where "v2_Decrypt (NewPluginV2 (vault_plugin D)) ctx ct [] w2 = (d, w3)" by fastforce
  then have 3: "kms_serve (vault_plugin D) ctx (V2DecryptRequest ct []) w2 = (V2Decrypted d, w3)" by simp
  from served_decrypts [OF ct(3,2,4), of "V2DecryptRequest ct []" ctx "[]"]
  have "plaintext_of (V2Decrypted d) = Some ?x" by (simp add: 3 del: kms_serve.simps)
  then obtain p where d: "d = Ok p" "v2_Plaintext p = ?x" by (cases d) auto
  have "stub_Status stub Background w = (Inr s, w1)" "stub_Encrypt stub Background ?x w1 = (Inr r, w2)"
    "stub_Decrypt stub Background ct w2 = (Inr p, w3)"
    using assms(3) 1(1) 2 3 e(1) d(1) unfolding carries_def by blast+
  with assms(4,5) e(2) d(2) show thesis
    by (intro that [of ct]) (simp add: client_main_def Let_def b64_decode_encode [OF b64_wf_Std])
qed

end
