(* ===== verification/Go_PEM.thy ===== *)
theory Go_PEM
  imports Go_Strings Go_Base64 "HOL-Library.Char_ord" "HOL-Library.List_Lexorder"
begin

text \<open>
  Go's \<open>encoding/pem\<close>, which the PEM splitter is built on: \<open>Decode\<close> finds the next block of a file
  and \<open>EncodeToMemory\<close> writes one. The algorithm is that of Go 1.25.0, the version of \<open>go.mod\<close>; later
  patch releases look for the end line first, which makes a difference on malformed files only.
\<close>

record pem_block =
  pem_Type :: string
  pem_Headers :: "(string \<times> string) list"
  pem_Bytes :: bytes

text \<open>\<open>getLine\<close>: the first line without its end and without trailing blanks, and the rest.\<close>

definition trim_right :: "string \<Rightarrow> string" where
  "trim_right s = rev (dropWhile (\<lambda>c. c = CHR '' '' \<or> c = CHR 0x09) (rev s))"

definition drop_cr :: "string \<Rightarrow> string" where
  "drop_cr s = (if s \<noteq> [] \<and> last s = CHR 0x0D then butlast s else s)"

definition getLine :: "string \<Rightarrow> string \<times> string" where
  "getLine s =
     (case cut [CHR 0x0A] s of
        None \<Rightarrow> (trim_right s, [])
      | Some (l, r) \<Rightarrow> (trim_right (drop_cr l), r))"

definition pem_begin :: string where "pem_begin = ''-----BEGIN ''"

definition pem_end :: string where "pem_end = ''-----END ''"

definition pem_dashes :: string where "pem_dashes = ''-----''"

text \<open>What follows the next begin marker, at the very beginning or at the beginning of a line.\<close>

definition after_begin :: "string \<Rightarrow> string option" where
  "after_begin s =
     (if has_prefix pem_begin s then Some (drop (length pem_begin) s)
      else map_option snd (cut (CHR 0x0A # pem_begin) s))"

definition set_header :: "string \<Rightarrow> string \<Rightarrow> (string \<times> string) list \<Rightarrow> (string \<times> string) list" where
  "set_header k v hs = filter (\<lambda>h. fst h \<noteq> k) hs @ [(k, v)]"

lemma cut_shorter: "cut sep s = Some (a, b) \<Longrightarrow> length b + length sep \<le> length s"
  by (drule cut_Some) simp

lemma getLine_shorter: "s \<noteq> [] \<Longrightarrow> length (snd (getLine s)) < length s"
  by (auto simp: getLine_def split: option.splits dest: cut_shorter)

lemma getLine_le: "length (snd (getLine s)) \<le> length s"
  by (auto simp: getLine_def split: option.splits dest: cut_shorter)

function pem_headers :: "(string \<times> string) list \<Rightarrow> string \<Rightarrow> ((string \<times> string) list \<times> string) option" where
  "pem_headers hs rest =
     (if rest = [] then None
      else case cut '':'' (fst (getLine rest)) of
        None \<Rightarrow> Some (hs, rest)
      | Some (k, v) \<Rightarrow> pem_headers (set_header (trim_space k) (trim_space v) hs) (snd (getLine rest)))"
  by pat_completeness auto

termination
  by (relation "measure (\<lambda>(hs, rest). length rest)") (auto intro: getLine_shorter)

declare pem_headers.simps [simp del]

text \<open>The body up to the end line of the same type, and what follows that line.\<close>

definition end_marker :: "(string \<times> string) list \<Rightarrow> string \<Rightarrow> (nat \<times> string) option" where
  "end_marker hs rest =
     (if hs = [] \<and> has_prefix pem_end rest then Some (0, drop (length pem_end) rest)
      else map_option (\<lambda>(a, b). (length a, b)) (cut (CHR 0x0A # pem_end) rest))"

definition pem_body :: "string \<Rightarrow> (string \<times> string) list \<Rightarrow> string \<Rightarrow> (bytes \<times> string) option" where
  "pem_body ty hs rest =
     (case end_marker hs rest of
        None \<Rightarrow> None
      | Some (endIndex, endTrailer) \<Rightarrow>
          if take (length ty + length pem_dashes) endTrailer \<noteq> ty @ pem_dashes then None
          else if fst (getLine (drop (length ty + length pem_dashes) endTrailer)) \<noteq> [] then None
          else (case b64_decode StdEncoding
              (filter (\<lambda>c. c \<noteq> CHR '' '' \<and> c \<noteq> CHR 0x09) (take endIndex rest)) of
            Inl e \<Rightarrow> None
          | Inr b \<Rightarrow> Some (b, snd (getLine (drop (endIndex + length pem_end) rest)))))"

lemma pem_headers_le: "pem_headers hs rest = Some (hs', r) \<Longrightarrow> length r \<le> length rest"
proof (induction hs rest rule: pem_headers.induct)
  case (1 hs rest)
  show ?case
  proof (cases "rest = []")
    case True
    with 1(2) show ?thesis by (simp add: pem_headers.simps [of hs "[]"])
  next
    case False
    then show ?thesis
      using 1(2) 1(1) [OF False] getLine_le [of rest]
      by (fastforce simp: pem_headers.simps [of hs rest] split: option.splits prod.splits)
  qed
qed

lemma after_begin_shorter: "after_begin s = Some r \<Longrightarrow> length r < length s"
  by (auto simp: after_begin_def has_prefix_iff pem_begin_def split: if_splits dest: cut_shorter)

function pem_Decode :: "string \<Rightarrow> (pem_block \<times> string) option" where
  "pem_Decode s =
     (case after_begin s of
        None \<Rightarrow> None
      | Some r1 \<Rightarrow>
          (let (typeLine, r2) = getLine r1; n = length typeLine - length pem_dashes in
           if \<not> (length pem_dashes \<le> length typeLine \<and> drop n typeLine = pem_dashes) then pem_Decode r2
           else (case pem_headers [] r2 of
                   None \<Rightarrow> None
                 | Some (hs, r3) \<Rightarrow>
                     (case pem_body (take n typeLine) hs r3 of
                        None \<Rightarrow> pem_Decode r3
                      | Some (b, r4) \<Rightarrow>
                          Some (\<lparr>pem_Type = take n typeLine, pem_Headers = hs, pem_Bytes = b\<rparr>, r4)))))"
  by pat_completeness auto

termination
proof (relation "measure length")
  fix s r1 :: string and p typeLine r2
  assume a: "after_begin s = Some r1" "p = getLine r1" "(typeLine, r2) = p"
  then have r2: "length r2 < length s"
    using after_begin_shorter [of s r1] getLine_le [of r1] by (cases "getLine r1") auto
  show "(r2, s) \<in> measure length" using r2 by simp
  fix hs r3 q
  assume "pem_headers [] r2 = Some q" "(hs, r3) = q"
  then have "length r3 \<le> length r2" by (cases q) (auto dest: pem_headers_le)
  with r2 show "(r3, s) \<in> measure length" by simp
qed auto

declare pem_Decode.simps [simp del]

lemma pem_body_shorter: "pem_body ty hs r = Some (b, r') \<Longrightarrow> length r' \<le> length r"
proof -
  assume "pem_body ty hs r = Some (b, r')"
  then obtain i where "r' = snd (getLine (drop i r))"
    by (auto simp: pem_body_def split: option.splits prod.splits if_splits sum.splits)
  with getLine_le [of "drop i r"] show ?thesis by simp
qed

lemma pem_Decode_shorter: "pem_Decode s = Some (blk, r) \<Longrightarrow> length r < length s"
proof (induction s rule: pem_Decode.induct)
  case (1 s)
  obtain r1 where r1: "after_begin s = Some r1"
    using 1(3) by (auto simp: pem_Decode.simps [of s] split: option.splits)
  obtain tl r2 where r2: "getLine r1 = (tl, r2)" by fastforce
  have len: "length r2 < length s"
    using after_begin_shorter [OF r1] getLine_le [of r1] r2 by simp
  let ?n = "length tl - length pem_dashes"
  show ?case
  proof (cases "length pem_dashes \<le> length tl \<and> drop ?n tl = pem_dashes")
    case False
    then have "pem_Decode r2 = Some (blk, r)"
      using 1(3) r1 r2 by (auto simp: pem_Decode.simps [of s] Let_def)
    with 1(1) [OF r1 refl r2 [symmetric] refl False] len show ?thesis by simp
  next
    case True
    then obtain hs r3 where r3: "pem_headers [] r2 = Some (hs, r3)"
      using 1(3) r1 r2 by (auto simp: pem_Decode.simps [of s] Let_def split: option.splits)
    have len3: "length r3 < length s" using pem_headers_le [OF r3] len by simp
    show ?thesis
    proof (cases "pem_body (take ?n tl) hs r3")
      case None
      then have "pem_Decode r3 = Some (blk, r)"
        using 1(3) r1 r2 r3 True by (simp add: pem_Decode.simps [of s] Let_def)
      with 1(2) [OF r1 refl r2 [symmetric] refl _ r3 refl None] True len3 show ?thesis by simp
    next
      case (Some p)
      then have "pem_body (take ?n tl) hs r3 = Some (pem_Bytes blk, r)"
        using 1(3) r1 r2 r3 True by (auto simp: pem_Decode.simps [of s] Let_def split: prod.splits)
      from pem_body_shorter [OF this] len3 show ?thesis by simp
    qed
  qed
qed

subsection \<open>Encoding\<close>

text \<open>Lines of 64 characters; an empty text has no line.\<close>

fun break_lines :: "nat \<Rightarrow> string \<Rightarrow> string" where
  "break_lines k s =
     (if s = [] \<or> k = 0 then [] else take k s @ [CHR 0x0A] @ break_lines k (drop k s))"

declare break_lines.simps [simp del]

definition header_line :: "(string \<times> string) list \<Rightarrow> string \<Rightarrow> string" where
  "header_line hs k = k @ '': '' @ (case map_of hs k of None \<Rightarrow> [] | Some v \<Rightarrow> v) @ [CHR 0x0A]"

definition encode_headers :: "(string \<times> string) list \<Rightarrow> string" where
  "encode_headers hs =
     (if hs = [] then []
      else (if ''Proc-Type'' \<in> fst ` set hs then header_line hs ''Proc-Type'' else [])
        @ concat (map (header_line hs) (sort (filter (\<lambda>k. k \<noteq> ''Proc-Type'') (map fst hs))))
        @ [CHR 0x0A])"

text \<open>A header key with a colon cannot be written: \<open>EncodeToMemory\<close> returns nil.\<close>

definition pem_EncodeToMemory :: "pem_block \<Rightarrow> bytes" where
  "pem_EncodeToMemory b =
     (if \<exists>h \<in> set (pem_Headers b). CHR '':'' \<in> set (fst h) then []
      else pem_begin @ pem_Type b @ pem_dashes @ [CHR 0x0A] @ encode_headers (pem_Headers b)
        @ break_lines 64 (b64_encode StdEncoding (pem_Bytes b))
        @ pem_end @ pem_Type b @ pem_dashes @ [CHR 0x0A])"

subsection \<open>The round trip\<close>

lemma getLine_line: "CHR 0x0A \<notin> set l \<Longrightarrow> getLine (l @ CHR 0x0A # r) = (trim_right (drop_cr l), r)"
  using cut_first [of "CHR 0x0A" l "[]" r] by (simp add: getLine_def)

lemma cut_second:
  "d \<notin> set a \<Longrightarrow> c \<noteq> d \<Longrightarrow> cut (c # d # sep) (a @ c # d # sep @ b) = Some (a, b)"
proof (induction a)
  case (Cons x a)
  then have "\<not> has_prefix (c # d # sep) (x # a @ c # d # sep @ b)"
    by (cases a) auto
  with Cons show ?case by simp
qed simp

lemma trim_right_set: "set (trim_right s) \<subseteq> set s"
  unfolding trim_right_def using set_dropWhileD by fastforce

lemma drop_cr_set: "set (drop_cr s) \<subseteq> set s"
  by (auto simp: drop_cr_def dest: in_set_butlastD)

lemma break_lines_Nil [simp]: "break_lines k [] = []"
  by (simp add: break_lines.simps)

lemma break_lines_step:
  "s \<noteq> [] \<Longrightarrow> break_lines 64 s = take 64 s @ CHR 0x0A # break_lines 64 (drop 64 s)"
  by (subst break_lines.simps) simp

lemma lines_induct [case_names empty line]:
  assumes "P []" "\<And>s. s \<noteq> [] \<Longrightarrow> P (drop 64 s) \<Longrightarrow> P s"
  shows "P (s :: string)"
proof (induction s rule: length_induct)
  case (1 s)
  then show ?case using assms by (cases "s = []") auto
qed

lemma break_lines_filter:
  "CHR 0x0A \<notin> set s \<Longrightarrow> filter (\<lambda>c. c \<noteq> CHR 0x0A) (break_lines 64 s) = s"
proof (induction s rule: lines_induct)
  case (line s)
  have "CHR 0x0A \<notin> set (take 64 s)" "CHR 0x0A \<notin> set (drop 64 s)"
    using line(3) by (auto dest: in_set_takeD in_set_dropD)
  then have "filter (\<lambda>c. c \<noteq> CHR 0x0A) (take 64 s) = take 64 s"
    "filter (\<lambda>c. c \<noteq> CHR 0x0A) (break_lines 64 (drop 64 s)) = drop 64 s"
    using line(2) by (auto intro: filter_True)
  then show ?case
    by (simp add: break_lines_step [OF line(1)])
qed simp

lemma break_lines_set: "set (break_lines 64 s) \<subseteq> insert (CHR 0x0A) (set s)"
proof (induction s rule: lines_induct)
  case (line s)
  then show ?case
    by (auto simp: break_lines_step dest: in_set_takeD in_set_dropD)
qed simp

lemma break_lines_last: "s \<noteq> [] \<Longrightarrow> \<exists>t. break_lines 64 s = t @ [CHR 0x0A]"
proof (induction s rule: lines_induct)
  case (line s)
  then show ?case
    by (cases "drop 64 s = []") (auto simp: break_lines_step simp del: drop_eq_Nil)
qed simp

text \<open>No byte of a base64 text is one that the block structure looks at.\<close>

lemma b64_text_chars:
  "c \<in> set (b64_encode StdEncoding b) \<Longrightarrow> c \<notin> set [CHR ''-'', CHR '':'', CHR '' '', CHR 0x09, CHR 0x0A, CHR 0x0D]"
  using b64_encode_set [OF b64_wf_Std, of b] by (auto simp: StdEncoding_def)

definition pem_text :: "bytes \<Rightarrow> string" where
  "pem_text b = break_lines 64 (b64_encode StdEncoding b)"

lemma pem_text_chars:
  "c \<in> set (pem_text b) \<Longrightarrow> c \<notin> set [CHR ''-'', CHR '':'', CHR '' '', CHR 0x09]"
  using break_lines_set [of "b64_encode StdEncoding b"] b64_text_chars [of c b]
  by (auto simp: pem_text_def)

lemma pem_text_empty: "pem_text [] = []"
  by (simp add: pem_text_def)

lemma pem_text_last:
  assumes "b \<noteq> []"
  obtains t where "pem_text b = t @ [CHR 0x0A]" "t \<noteq> []" "b64_decode StdEncoding t = Inr b"
proof -
  have ne: "b64_encode StdEncoding b \<noteq> []" using assms by simp
  then obtain t where t: "pem_text b = t @ [CHR 0x0A]"
    using break_lines_last unfolding pem_text_def by blast
  have nl: "CHR 0x0A \<notin> set (b64_encode StdEncoding b)" using b64_text_chars by fastforce
  have f: "filter (\<lambda>c. c \<noteq> CHR 0x0A) t = b64_encode StdEncoding b"
    using break_lines_filter [OF nl] t unfolding pem_text_def by simp
  then have "t \<noteq> []" using ne by (metis filter.simps(1))
  have "filter (\<lambda>c. \<not> is_newline c) t = filter (\<lambda>c. \<not> is_newline c) (filter (\<lambda>c. c \<noteq> CHR 0x0A) t)"
    by (simp add: filter_filter)
  then have "b64_decode StdEncoding t = b64_decode StdEncoding (b64_encode StdEncoding b)"
    by (simp add: b64_decode_def f)
  with t \<open>t \<noteq> []\<close> show thesis
    using that b64_decode_encode [OF b64_wf_Std] by simp
qed

text \<open>A block without headers whose type is one word on one line.\<close>

definition plain_block :: "pem_block \<Rightarrow> bool" where
  "plain_block b \<longleftrightarrow> pem_Headers b = [] \<and> CHR 0x0A \<notin> set (pem_Type b) \<and> CHR '':'' \<notin> set (pem_Type b)"

lemma dashes_line: "trim_right (drop_cr (s @ pem_dashes)) = s @ pem_dashes"
  by (simp add: trim_right_def drop_cr_def pem_dashes_def)

lemma getLine_dashes:
  assumes "CHR 0x0A \<notin> set ty"
  shows "getLine (ty @ pem_dashes @ CHR 0x0A # r) = (ty @ pem_dashes, r)"
  using getLine_line [of "ty @ pem_dashes" r] assms dashes_line [of ty] by (simp add: pem_dashes_def)

lemma headers_none:
  assumes "CHR 0x0A \<notin> set l" "CHR '':'' \<notin> set l"
  shows "pem_headers [] (l @ CHR 0x0A # r) = Some ([], l @ CHR 0x0A # r)"
proof -
  have "CHR '':'' \<notin> set (trim_right (drop_cr l))"
    using assms(2) trim_right_set drop_cr_set by blast
  then have "cut '':'' (trim_right (drop_cr l)) = None"
    by (auto simp: cut_None)
  then show ?thesis
    by (simp add: pem_headers.simps [of "[]" "l @ _"] getLine_line [OF assms(1)])
qed

lemma pem_body_plain:
  assumes "CHR 0x0A \<notin> set ty"
  shows "pem_body ty [] (pem_text b @ pem_end @ ty @ pem_dashes @ CHR 0x0A # r) = Some (b, r)"
proof -
  have tail: "take (length ty + length pem_dashes) (ty @ pem_dashes @ CHR 0x0A # r) = ty @ pem_dashes"
    "drop (length ty + length pem_dashes) (ty @ pem_dashes @ CHR 0x0A # r) = CHR 0x0A # r"
    by simp_all
  have nl: "getLine (CHR 0x0A # r) = ([], r)"
    using getLine_line [of "[]" r] by (simp add: trim_right_def drop_cr_def)
  show ?thesis
  proof (cases "b = []")
    case True
    then have "end_marker [] (pem_text b @ pem_end @ ty @ pem_dashes @ CHR 0x0A # r)
        = Some (0, ty @ pem_dashes @ CHR 0x0A # r)"
      by (simp add: end_marker_def pem_text_empty)
    with True tail nl getLine_dashes [OF assms, of r] show ?thesis
      using b64_decode_encode [OF b64_wf_Std, of "[]"] by (simp add: pem_body_def pem_text_empty)
  next
    case False
    then obtain t where t: "pem_text b = t @ [CHR 0x0A]" "t \<noteq> []" "b64_decode StdEncoding t = Inr b"
      by (rule pem_text_last)
    have tc: "c \<in> set t \<Longrightarrow> c \<notin> set [CHR ''-'', CHR '' '', CHR 0x09]" for c
      using pem_text_chars [of c b] t(1) by auto
    have dash: "CHR ''-'' \<notin> set t" using tc by fastforce
    have "hd t \<noteq> CHR ''-''" using tc [of "hd t"] t(2) by (metis hd_in_set list.set_intros(1))
    then have np: "\<not> has_prefix pem_end (t @ CHR 0x0A # pem_end @ ty @ pem_dashes @ CHR 0x0A # r)"
      using t(2) by (cases t) (auto simp: pem_end_def)
    have e: "pem_end = CHR ''-'' # ''----END ''" by (simp add: pem_end_def)
    have "cut (CHR 0x0A # pem_end) (t @ (CHR 0x0A # pem_end) @ ty @ pem_dashes @ CHR 0x0A # r)
        = Some (t, ty @ pem_dashes @ CHR 0x0A # r)"
      unfolding e using dash cut_second [of "CHR ''-''" t "CHR 0x0A" "''----END ''"] by simp
    then have m: "end_marker [] (t @ CHR 0x0A # pem_end @ ty @ pem_dashes @ CHR 0x0A # r)
        = Some (length t, ty @ pem_dashes @ CHR 0x0A # r)"
      using np by (simp add: end_marker_def)
    have blanks: "filter (\<lambda>c. c \<noteq> CHR '' '' \<and> c \<noteq> CHR 0x09) t = t"
      using tc by (intro filter_True) auto
    have d: "drop (length t + length pem_end) (t @ CHR 0x0A # pem_end @ ty @ pem_dashes @ CHR 0x0A # r)
        = CHR '' '' # ty @ pem_dashes @ CHR 0x0A # r"
      by (simp add: pem_end_def)
    have "getLine (CHR '' '' # ty @ pem_dashes @ CHR 0x0A # r)
        = (trim_right (drop_cr (CHR '' '' # ty @ pem_dashes)), r)"
      using getLine_line [of "CHR '' '' # ty @ pem_dashes" r] assms by (simp add: pem_dashes_def)
    with m tail nl blanks d t(3) show ?thesis
      by (simp add: pem_body_def t(1))
  qed
qed

lemma pem_Decode_Encode:
  assumes "plain_block b"
  shows "pem_Decode (pem_EncodeToMemory b @ r) = Some (b, r)"
proof -
  let ?ty = "pem_Type b"
  have ty: "CHR 0x0A \<notin> set ?ty" "CHR '':'' \<notin> set ?ty" "pem_Headers b = []"
    using assms by (simp_all add: plain_block_def)
  define body where "body = pem_text (pem_Bytes b) @ pem_end @ ?ty @ pem_dashes @ CHR 0x0A # r"
  have enc: "pem_EncodeToMemory b @ r = pem_begin @ ?ty @ pem_dashes @ CHR 0x0A # body"
    by (simp add: pem_EncodeToMemory_def ty encode_headers_def body_def pem_text_def)
  have h: "pem_headers [] body = Some ([], body)"
  proof (cases "pem_Bytes b = []")
    case True
    have "body = (pem_end @ ?ty @ pem_dashes) @ CHR 0x0A # r"
      by (simp add: body_def True pem_text_empty)
    moreover have "pem_headers [] ((pem_end @ ?ty @ pem_dashes) @ CHR 0x0A # r)
        = Some ([], (pem_end @ ?ty @ pem_dashes) @ CHR 0x0A # r)"
      by (rule headers_none) (use ty in \<open>auto simp: pem_end_def pem_dashes_def\<close>)
    ultimately show ?thesis by simp
  next
    case False
    then have s: "b64_encode StdEncoding (pem_Bytes b) \<noteq> []" by simp
    let ?l = "take 64 (b64_encode StdEncoding (pem_Bytes b))"
    obtain r' where "body = ?l @ CHR 0x0A # r'"
      unfolding body_def pem_text_def break_lines_step [OF s] by simp
    moreover have "CHR 0x0A \<notin> set ?l" "CHR '':'' \<notin> set ?l"
      using b64_text_chars by (fastforce dest: in_set_takeD)+
    ultimately show ?thesis using headers_none by simp
  qed
  have ab: "after_begin (pem_EncodeToMemory b @ r) = Some (?ty @ pem_dashes @ CHR 0x0A # body)"
    by (simp add: after_begin_def enc)
  show ?thesis
    using ab h getLine_dashes [OF ty(1), of body] pem_body_plain [OF ty(1), of "pem_Bytes b" r] ty(3)
    by (simp add: pem_Decode.simps [of "pem_EncodeToMemory b @ r"] flip: body_def)
qed

end
