(* ===== verification/Vault_PEM.thy ===== *)
theory Vault_PEM
  imports Go_World Go_PEM
begin

text \<open>
  \<open>pkg/vault/pem.go\<close>: a PEM file with a certificate and its key is split into two temporary files.
  The clean-up function the caller gets is the list of the paths it removes.
\<close>

text \<open>\<open>append(a, b...)\<close> on a nil slice (\<open>None\<close>): appending nothing leaves it nil.\<close>

definition append_bytes :: "bytes option \<Rightarrow> bytes \<Rightarrow> bytes option" where
  "append_bytes a b =
     (case a of None \<Rightarrow> if b = [] then None else Some b | Some x \<Rightarrow> Some (x @ b))"

function pem_loop :: "string \<Rightarrow> bytes option \<Rightarrow> bytes option \<Rightarrow> bytes option \<times> bytes option" where
  "pem_loop rest certPEM keyPEM =
     (case pem_Decode rest of
        None \<Rightarrow> (certPEM, keyPEM)
      | Some (block, rest') \<Rightarrow>
          if pem_Type block = ''CERTIFICATE''
          then pem_loop rest' (append_bytes certPEM (pem_EncodeToMemory block)) keyPEM
          else if pem_Type block \<in> {''EC PRIVATE KEY'', ''RSA PRIVATE KEY'', ''PRIVATE KEY''}
          then pem_loop rest' certPEM (append_bytes keyPEM (pem_EncodeToMemory block))
          else pem_loop rest' certPEM keyPEM)"
  by pat_completeness auto

termination
  by (relation "measure (\<lambda>(rest, c, k). length rest)") (auto dest: pem_Decode_shorter)

declare pem_loop.simps [simp del]

definition parseCombinedPEM :: "string \<Rightarrow> os_state \<Rightarrow> (go_error + bytes \<times> bytes) \<times> os_state" where
  "parseCombinedPEM path s =
     (case os_ReadFile path s of
        (Inl e, s1) \<Rightarrow> (Inl (ErrWrap (''cannot read PEM file '' @ path) e), s1)
      | (Inr data, s1) \<Rightarrow>
          (case pem_loop data None None of
             (None, keyPEM) \<Rightarrow> (Inl (ErrNew (''no CERTIFICATE block found in '' @ path)), s1)
           | (Some certPEM, None) \<Rightarrow> (Inl (ErrNew (''no PRIVATE KEY block found in '' @ path)), s1)
           | (Some certPEM, Some keyPEM) \<Rightarrow> (Inr (certPEM, keyPEM), s1)))"

text \<open>\<open>_ = os.Remove(path)\<close> for each path.\<close>

fun remove_all :: "string list \<Rightarrow> os_state \<Rightarrow> os_state" where
  "remove_all [] s = s"
| "remove_all (p # ps) s = remove_all ps (snd (os_Remove p s))"

definition ParseCombinedPEMFile :: "string \<Rightarrow> os_state \<Rightarrow>
    (go_error + string \<times> string \<times> string list) \<times> os_state" where
  "ParseCombinedPEMFile path s =
     (case parseCombinedPEM path s of
        (Inl e, s1) \<Rightarrow> (Inl e, s1)
      | (Inr (certPEM, keyPEM), s1) \<Rightarrow>
     (case os_CreateTemp ''vault-cert-'' ''.pem'' s1 of
        (Inl e, s2) \<Rightarrow> (Inl (ErrWrap ''error creating temp cert file'' e), s2)
      | (Inr certF, s2) \<Rightarrow>
     (case os_Write certF certPEM s2 of
        (Some e, s3) \<Rightarrow> (Inl (ErrWrap ''error writing cert to temp file'' e), remove_all [certF] s3)
      | (None, s3) \<Rightarrow>
     (case os_CreateTemp ''vault-key-'' ''.pem'' s3 of
        (Inl e, s4) \<Rightarrow> (Inl (ErrWrap ''error creating temp key file'' e), remove_all [certF] s4)
      | (Inr keyF, s4) \<Rightarrow>
     (case os_Write keyF keyPEM s4 of
        (Some e, s5) \<Rightarrow> (Inl (ErrWrap ''error writing key to temp file'' e), remove_all [certF, keyF] s5)
      | (None, s5) \<Rightarrow> (Inr (certF, keyF, [certF, keyF]), s5))))))"

subsection \<open>Splitting\<close>

fun is_cert_block :: "pem_block \<Rightarrow> bool" where
  "is_cert_block b \<longleftrightarrow> pem_Type b = ''CERTIFICATE''"

fun is_key_block :: "pem_block \<Rightarrow> bool" where
  "is_key_block b \<longleftrightarrow> pem_Type b \<in> {''EC PRIVATE KEY'', ''RSA PRIVATE KEY'', ''PRIVATE KEY''}"

text \<open>The blocks of one kind as a file, nil when there are none.\<close>

definition pem_file :: "pem_block list \<Rightarrow> bytes option" where
  "pem_file bs = (if bs = [] then None else Some (concat (map pem_EncodeToMemory bs)))"

lemma Decode_Nil: "pem_Decode [] = None"
  by (simp add: pem_Decode.simps [of "[]"] after_begin_def pem_begin_def)

lemma pem_loop_blocks:
  "list_all plain_block bs \<Longrightarrow> pem_loop (concat (map pem_EncodeToMemory bs)) c k =
     (foldl append_bytes c (map pem_EncodeToMemory (filter is_cert_block bs)),
      foldl append_bytes k (map pem_EncodeToMemory (filter is_key_block bs)))"
proof (induction bs arbitrary: c k)
  case Nil
  then show ?case by (simp add: pem_loop.simps [of "[]"] Decode_Nil)
next
  case (Cons b bs)
  then show ?case
    by (simp add: pem_loop.simps [of "pem_EncodeToMemory b @ _"] pem_Decode_Encode)
qed

lemma encode_nonempty: "plain_block b \<Longrightarrow> pem_EncodeToMemory b \<noteq> []"
  by (simp add: pem_EncodeToMemory_def plain_block_def pem_begin_def)

lemma append_bytes_all: "foldl append_bytes (Some x) ys = Some (x @ concat ys)"
  by (induction ys arbitrary: x) (simp_all add: append_bytes_def)

lemma append_blocks:
  "list_all plain_block bs \<Longrightarrow> foldl append_bytes None (map pem_EncodeToMemory bs) = pem_file bs"
  by (cases bs) (simp_all add: pem_file_def append_bytes_def encode_nonempty append_bytes_all)

lemma pem_split:
  assumes "list_all plain_block bs"
  shows "pem_loop (concat (map pem_EncodeToMemory bs)) None None
    = (pem_file (filter is_cert_block bs), pem_file (filter is_key_block bs))"
  using assms append_blocks [of "filter is_cert_block bs"] append_blocks [of "filter is_key_block bs"]
  by (simp add: pem_loop_blocks list_all_iff)

subsection \<open>Temporary files\<close>

text \<open>Removals do not fail; any other call may.\<close>

definition removes :: "os_state \<Rightarrow> bool" where
  "removes s \<longleftrightarrow> (\<forall>n. os_fault s ''remove'' n = None)"

text \<open>
  \<open>created s fs s'\<close>: in \<open>s'\<close> the file system of \<open>s\<close> has the new files \<open>fs\<close>, newest first, and is the
  same otherwise. Every step of the splitter is one of its rules.
\<close>

definition created :: "os_state \<Rightarrow> (string \<times> bytes) list \<Rightarrow> os_state \<Rightarrow> bool" where
  "created s fs s' \<longleftrightarrow> os_fault s' = os_fault s \<and> distinct (map fst fs)
     \<and> (\<forall>p \<in> fst ` set fs. os_files s p = None)
     \<and> os_files s' = (\<lambda>p. case map_of fs p of None \<Rightarrow> os_files s p | Some b \<Rightarrow> Some (RegularFile b))"

lemma created_parse: "parseCombinedPEM path s = (r, s') \<Longrightarrow> created s [] s'"
  by (auto simp: created_def parseCombinedPEM_def os_ReadFile_def next_call_def
      split: prod.splits sum.splits option.splits node.splits)

lemma created_temp:
  assumes "created s fs s'" "os_CreateTemp pre suf s' = (r, s'')"
  shows "case r of Inl e \<Rightarrow> created s fs s'' | Inr p \<Rightarrow> created s ((p, []) # fs) s''"
proof (cases r)
  case Inl
  then show ?thesis
    using assms create_temp_failed [of "''createtemp''" "RegularFile []" 10000 pre suf s' _ s''] unfolding os_CreateTemp_def
    by (simp add: created_def)
next
  case (Inr p)
  then have p: "os_files s' p = None" "os_files s'' = (os_files s')(p := Some (RegularFile []))"
    "os_fault s'' = os_fault s'"
    using assms(2) create_temp_fresh [of "''createtemp''" "RegularFile []" 10000 pre suf s' p s''] unfolding os_CreateTemp_def by simp_all
  then have "map_of fs p = None" "os_files s p = None"
    using assms(1) by (auto simp: created_def split: option.splits)
  with p assms(1) Inr show ?thesis
    by (auto simp: created_def map_of_eq_None_iff fun_eq_iff)
qed

lemma created_write:
  assumes "created s ((p, a) # fs) s'" "os_Write p d s' = (r, s'')"
  shows "\<exists>b. created s ((p, b) # fs) s'' \<and> (r = None \<longrightarrow> b = a @ d)"
proof -
  have "os_files s' p = Some (RegularFile a)" using assms(1) by (simp add: created_def)
  then show ?thesis
    using assms(2) assms(1)
    by (cases "call_fault ''write'' s'")
      (auto simp: created_def os_Write_def Let_def next_call_def fun_eq_iff split: prod.splits)
qed

lemma created_remove:
  assumes "created s fs s'" "removes s" "p \<in> fst ` set fs"
  shows "created s (filter (\<lambda>f. fst f \<noteq> p) fs) (snd (os_Remove p s'))"
proof -
  obtain b where "map_of fs p = Some b"
    using assms(3) by (metis map_of_eq_None_iff not_Some_eq)
  then have "os_files s' p = Some (RegularFile b)" using assms(1) by (simp add: created_def)
  moreover have "map_of (filter (\<lambda>f. fst f \<noteq> p) fs) q = (if q = p then None else map_of fs q)" for q
    by (induction fs) auto
  ultimately show ?thesis
    using assms by (auto simp: created_def removes_def os_Remove_def call_fault_def next_call_def
        distinct_map_filter fun_eq_iff)
qed

lemma created_files: "created s [] s' \<Longrightarrow> os_files s' = os_files s"
  by (simp add: created_def)

lemma created_remove_two:
  assumes "created s [(q, b), (p, a)] s'" "removes s"
  shows "created s [] (remove_all [p, q] s')"
proof -
  have ne: "q \<noteq> p" using assms(1) by (auto simp: created_def)
  have 1: "created s [(q, b)] (snd (os_Remove p s'))"
    using created_remove [OF assms, of p] ne by simp
  show ?thesis
    using created_remove [OF 1 assms(2), of q] by simp
qed

lemma created_remove_one: "created s [(p, a)] s' \<Longrightarrow> removes s \<Longrightarrow> created s [] (remove_all [p] s')"
  using created_remove [of s "[(p, a)]" s' p] by simp

text \<open>A failure at any step leaves the file system as it was; a success leaves the two new files.\<close>

lemma PEM_key_created:
  assumes "created s [(p, a)] s3" "removes s"
  shows "case os_CreateTemp ''vault-key-'' ''.pem'' s3 of
      (Inl e, s4) \<Rightarrow> created s [] (remove_all [p] s4)
    | (Inr q, s4) \<Rightarrow>
        (case os_Write q k s4 of
           (Some e, s5) \<Rightarrow> created s [] (remove_all [p, q] s5)
         | (None, s5) \<Rightarrow> created s [(q, k), (p, a)] s5)"
proof (cases "os_CreateTemp ''vault-key-'' ''.pem'' s3")
  case (Pair r s4)
  note 1 = created_temp [OF assms(1) Pair]
  show ?thesis
  proof (cases r)
    case Inl
    with Pair 1 assms(2) created_remove_one show ?thesis by simp
  next
    case (Inr q)
    obtain r5 s5 where W: "os_Write q k s4 = (r5, s5)" by fastforce
    with created_write [of s q "[]"] 1 Inr obtain b
      where "created s [(q, b), (p, a)] s5" "r5 = None \<Longrightarrow> b = k" by fastforce
    with Pair Inr W created_remove_two [OF _ assms(2)] show ?thesis
      by (cases r5) (auto simp del: remove_all.simps)
  qed
qed

lemma PEM_file_created:
  assumes "ParseCombinedPEMFile path s = (r, s')" "removes s"
  shows "case r of Inl e \<Rightarrow> created s [] s'
    | Inr (certF, keyF, files) \<Rightarrow> files = [certF, keyF] \<and>
        (\<exists>c k. fst (parseCombinedPEM path s) = Inr (c, k) \<and> created s [(keyF, k), (certF, c)] s')"
proof (cases "parseCombinedPEM path s")
  case (Pair r1 s1)
  note 1 = created_parse [OF Pair]
  show ?thesis
  proof (cases r1)
    case (Inr ck)
    obtain c k where ck: "r1 = Inr (c, k)" using Inr by (cases ck) simp
    obtain r2 s2 where C: "os_CreateTemp ''vault-cert-'' ''.pem'' s1 = (r2, s2)" by fastforce
    note 2 = created_temp [OF 1 C]
    show ?thesis
    proof (cases r2)
      case (Inr p)
      obtain r3 s3 where W: "os_Write p c s2 = (r3, s3)" by fastforce
      with created_write [of s p "[]" "[]"] 2 Inr obtain a
        where 3: "created s [(p, a)] s3" "r3 = None \<Longrightarrow> a = c" by fastforce
      show ?thesis
        using PEM_key_created [OF 3(1) assms(2), of k] created_remove_one [OF 3(1) assms(2)]
          3(2) Pair ck C Inr W assms(1)
        by (cases r3) (auto simp: ParseCombinedPEMFile_def simp del: remove_all.simps
            split: prod.splits sum.splits option.splits)
    qed (use Pair ck C 2 assms(1) in \<open>auto simp: ParseCombinedPEMFile_def\<close>)
  qed (use Pair 1 assms(1) in \<open>auto simp: ParseCombinedPEMFile_def\<close>)
qed

text \<open>The clean-up of a success gives the file system back.\<close>

lemma PEM_cleanup:
  assumes "ParseCombinedPEMFile path s = (Inr (certF, keyF, files), s')" "removes s"
  shows "os_files (remove_all files s') = os_files s"
  using PEM_file_created [OF assms] created_remove_two [OF _ assms(2)] created_files by fastforce

end
