(* ===== verification/Go_Float.thy ===== *)
theory Go_Float
  imports Go_Strings
begin

text \<open>
  Go's \<open>float64\<close> as far as the lease refresher uses it: \<open>json.Number.Float64\<close> (that is,
  \<open>strconv.ParseFloat(s, 64)\<close>) on JSON number literals, and halving. A finite float is the rational
  number it stands for, so \<open>0\<close> and \<open>-0\<close> are one; the comparison of the source does not tell them
  apart either. Rounding is to nearest, ties to even, with 53 bits and the smallest exponent -1074.
\<close>

fun ilog2 :: "nat \<Rightarrow> nat" where
  "ilog2 n = (if n < 2 then 0 else Suc (ilog2 (n div 2)))"

declare ilog2.simps [simp del]

definition pow2 :: "int \<Rightarrow> rat" where
  "pow2 u = (if 0 \<le> u then 2 ^ nat u else 1 / 2 ^ nat (- u))"

text \<open>The exponent \<open>e\<close> with \<open>pow2 e \<le> x < pow2 (e + 1)\<close>, for a positive \<open>x\<close>.\<close>

definition exponent_of :: "rat \<Rightarrow> int" where
  "exponent_of x =
     (let (p, q) = quotient_of x; e0 = int (ilog2 (nat p)) - int (ilog2 (nat q))
      in if pow2 e0 \<le> x then e0 else e0 - 1)"

definition round_half_even :: "rat \<Rightarrow> int" where
  "round_half_even y =
     (let f = \<lfloor>y\<rfloor>; d = y - of_int f
      in if d < 1 / 2 then f else if 1 / 2 < d then f + 1 else if even f then f else f + 1)"

definition round_pos :: "rat \<Rightarrow> rat" where
  "round_pos x = (let u = max (exponent_of x - 52) (- 1074)
                  in of_int (round_half_even (x / pow2 u)) * pow2 u)"

definition round_f64 :: "rat \<Rightarrow> rat" where
  "round_f64 x = (if x = 0 then 0 else if x < 0 then - round_pos (- x) else round_pos x)"

definition f64_finite :: "rat \<Rightarrow> bool" where
  "f64_finite x \<longleftrightarrow> \<bar>x\<bar> < 2 ^ 1024"

subsection \<open>Parsing\<close>

text \<open>
  A JSON number literal: an optional minus, digits, an optional fraction, an optional exponent. The
  decoder only makes a \<open>json.Number\<close> of such a literal, so the other spellings \<open>ParseFloat\<close> knows
  (hexadecimal, infinities) do not arise; here they are syntax errors.
\<close>

definition parse_exponent :: "string \<Rightarrow> int option" where
  "parse_exponent s =
     (case s of
        [] \<Rightarrow> Some 0
      | c # r \<Rightarrow>
          if c = CHR ''e'' \<or> c = CHR ''E'' then
            (let (neg, ds) = (case r of
                 d # r' \<Rightarrow> if d = CHR ''-'' then (True, r') else if d = CHR ''+'' then (False, r') else (False, r)
               | [] \<Rightarrow> (False, r))
             in if ds = [] \<or> \<not> list_all is_digit ds then None
                else Some (if neg then - int (digits_value ds) else int (digits_value ds)))
          else None)"

definition parse_unsigned :: "string \<Rightarrow> rat option" where
  "parse_unsigned s =
     (let ip = takeWhile is_digit s; r1 = dropWhile is_digit s;
          (fp, r2) = (case r1 of
             c # r \<Rightarrow> if c = CHR ''.'' then (takeWhile is_digit r, dropWhile is_digit r) else ([], r1)
           | [] \<Rightarrow> ([], r1))
      in if ip = [] \<and> fp = [] then None
         else map_option (\<lambda>e. of_nat (digits_value (ip @ fp)) *
                (let k = e - int (length fp) in if 0 \<le> k then 10 ^ nat k else 1 / 10 ^ nat (- k)))
              (parse_exponent r2))"

definition parse_decimal :: "string \<Rightarrow> rat option" where
  "parse_decimal s =
     (case s of
        c # r \<Rightarrow> if c = CHR ''-'' then map_option uminus (parse_unsigned r) else parse_unsigned s
      | [] \<Rightarrow> None)"

definition number_error :: "string \<Rightarrow> string \<Rightarrow> string \<Rightarrow> go_error" where
  "number_error fn s reason =
     ErrChain (''strconv.'' @ fn @ '': parsing '' @ go_quote s @ '': '' @ reason) (ErrNew reason)"

definition Float64 :: "string \<Rightarrow> go_error + rat" where
  "Float64 s =
     (case parse_decimal s of
        None \<Rightarrow> Inl (number_error ''ParseFloat'' s ''invalid syntax'')
      | Some x \<Rightarrow>
          if f64_finite (round_f64 x) then Inr (round_f64 x)
          else Inl (number_error ''ParseFloat'' s ''value out of range''))"

definition half_f64 :: "rat \<Rightarrow> rat" where
  "half_f64 x = round_f64 (x / 2)"

subsection \<open>Exact values\<close>

lemma pow2_pos [simp]: "0 < pow2 u"
  by (simp add: pow2_def)

lemma pow2_nonzero [simp]: "pow2 u \<noteq> 0"
  using pow2_pos [of u] by linarith

lemma pow2_nat: "pow2 (int n) = 2 ^ n" "pow2 (- int n) = 1 / 2 ^ n"
  by (simp_all add: pow2_def)

lemma pow2_add: "pow2 (a + b) = pow2 a * pow2 b"
proof -
  have "pow2 u = 2 powi u" for u
    by (simp add: pow2_def power_int_def power_one_over)
  then show ?thesis by (simp add: power_int_add)
qed

lemma pow2_mono: "a \<le> b \<Longrightarrow> pow2 a \<le> pow2 b"
proof -
  assume "a \<le> b"
  then have "pow2 b = pow2 a * 2 ^ nat (b - a)"
    using pow2_add [of a "b - a"] by (simp add: pow2_def)
  moreover have "(1 :: rat) \<le> 2 ^ nat (b - a)" by simp
  ultimately show ?thesis
    by (metis mult.right_neutral mult_left_mono less_imp_le pow2_pos)
qed

lemma pow2_less_imp: "pow2 a < pow2 b \<Longrightarrow> a < b"
  using pow2_mono by (metis not_le)

lemma ilog2_bounds: "0 < n \<Longrightarrow> 2 ^ ilog2 n \<le> n \<and> n < 2 ^ Suc (ilog2 n)"
proof (induction n rule: ilog2.induct)
  case (1 n)
  show ?case
  proof (cases "n < 2")
    case True
    with 1(2) show ?thesis by (simp add: ilog2.simps [of n])
  next
    case False
    with 1 have "2 ^ ilog2 (n div 2) \<le> n div 2" "n div 2 < 2 ^ Suc (ilog2 (n div 2))" by auto
    with False show ?thesis by (simp add: ilog2.simps [of n]; intro conjI; linarith)
  qed
qed

lemma exponent_of_lower:
  assumes "0 < x"
  shows "pow2 (exponent_of x) \<le> x"
proof -
  obtain p q where pq: "quotient_of x = (p, q)" by (cases "quotient_of x")
  then have q: "0 < q" and x: "x = of_int p / of_int q"
    by (rule quotient_of_denom_pos, rule quotient_of_div)
  with assms have p: "0 < p"
    by (simp add: zero_less_divide_iff)
  define a b where "a = ilog2 (nat p)" and "b = ilog2 (nat q)"
  have "(2 :: int) ^ a \<le> p"
    using ilog2_bounds [of "nat p"] p unfolding a_def
    by (metis int_eq_iff_numeral of_nat_le_iff of_nat_power int_nat_eq less_imp_le zero_less_nat_eq)
  then have A: "(2 :: rat) ^ a \<le> of_int p"
    by (metis of_int_le_iff of_int_numeral of_int_power)
  have "q < (2 :: int) ^ Suc b"
    using ilog2_bounds [of "nat q"] q unfolding b_def
    by (metis nat_less_iff of_nat_numeral of_nat_power less_imp_le zero_less_nat_eq)
  then have B: "of_int q < (2 :: rat) ^ Suc b"
    by (metis of_int_less_iff of_int_numeral of_int_power)
  have "pow2 (int a - int b - 1) = 2 ^ a / 2 ^ Suc b"
    using pow2_add [of "int a" "- int (Suc b)"] pow2_nat(1) [of a] pow2_nat(2) [of "Suc b"]
    by (simp add: algebra_simps)
  also have "\<dots> \<le> x"
    using A B p q unfolding x by (intro frac_le) simp_all
  finally show ?thesis
    by (simp add: exponent_of_def pq a_def b_def Let_def)
qed

text \<open>A number with at most 53 significant bits and a representable exponent is its own rounding.\<close>

lemma round_half_even_int [simp]: "round_half_even (of_int k) = k"
  by (simp add: round_half_even_def Let_def)

lemma round_pos_exact:
  assumes "0 < k" "k < 2 ^ 53" "- 1074 \<le> u"
  shows "round_pos (of_int k * pow2 u) = of_int k * pow2 u"
proof -
  let ?x = "of_int k * pow2 u"
  define v where "v = max (exponent_of ?x - 52) (- 1074)"
  have pos: "0 < ?x" using assms(1) by simp
  have "(of_int k :: rat) < of_int (2 ^ 53)"
    using assms(2) by (rule iffD2 [OF of_int_less_iff])
  then have "?x < pow2 (53 + u)"
    unfolding pow2_add by (simp add: pow2_def [of 53])
  with exponent_of_lower [OF pos] have "exponent_of ?x < 53 + u"
    by (intro pow2_less_imp) linarith
  with assms(3) have v: "v \<le> u" by (simp add: v_def)
  have x: "?x / pow2 v = of_int (k * 2 ^ nat (u - v))"
    using v pow2_add [of v "u - v"] by (simp add: pow2_def [of "u - v"])
  have "round_pos ?x = of_int (round_half_even (?x / pow2 v)) * pow2 v"
    unfolding round_pos_def Let_def v_def ..
  also have "\<dots> = ?x / pow2 v * pow2 v"
    unfolding x round_half_even_int ..
  finally show ?thesis by simp
qed

lemma round_f64_nat: "n < 2 ^ 53 \<Longrightarrow> round_f64 (of_nat n) = of_nat n"
  using round_pos_exact [of "int n" 0] by (cases "n = 0") (simp_all add: round_f64_def pow2_def)

lemma half_f64_nat: "n < 2 ^ 53 \<Longrightarrow> half_f64 (of_nat n) = of_nat n / 2"
  using round_pos_exact [of "int n" "- 1"]
  by (cases "n = 0") (simp_all add: half_f64_def round_f64_def pow2_def)

lemma show_nat_scan:
  "takeWhile is_digit (show_nat n) = show_nat n" "dropWhile is_digit (show_nat n) = []"
  using show_nat_digits [of n] by (simp_all add: list_all_iff)

text \<open>The decimal digits of a number below \<open>2 ^ 53\<close> are read back as that number.\<close>

lemma Float64_show_nat:
  assumes "n < 2 ^ 53"
  shows "Float64 (show_nat n) = Inr (of_nat n)"
proof -
  obtain c r where cr: "show_nat n = c # r" by (cases "show_nat n") auto
  with show_nat_digits [of n] have "c \<noteq> CHR ''-''"
    by (auto simp: is_digit_def)
  then have "parse_decimal (show_nat n) = parse_unsigned (show_nat n)"
    by (simp add: parse_decimal_def cr)
  also have "\<dots> = Some (of_nat n)"
    by (simp add: parse_unsigned_def parse_exponent_def Let_def show_nat_scan)
  finally have p: "parse_decimal (show_nat n) = Some (of_nat n)" .
  have "(of_nat n :: rat) < of_nat (2 ^ 53)"
    using assms by (rule iffD2 [OF of_nat_less_iff])
  also have "of_nat (2 ^ 53) < (2 :: rat) ^ 1024"
    unfolding of_nat_power of_nat_numeral by (rule power_strict_increasing) simp_all
  finally show ?thesis
    using p assms by (simp add: Float64_def f64_finite_def round_f64_nat)
qed

end
