(* ===== verification/Vault_Lease.thy ===== *)
theory Vault_Lease
  imports Vault_Client Go_Float
begin

text \<open>
  \<open>pkg/vault/lease.go\<close>: the goroutine that keeps the token alive. The ticker and the context are
  the sequence of what its \<open>select\<close> receives; the client it works on is the shared object \<open>heap\<close>,
  so a new login is seen by every other goroutine.
\<close>

datatype select_case = TickerFired | ContextDone

definition isAuthError :: "go_error \<Rightarrow> bool" where
  "isAuthError err =
     (case as_response_error err of None \<Rightarrow> False | Some code \<Rightarrow> code = 401 \<or> code = 403)"

text \<open>\<open>c.AuthMethodFunc(c)\<close>: calling a nil function panics.\<close>

definition call_AuthMethodFunc :: "('c, 't, 'v) deps \<Rightarrow> ('c client, 'v) world \<Rightarrow>
    unit outcome \<times> ('c client, 'v) world" where
  "call_AuthMethodFunc D w =
     (case AuthMethodFunc (heap w) of
        None \<Rightarrow> (Panic NilFunctionCall, w)
      | Some m \<Rightarrow> (case apply_option D m (heap w) w of (r, c, w1) \<Rightarrow> (r, w1\<lparr>heap := c\<rparr>)))"

definition authenticateAndVerify :: "('c, 't, 'v) deps \<Rightarrow> ('c client, 'v) world \<Rightarrow>
    unit outcome \<times> ('c client, 'v) world" where
  "authenticateAndVerify D w =
     (case call_AuthMethodFunc D w of
        (Err e, w1) \<Rightarrow> (Err e, w1)
      | (Panic k, w1) \<Rightarrow> (Panic k, w1)
      | (Ok u, w1) \<Rightarrow>
          (case on_svc (LookupSelf D (api (heap w1))) w1 of
             (Inl e, w2) \<Rightarrow> (Err e, w2)
           | (Inr s, w2) \<Rightarrow> (Ok (), w2)))"

text \<open>The token cannot be looked up: a new login if Vault refused the token.\<close>

definition lookup_failed :: "('c, 't, 'v) deps \<Rightarrow> go_error \<Rightarrow> ('c client, 'v) world \<Rightarrow>
    unit outcome \<times> ('c client, 'v) world" where
  "lookup_failed D err w =
     (if isAuthError err then
        (case authenticateAndVerify D
            (log_error ''failed to lookup token, performing new authentication'' [FError err] w) of
           (Err e, w1) \<Rightarrow> (Ok (), log_error ''failed to authenticate or verify token'' [FError e] w1)
         | (Panic k, w1) \<Rightarrow> (Panic k, w1)
         | (Ok u, w1) \<Rightarrow> (Ok (), log_info ''successfully re-authenticated'' [] w1))
      else (Ok (), log_error ''failed to lookup token'' [FError err] w))"

definition renew_token :: "('c, 't, 'v) deps \<Rightarrow> ('c client, 'v) world \<Rightarrow>
    unit outcome \<times> ('c client, 'v) world" where
  "renew_token D w =
     (let counted = emit (CounterInc VaultTokenRenewalTotal);
          w1 = log_info ''attempting token renewal''
                 [FInt ''renewal_seconds'' (TokenRenewalSeconds (heap w))] w
      in case on_svc (RenewSelf D (api (heap w1)) (TokenRenewalSeconds (heap w1))) w1 of
           (Inr s, w2) \<Rightarrow> (Ok (), counted (log_info ''successfully refreshed token'' [] w2))
         | (Inl e, w2) \<Rightarrow>
             (case call_AuthMethodFunc D
                 (log_error ''failed to renew token, performing new authentication'' [FError e] w2) of
                (Err e', w3) \<Rightarrow> (Ok (), counted (log_error ''failed to authenticate'' [FError e'] w3))
              | (Panic k, w3) \<Rightarrow> (Panic k, w3)
              | (Ok u, w3) \<Rightarrow> (Ok (), counted (log_info ''successfully re-authenticated'' [] w3))))"

definition check_ttl :: "('c, 't, 'v) deps \<Rightarrow> rat \<Rightarrow> rat \<Rightarrow> ('c client, 'v) world \<Rightarrow>
    unit outcome \<times> ('c client, 'v) world" where
  "check_ttl D creationTTLFloat ttlFloat w =
     (let w1 = log_info ''checking token renewal''
            [FFloat ''creation_ttl'' creationTTLFloat, FFloat ''ttl'' ttlFloat]
            (emit (GaugeSet VaultTokenExpirySeconds ttlFloat) w)
      in if ttlFloat < half_f64 creationTTLFloat then renew_token D w1
         else (Ok (), log_info ''skipping token renewal'' [] w1))"

text \<open>One turn of the loop; \<open>Ok ()\<close> is both the end of the body and \<open>continue\<close>.\<close>

definition lease_tick :: "('c, 't, 'v) deps \<Rightarrow> ('c client, 'v) world \<Rightarrow>
    unit outcome \<times> ('c client, 'v) world" where
  "lease_tick D w =
     (case on_svc (LookupSelf D (api (heap w))) w of
        (Inl err, w1) \<Rightarrow> lookup_failed D err w1
      | (Inr None, w1) \<Rightarrow> (Panic NilDereference, w1)
      | (Inr (Some token), w1) \<Rightarrow>
          (case assert_number (Data token ''creation_ttl'') of
             None \<Rightarrow> (Ok (), log_error ''failed to assert creation_ttl type'' [] w1)
           | Some creationTTL \<Rightarrow>
          (case assert_number (Data token ''ttl'') of
             None \<Rightarrow> (Ok (), log_error ''failed to assert ttl type'' [] w1)
           | Some ttl \<Rightarrow>
          (case Float64 creationTTL of
             Inl e \<Rightarrow> (Ok (), log_error ''failed to parse creation_ttl'' [FError e] w1)
           | Inr creationTTLFloat \<Rightarrow>
          (case Float64 ttl of
             Inl e \<Rightarrow> (Ok (), log_error ''failed to parse ttl'' [FError e] w1)
           | Inr ttlFloat \<Rightarrow> check_ttl D creationTTLFloat ttlFloat w1)))))"

text \<open>
  The loop over what \<open>select\<close> receives. \<open>Returned\<close>: the context is done. \<open>Waiting\<close>: nothing more was
  received yet. \<open>Crashed\<close>: a panic, which ends the process.
\<close>

datatype refresher = Waiting | Returned | Crashed crash

fun refresh_loop :: "('c, 't, 'v) deps \<Rightarrow> select_case list \<Rightarrow> ('c client, 'v) world \<Rightarrow>
    refresher \<times> ('c client, 'v) world" where
  "refresh_loop D [] w = (Waiting, w)"
| "refresh_loop D (ContextDone # evs) w = (Returned, log_info ''token refresher shutting down'' [] w)"
| "refresh_loop D (TickerFired # evs) w =
     (case lease_tick D w of
        (Ok u, w1) \<Rightarrow> refresh_loop D evs w1
      | (Err e, w1) \<Rightarrow> refresh_loop D evs w1
      | (Panic k, w1) \<Rightarrow> (Crashed k, w1))"

text \<open>\<open>time.NewTicker\<close> panics on an interval that is not positive.\<close>

definition LeaseRefresher :: "('c, 't, 'v) deps \<Rightarrow> int \<Rightarrow> select_case list \<Rightarrow> ('c client, 'v) world \<Rightarrow>
    refresher \<times> ('c client, 'v) world" where
  "LeaseRefresher D interval evs w =
     (if interval \<le> 0 then (Crashed NonPositiveTicker, w) else refresh_loop D evs w)"

text \<open>The events the refresher may add: log lines, and its own two collectors.\<close>

fun lease_event :: "event \<Rightarrow> bool" where
  "lease_event (Log l m fs) = True"
| "lease_event (CounterInc n) = (n = VaultTokenRenewalTotal)"
| "lease_event (GaugeSet n x) = (n = VaultTokenExpirySeconds)"
| "lease_event (Observe n ls) = False"

subsection \<open>Invariants of the loop\<close>

lemmas log_defs = log_info_def log_error_def log_debug_def log_fatal_def

text \<open>
  What the refresher does to the world is four things: it emits events, looks the token up, renews
  it, and calls the remembered login. A predicate that these keep is an invariant of the loop.
\<close>

locale lease_invariant =
  fixes D :: "('c, 't, 'v) deps" and P :: "('c client, 'v) world \<Rightarrow> bool"
  assumes inv_emit: "P w \<Longrightarrow> lease_event e \<Longrightarrow> P (emit e w)"
    and inv_lookup: "P w \<Longrightarrow> on_svc (LookupSelf D (api (heap w))) w = (r, w') \<Longrightarrow> P w'"
    and inv_renew: "P w \<Longrightarrow> on_svc (RenewSelf D (api (heap w)) n) w = (r', w') \<Longrightarrow> P w'"
    and inv_login: "P w \<Longrightarrow> call_AuthMethodFunc D w = (x, w') \<Longrightarrow> P w'"
begin

lemma inv_logs:
  "P w \<Longrightarrow> P (log_info m fs w)" "P w \<Longrightarrow> P (log_error m fs w)"
  by (simp_all add: log_defs inv_emit)

lemma inv_authenticate: "authenticateAndVerify D w = (r, w') \<Longrightarrow> P w \<Longrightarrow> P w'"
  by (auto simp: authenticateAndVerify_def intro: inv_lookup inv_login
      split: prod.splits outcome.splits sum.splits)

lemma inv_lookup_failed:
  assumes "lookup_failed D err w = (r, w')" "P w"
  shows "P w'"
proof -
  let ?w = "log_error ''failed to lookup token, performing new authentication'' [FError err] w"
  obtain x w1 where a: "authenticateAndVerify D ?w = (x, w1)" by fastforce
  have "P w1" by (rule inv_authenticate [OF a inv_logs(2) [OF assms(2)]])
  with assms a show ?thesis
    by (cases x) (auto simp: lookup_failed_def intro: inv_logs split: if_splits)
qed

lemma inv_renew_token:
  assumes "renew_token D w = (r, w')" "P w"
  shows "P w'"
proof -
  let ?w = "log_info ''attempting token renewal'' [FInt ''renewal_seconds'' (TokenRenewalSeconds (heap w))] w"
  obtain x w1 where x: "on_svc (RenewSelf D (api (heap ?w)) (TokenRenewalSeconds (heap ?w))) ?w = (x, w1)"
    by fastforce
  have w1: "P w1" by (rule inv_renew [OF inv_logs(1) [OF assms(2)] x])
  show ?thesis
  proof (cases x)
    case (Inl e)
    let ?v = "log_error ''failed to renew token, performing new authentication'' [FError e] w1"
    obtain y w2 where y: "call_AuthMethodFunc D ?v = (y, w2)" by fastforce
    have "P w2" by (rule inv_login [OF inv_logs(2) [OF w1] y])
    with assms(1) x y Inl show ?thesis
      by (cases y) (auto simp: renew_token_def Let_def intro!: inv_emit inv_logs)
  next
    case (Inr s)
    with assms(1) x w1 show ?thesis
      by (auto simp: renew_token_def Let_def intro!: inv_emit inv_logs)
  qed
qed

lemma inv_check: "check_ttl D c t w = (r, w') \<Longrightarrow> P w \<Longrightarrow> P w'"
  by (auto simp: check_ttl_def Let_def intro!: inv_logs inv_emit elim!: inv_renew_token split: if_splits)

lemma inv_tick:
  assumes "lease_tick D w = (r, w')" "P w"
  shows "P w'"
proof -
  obtain a w1 where a: "on_svc (LookupSelf D (api (heap w))) w = (a, w1)" by fastforce
  have "P w1" by (rule inv_lookup [OF assms(2) a])
  with assms(1) a show ?thesis
    by (auto simp: lease_tick_def intro: inv_logs inv_lookup_failed inv_check
        split: sum.splits option.splits)
qed

lemma inv_loop: "refresh_loop D evs w = (r, w') \<Longrightarrow> P w \<Longrightarrow> P w'"
proof (induction evs arbitrary: w)
  case (Cons ev evs)
  show ?case
  proof (cases ev)
    case TickerFired
    obtain x w1 where t: "lease_tick D w = (x, w1)" by fastforce
    with TickerFired Cons inv_tick [OF t Cons.prems(2)] show ?thesis by (cases x) auto
  next
    case ContextDone
    with Cons.prems show ?thesis by (auto intro: inv_logs)
  qed
qed simp

end

subsection \<open>Frame\<close>

text \<open>
  What a turn of the loop keeps: the environment, the transit configuration and the remembered login
  method; and what it adds to the logs and metrics. \<open>steady w w'\<close> collects it for one turn or many.
\<close>

definition steady :: "('c client, 'v) world \<Rightarrow> ('c client, 'v) world \<Rightarrow> bool" where
  "steady w w' \<longleftrightarrow> env_vars w' = env_vars w \<and> config_of (heap w') = config_of (heap w)
     \<and> AuthMethodFunc (heap w') = AuthMethodFunc (heap w)
     \<and> (\<exists>es. events w' = events w @ es \<and> list_all lease_event es)"

definition attached :: "'c client \<Rightarrow> bool" where
  "attached c \<longleftrightarrow> (\<exists>m. AuthMethodFunc c = Some m \<and> logs_in m)"

lemma steady_refl [simp]: "steady w w"
  by (simp add: steady_def)

lemma steady_trans: "steady u v \<Longrightarrow> steady v w \<Longrightarrow> steady u w"
  unfolding steady_def by force

lemma steady_attached: "steady w w' \<Longrightarrow> attached (heap w') = attached (heap w)"
  by (simp add: steady_def attached_def)

lemma steady_emit: "lease_event e \<Longrightarrow> steady u w \<Longrightarrow> steady u (emit e w)"
  by (auto simp: steady_def)

lemma steady_svc: "on_svc f w = (r, w') \<Longrightarrow> steady u w \<Longrightarrow> steady u w'"
  by (auto simp: steady_def on_svc_def split: prod.splits)

lemma login_keeps_method:
  "logs_in m \<Longrightarrow> AuthMethodFunc c = Some m' \<Longrightarrow> apply_option D m c w = (r, c', w') \<Longrightarrow>
     AuthMethodFunc c' = Some m'"
  using login_done [of m D c w c' w'] login_failed [of m D c w r c' w'] by (cases "r = Ok ()") auto

lemma call_frame:
  assumes "call_AuthMethodFunc D w = (r, w')" "attached (heap w)"
  shows "config_of (heap w') = config_of (heap w)" "AuthMethodFunc (heap w') = AuthMethodFunc (heap w)"
    and "events w' = events w" "env_vars w' = env_vars w"
    and "r \<noteq> Ok () \<Longrightarrow> api (heap w') = api (heap w)"
proof -
  from assms(2) obtain m where m: "AuthMethodFunc (heap w) = Some m" "logs_in m"
    by (auto simp: attached_def)
  obtain r1 c w1 where a: "apply_option D m (heap w) w = (r1, c, w1)" by (cases "apply_option D m (heap w) w")
  with assms(1) m have "r = r1" "w' = w1\<lparr>heap := c\<rparr>"
    by (simp_all add: call_AuthMethodFunc_def)
  with login_config [OF m(2) a] login_keeps_method [OF m(2,1) a] option_frame [OF a]
    login_failed [OF m(2) a] m(1)
  show "config_of (heap w') = config_of (heap w)" "AuthMethodFunc (heap w') = AuthMethodFunc (heap w)"
    "events w' = events w" "env_vars w' = env_vars w" "r \<noteq> Ok () \<Longrightarrow> api (heap w') = api (heap w)"
    by simp_all
qed

lemma steady_call:
  assumes "call_AuthMethodFunc D w = (r, w')" "attached (heap u)" "steady u w"
  shows "steady u w'"
proof -
  have "attached (heap w)" using assms(2,3) by (simp add: steady_attached)
  with call_frame [OF assms(1)] assms(3) show ?thesis
    by (simp add: steady_def)
qed

text \<open>While a login method is remembered, one turn and the whole loop are steady.\<close>

interpretation lease_steady: lease_invariant D "\<lambda>w. attached (heap u) \<longrightarrow> steady u w" for D u
  by unfold_locales (auto intro: steady_emit steady_svc steady_call)

lemma lease_tick_steady: "lease_tick D w = (r, w') \<Longrightarrow> attached (heap w) \<Longrightarrow> steady w w'"
  using lease_steady.inv_tick [of D w r w' w] by simp

lemma refresh_loop_steady: "refresh_loop D evs w = (r, w') \<Longrightarrow> attached (heap w) \<Longrightarrow> steady w w'"
  using lease_steady.inv_loop [of D evs w r w' w] by simp

subsection \<open>Decisions\<close>

lemma lease_tick_numbers:
  assumes "LookupSelf D (api (heap w)) (svc w) = (Inr (Some s), v)"
    and "Data s ''creation_ttl'' = Some (JNumber (show_nat c))" "c < 2 ^ 53"
    and "Data s ''ttl'' = Some (JNumber (show_nat t))" "t < 2 ^ 53"
  shows "lease_tick D w = check_ttl D (of_nat c) (of_nat t) (w\<lparr>svc := v\<rparr>)"
  using assms by (simp add: lease_tick_def on_svc_def Float64_show_nat)

lemma half_test:
  assumes "c < 2 ^ 53"
  shows "(of_nat t < half_f64 (of_nat c)) \<longleftrightarrow> 2 * t < c"
proof -
  have "(of_nat t < (of_nat c :: rat) / 2) \<longleftrightarrow> (of_nat (2 * t) :: rat) < of_nat c"
    by (simp add: field_simps)
  also have "\<dots> \<longleftrightarrow> 2 * t < c" by (rule of_nat_less_iff)
  finally show ?thesis by (simp add: half_f64_nat [OF assms])
qed

lemma renewal_differs [simp]: "VaultTokenRenewalTotal \<noteq> VaultTokenExpirySeconds"
  by (simp add: VaultTokenRenewalTotal_def VaultTokenExpirySeconds_def metricsPrefix_inj)

text \<open>An attempted renewal that ends is counted once, whatever comes of it.\<close>

lemma renew_counted:
  assumes "renew_token D w = (Ok u, w')" "attached (heap w)"
  shows "incs VaultTokenRenewalTotal (events w') = Suc (incs VaultTokenRenewalTotal (events w))"
proof -
  define w1 where "w1 = log_info ''attempting token renewal''
      [FInt ''renewal_seconds'' (TokenRenewalSeconds (heap w))] w"
  obtain a w2 where a: "on_svc (RenewSelf D (api (heap w1)) (TokenRenewalSeconds (heap w1))) w1 = (a, w2)"
    by fastforce
  then have w2: "events w2 = events w1" "heap w2 = heap w"
    by (auto simp: on_svc_def w1_def split: prod.splits)
  show ?thesis
  proof (cases a)
    case (Inr s)
    with assms a w2 show ?thesis
      by (auto simp: renew_token_def Let_def w1_def)
  next
    case (Inl e)
    let ?w3 = "log_error ''failed to renew token, performing new authentication'' [FError e] w2"
    obtain b w4 where b: "call_AuthMethodFunc D ?w3 = (b, w4)" by fastforce
    have "events w4 = events ?w3"
      using call_frame(3) [OF b] assms(2) w2 by simp
    with Inl assms a w2 b show ?thesis
      by (cases b) (auto simp: renew_token_def Let_def w1_def)
  qed
qed

lemma check_counted:
  assumes "check_ttl D c t w = (Ok u, w')" "attached (heap w)"
  shows "incs VaultTokenRenewalTotal (events w')
      = incs VaultTokenRenewalTotal (events w) + (if t < half_f64 c then 1 else 0)"
  using assms renew_counted [of D _ u w']
  by (auto simp: check_ttl_def Let_def split: if_splits)

lemma renew_events:
  "renew_token D w = (r, w') \<Longrightarrow> attached (heap w) \<Longrightarrow> \<exists>es. events w' = events w @ es"
  using lease_steady.inv_renew_token [of D w r w' w] by (auto simp: steady_def)

lemma check_gauge:
  assumes "check_ttl D c t w = (r, w')" "attached (heap w)"
  shows "GaugeSet VaultTokenExpirySeconds t \<in> set (events w')"
  using assms renew_events [of D _ r w']
  by (force simp: check_ttl_def Let_def split: if_splits)

lemma check_skip:
  "check_ttl D c t w = (r, w') \<Longrightarrow> \<not> t < half_f64 c \<Longrightarrow> svc w' = svc w \<and> heap w' = heap w"
  by (auto simp: check_ttl_def Let_def)

subsection \<open>Keeping the token alive\<close>

text \<open>A client with a token that Vault accepts.\<close>

definition accepted :: "('c, 't, 'v) deps \<Rightarrow> 'c \<Rightarrow> 'v \<Rightarrow> bool" where
  "accepted D a v \<longleftrightarrow> (\<exists>s v'. LookupSelf D a v = (Inr (Some s), v'))"

text \<open>
  A Vault that answers: a lookup fails only with 401 or 403, for the token, and leaves the tokens as they are,
  a renewed token stays accepted, and the login \<open>m\<close> gets an accepted token.
\<close>

definition answering :: "('c, 't, 'v) deps \<Rightarrow> ('v \<Rightarrow> bool) \<Rightarrow> client_option \<Rightarrow> bool" where
  "answering D up m \<longleftrightarrow>
     (\<forall>a v r v'. up v \<longrightarrow> LookupSelf D a v = (r, v') \<longrightarrow> up v'
        \<and> (accepted D a v \<longrightarrow> accepted D a v')
        \<and> (case r of Inl e \<Rightarrow> as_response_error e \<in> {Some 401, Some 403} | Inr s \<Rightarrow> s \<noteq> None))
     \<and> (\<forall>a n v r v'. up v \<longrightarrow> RenewSelf D a n v = (r, v') \<longrightarrow> up v'
        \<and> (case r of Inl e \<Rightarrow> True | Inr s \<Rightarrow> accepted D a v \<longrightarrow> accepted D a v'))
     \<and> (\<forall>c w. up (svc w) \<longrightarrow>
          (\<exists>c' w'. apply_option D m c (w :: ('c client, 'v) world) = (Ok (), c', w')
             \<and> accepted D (api c') (svc w') \<and> up (svc w')))"

lemma answering_login:
  assumes "answering D up m" "AuthMethodFunc (heap w) = Some m" "up (svc w)"
  obtains w' where "call_AuthMethodFunc D w = (Ok (), w')" "accepted D (api (heap w')) (svc w')" "up (svc w')"
proof -
  from assms(1,3) obtain c w' where "apply_option D m (heap w) w = (Ok (), c, w')"
    "accepted D (api c) (svc w')" "up (svc w')"
    unfolding answering_def by blast
  with assms(2) that [of "w'\<lparr>heap := c\<rparr>"] show thesis by (simp add: call_AuthMethodFunc_def)
qed

lemma answering_lookup:
  assumes "answering D up m" "on_svc (LookupSelf D a) w = (r, w')" "up (svc w)"
  shows "accepted D a (svc w) \<Longrightarrow> accepted D a (svc w')" "up (svc w')" "heap w' = heap w"
    "r = Inl e \<Longrightarrow> isAuthError e" "r = Inr s \<Longrightarrow> s \<noteq> None \<and> accepted D a (svc w')"
proof -
  have l: "LookupSelf D a (svc w) = (r, svc w')" "heap w' = heap w"
    using assms(2) by (auto simp: on_svc_def split: prod.splits)
  with assms(1,3) have k: "up (svc w')" "accepted D a (svc w) \<longrightarrow> accepted D a (svc w')"
    "case r of Inl e \<Rightarrow> as_response_error e \<in> {Some 401, Some 403} | Inr s \<Rightarrow> s \<noteq> None"
    unfolding answering_def by blast+
  then show "accepted D a (svc w) \<Longrightarrow> accepted D a (svc w')" "up (svc w')" "heap w' = heap w"
    "r = Inl e \<Longrightarrow> isAuthError e" "r = Inr s \<Longrightarrow> s \<noteq> None \<and> accepted D a (svc w')"
    using l by (auto simp: accepted_def isAuthError_def)
qed

lemma answering_verify:
  assumes "answering D up m" "AuthMethodFunc (heap w) = Some m" "up (svc w)"
  obtains w' where "authenticateAndVerify D w = (Ok (), w')" "accepted D (api (heap w')) (svc w')" "up (svc w')"
proof -
  obtain v where l: "call_AuthMethodFunc D w = (Ok (), v)" "accepted D (api (heap v)) (svc v)" "up (svc v)"
    by (rule answering_login [OF assms])
  obtain r w2 where k: "on_svc (LookupSelf D (api (heap v))) v = (r, w2)" by fastforce
  have "\<exists>s. r = Inr (Some s)"
    using l(2) k by (auto simp: accepted_def on_svc_def)
  with l k answering_lookup [OF assms(1) k l(3)] that show thesis
    by (auto simp: authenticateAndVerify_def)
qed

lemma answering_renew:
  assumes "answering D up m" "AuthMethodFunc (heap w) = Some m" "accepted D (api (heap w)) (svc w)" "up (svc w)"
  obtains w' where "renew_token D w = (Ok (), w')" "accepted D (api (heap w')) (svc w')" "up (svc w')"
proof -
  let ?w = "log_info ''attempting token renewal'' [FInt ''renewal_seconds'' (TokenRenewalSeconds (heap w))] w"
  obtain r w1 where r: "on_svc (RenewSelf D (api (heap ?w)) (TokenRenewalSeconds (heap ?w))) ?w = (r, w1)"
    by fastforce
  then have s: "RenewSelf D (api (heap w)) (TokenRenewalSeconds (heap w)) (svc w) = (r, svc w1)" "heap w1 = heap w"
    by (auto simp: on_svc_def split: prod.splits)
  with assms(1,4) have k: "up (svc w1)"
    "case r of Inl e \<Rightarrow> True | Inr s \<Rightarrow> accepted D (api (heap w)) (svc w) \<longrightarrow> accepted D (api (heap w)) (svc w1)"
    unfolding answering_def by blast+
  show thesis
  proof (cases r)
    case (Inl e)
    let ?v = "log_error ''failed to renew token, performing new authentication'' [FError e] w1"
    have "AuthMethodFunc (heap ?v) = Some m" "up (svc ?v)" using s assms(2) k by simp_all
    then obtain v where "call_AuthMethodFunc D ?v = (Ok (), v)" "accepted D (api (heap v)) (svc v)" "up (svc v)"
      by (rule answering_login [OF assms(1)])
    with r Inl that show thesis by (simp add: renew_token_def Let_def)
  next
    case (Inr x)
    with r s k assms(3) that show thesis by (simp add: renew_token_def Let_def)
  qed
qed

lemma answering_check:
  assumes "answering D up m" "AuthMethodFunc (heap w) = Some m" "accepted D (api (heap w)) (svc w)" "up (svc w)"
  obtains w' where "check_ttl D c x w = (Ok (), w')" "accepted D (api (heap w')) (svc w')" "up (svc w')"
proof -
  let ?u = "log_info ''checking token renewal'' [FFloat ''creation_ttl'' c, FFloat ''ttl'' x]
      (emit (GaugeSet VaultTokenExpirySeconds x) w)"
  obtain w' where "renew_token D ?u = (Ok (), w')" "accepted D (api (heap w')) (svc w')" "up (svc w')"
    by (rule answering_renew [OF assms(1), of ?u]) (use assms in simp_all)
  with assms that show thesis by (cases "x < half_f64 c") (simp_all add: check_ttl_def Let_def)
qed

lemma answering_tick:
  assumes "answering D up m" "AuthMethodFunc (heap w) = Some m" "up (svc w)"
  obtains w' where "lease_tick D w = (Ok (), w')" "accepted D (api (heap w')) (svc w')" "up (svc w')"
proof -
  obtain r w1 where r: "on_svc (LookupSelf D (api (heap w))) w = (r, w1)" by fastforce
  note l = answering_lookup [OF assms(1) r assms(3)]
  show thesis
  proof (cases r)
    case (Inl e)
    let ?w = "log_error ''failed to lookup token, performing new authentication'' [FError e] w1"
    have "AuthMethodFunc (heap ?w) = Some m" "up (svc ?w)" using l(2,3) assms(2) by simp_all
    then obtain v where "authenticateAndVerify D ?w = (Ok (), v)" "accepted D (api (heap v)) (svc v)" "up (svc v)"
      by (rule answering_verify [OF assms(1)])
    with r l(4) Inl that show thesis by (simp add: lease_tick_def lookup_failed_def)
  next
    case (Inr s)
    then obtain t where t: "r = Inr (Some t)" and a: "accepted D (api (heap w1)) (svc w1)" using l by auto
    have m: "AuthMethodFunc (heap w1) = Some m" using l(3) assms(2) by simp
    have c: "fst (check_ttl D c x w1) = Ok () \<and> accepted D (api (heap (snd (check_ttl D c x w1))))
        (svc (snd (check_ttl D c x w1))) \<and> up (svc (snd (check_ttl D c x w1)))" for c x
      by (rule answering_check [OF assms(1) m a l(2), of c x]) simp
    have "fst (lease_tick D w) = Ok () \<and> accepted D (api (heap (snd (lease_tick D w))))
        (svc (snd (lease_tick D w))) \<and> up (svc (snd (lease_tick D w)))"
      using r t a c l(2) by (simp add: lease_tick_def split: option.split sum.split)
    then show thesis using that by (metis prod.collapse)
  qed
qed

lemma answering_loop:
  assumes "answering D up m" "logs_in m" "AuthMethodFunc (heap w) = Some m" "up (svc w)"
    and "accepted D (api (heap w)) (svc w) \<or> (\<exists>evs'. evs = TickerFired # evs')"
  shows "fst (refresh_loop D evs w) = (if ContextDone \<in> set evs then Returned else Waiting)
    \<and> accepted D (api (heap (snd (refresh_loop D evs w)))) (svc (snd (refresh_loop D evs w)))"
  using assms(3-5)
proof (induction evs arbitrary: w)
  case (Cons ev evs)
  show ?case
  proof (cases ev)
    case TickerFired
    obtain w1 where t: "lease_tick D w = (Ok (), w1)" "accepted D (api (heap w1)) (svc w1)" "up (svc w1)"
      by (rule answering_tick [OF assms(1) Cons.prems(1,2)])
    have "attached (heap w)" using Cons.prems(1) assms(2) by (simp add: attached_def)
    then have "AuthMethodFunc (heap w1) = Some m"
      using lease_tick_steady [OF t(1)] Cons.prems(1) by (simp add: steady_def)
    from Cons.IH [OF this t(3) disjI1 [OF t(2)]] t(1) TickerFired show ?thesis by simp
  next
    case ContextDone
    with Cons.prems show ?thesis by simp
  qed
qed simp

text \<open>What comes after the end of the context is not read.\<close>

lemma refresh_loop_Done:
  "refresh_loop D (pre @ ContextDone # post) w = refresh_loop D (pre @ [ContextDone]) w"
proof (induction pre arbitrary: w)
  case (Cons ev pre)
  show ?case
    using Cons.IH by (cases ev; cases "lease_tick D w"; cases "fst (lease_tick D w)") simp_all
qed simp

lemma refresh_loop_ends: "fst (refresh_loop D (pre @ ContextDone # post) w) \<noteq> Waiting"
proof (induction pre arbitrary: w)
  case (Cons ev pre)
  show ?case
    using Cons.IH by (cases ev; cases "lease_tick D w"; cases "fst (lease_tick D w)") simp_all
qed simp

end
