(* ===== verification/Demo_Vault.thy ===== *)
theory Demo_Vault
  imports Vault_Transit Vault_PEM Vault_Lease
begin

text \<open>
  A concrete Vault for the witnesses: an instance of the third-party record \<open>deps\<close> that evaluates,
  with one transit key \<open>kms\<close> under the mount \<open>transit\<close>, one token and a lease that can be
  renewed. It is the input of the witnesses only; no definition of the model uses it.
\<close>

record demo_api =
  demo_address :: string
  demo_namespace :: string
  demo_token :: string

record demo_state =
  demo_creation_ttl :: string
  demo_ttl :: string
  demo_alive :: bool

definition demo_secret :: "(string \<times> json) list \<Rightarrow> secret" where
  "demo_secret kvs = \<lparr>Data = map_of kvs, Auth = None\<rparr>"

definition demo_Write :: "demo_api \<Rightarrow> go_context \<Rightarrow> string \<Rightarrow> (string \<times> json) list \<Rightarrow> demo_state \<Rightarrow>
    (go_error + secret option) \<times> demo_state" where
  "demo_Write a ctx path d v =
     (if path = ''transit/encrypt/kms'' then
        (case assert_string (map_of d ''plaintext'') of
           Some pt \<Rightarrow> (Inr (Some (demo_secret [(''ciphertext'', JString (''vault:v1:'' @ pt))])), v)
         | None \<Rightarrow> (Inl (ErrResponse 400 ''bad request''), v))
      else if path = ''transit/decrypt/kms'' then
        (case assert_string (map_of d ''ciphertext'') of
           Some ct \<Rightarrow>
             if take 9 ct = ''vault:v1:''
             then (Inr (Some (demo_secret [(''plaintext'', JString (drop 9 ct))])), v)
             else (Inl (ErrResponse 400 ''invalid ciphertext''), v)
         | None \<Rightarrow> (Inl (ErrResponse 400 ''bad request''), v))
      else if path = ''auth/empty/login'' then (Inr None, v)
      else if path = ''auth/denied/login'' then (Inl (ErrResponse 403 ''permission denied''), v)
      else (Inr (Some \<lparr>Data = Map.empty, Auth = Some \<lparr>ClientToken = ''s.demo''\<rparr>\<rparr>),
            v\<lparr>demo_alive := True\<rparr>))"

definition demo_Read :: "demo_api \<Rightarrow> go_context \<Rightarrow> string \<Rightarrow> demo_state \<Rightarrow>
    (go_error + secret option) \<times> demo_state" where
  "demo_Read a ctx path v =
     (if path = ''transit/keys/kms''
      then (Inr (Some (demo_secret [(''latest_version'', JNumber ''1'')])), v) else (Inr None, v))"

definition demo_LookupSelf :: "demo_api \<Rightarrow> demo_state \<Rightarrow> (go_error + secret option) \<times> demo_state" where
  "demo_LookupSelf a v =
     (if demo_token a = ''s.demo'' \<and> demo_alive v
      then (Inr (Some (demo_secret [(''creation_ttl'', JNumber (demo_creation_ttl v)),
              (''ttl'', JNumber (demo_ttl v))])), v)
      else (Inl (ErrResponse 403 ''permission denied''), v))"

definition demo_RenewSelf :: "demo_api \<Rightarrow> int \<Rightarrow> demo_state \<Rightarrow>
    (go_error + secret option) \<times> demo_state" where
  "demo_RenewSelf a n v =
     (if demo_token a = ''s.demo'' \<and> demo_alive v
      then (Inr None, v\<lparr>demo_ttl := demo_creation_ttl v\<rparr>)
      else (Inl (ErrResponse 403 ''permission denied''), v))"

definition demo_deps :: "(demo_api, unit, demo_state) deps" where
  "demo_deps = \<lparr>
     DefaultConfig = (\<lambda>env. \<lparr>cfg_Address = ''https://127.0.0.1:8200'',
       cfg_HttpClient = NewWithTransport (BaseTransport ())\<rparr>),
     ConfigureTLS = (\<lambda>cfg tls s. (Inr cfg, s)),
     api_NewClient = (\<lambda>cfg env. Inr \<lparr>demo_address = cfg_Address cfg, demo_namespace = [], demo_token = []\<rparr>),
     SetAddress = (\<lambda>a s. (None, a\<lparr>demo_address := s\<rparr>)),
     Address = demo_address,
     SetNamespace = (\<lambda>a s. a\<lparr>demo_namespace := s\<rparr>),
     SetToken = (\<lambda>a s. a\<lparr>demo_token := s\<rparr>),
     Write = demo_Write,
     Read = demo_Read,
     LookupSelf = demo_LookupSelf,
     RenewSelf = demo_RenewSelf,
     spiffeid_FromString = (\<lambda>s. if has_prefix ''spiffe://'' s then Inr (SpiffeID s)
                              else Inl (ErrNew ''scheme is missing or invalid'')),
     FetchJWTSVID = (\<lambda>ctx ps addr v. (Inr \<lparr>Marshal = ''jwt-svid''\<rparr>, v))\<rparr>"

definition demo_os :: os_state where
  "demo_os = \<lparr>os_files = Map.empty, os_calls = 0, os_fault = (\<lambda>op n. None), os_draws = 0,
     os_random = (\<lambda>n. show_nat n), os_tempdir = ''/tmp''\<rparr>"

definition demo_client :: "demo_api client" where
  "demo_client = (fresh_client \<lparr>demo_address = ''https://127.0.0.1:8200'', demo_namespace = [],
     demo_token = ''s.demo''\<rparr>)
     \<lparr>Token := ''s.demo'', AuthMethodFunc := Some (WithTokenAuth ''s.demo''), TokenRenewalSeconds := 3600,
      TransitEngine := ''transit'', TransitKey := ''kms''\<rparr>"

definition demo_world :: "(demo_api client, demo_state) world" where
  "demo_world = \<lparr>heap = demo_client,
     svc = \<lparr>demo_creation_ttl = ''3600'', demo_ttl = ''600'', demo_alive = True\<rparr>,
     os = demo_os, env_vars = Map.empty, events = []\<rparr>"

text \<open>The ciphertexts the demo decrypts.\<close>

definition demo_known :: "string \<Rightarrow> string \<Rightarrow> demo_state \<Rightarrow> bool" where
  "demo_known ct pt v \<longleftrightarrow> ct = ''vault:v1:'' @ pt"

lemmas demo_defs = demo_deps_def demo_Write_def demo_Read_def demo_LookupSelf_def demo_RenewSelf_def
  demo_secret_def demo_os_def demo_client_def demo_world_def fresh_client_def

lemma demo_transit_service:
  "transit_service demo_deps a ''transit'' ''kms'' (\<lambda>v. True) demo_known"
  by (simp add: transit_service_def transit_encrypts_def transit_decrypts_def transit_reports_def
      keeps_def demo_known_def demo_deps_def demo_Write_def demo_Read_def demo_secret_def
      encryptDataPath_def decryptDataPath_def transitKeyPath_def)

lemma demo_ready:
  "transit_service demo_deps (api (heap demo_world)) (TransitEngine (heap demo_world))
     (TransitKey (heap demo_world)) (\<lambda>v. True) demo_known"
  using demo_transit_service by (simp add: demo_world_def demo_client_def fresh_client_def)

subsection \<open>A combined PEM file\<close>

text \<open>A file with one certificate and one key, on the file system of the demo.\<close>

definition demo_cert :: pem_block where
  "demo_cert = \<lparr>pem_Type = ''CERTIFICATE'', pem_Headers = [], pem_Bytes = ''c''\<rparr>"

definition demo_key :: pem_block where
  "demo_key = \<lparr>pem_Type = ''PRIVATE KEY'', pem_Headers = [], pem_Bytes = ''k''\<rparr>"

definition demo_pem_world :: "(demo_api client, demo_state) world" where
  "demo_pem_world = demo_world\<lparr>os := demo_os\<lparr>os_files :=
     [''/pem'' \<mapsto> RegularFile (concat (map pem_EncodeToMemory [demo_cert, demo_key]))]\<rparr>\<rparr>"

lemma demo_split:
  "parseCombinedPEM ''/pem'' (os demo_pem_world)
     = (Inr (pem_EncodeToMemory demo_cert, pem_EncodeToMemory demo_key), next_call (os demo_pem_world))"
proof -
  have "list_all plain_block [demo_cert, demo_key]"
    by (simp add: plain_block_def demo_cert_def demo_key_def)
  from pem_split [OF this] show ?thesis
    by (simp add: parseCombinedPEM_def os_ReadFile_def call_fault_def demo_pem_world_def demo_os_def
        pem_file_def demo_cert_def demo_key_def)
qed

lemma demo_split_file:
  "\<exists>cert key s. ParseCombinedPEMFile ''/pem'' (os demo_pem_world) = (Inr (cert, key, [cert, key]), s)"
  unfolding ParseCombinedPEMFile_def demo_split
  by (simp add: CreateTemp_first os_Write_def call_fault_def next_call_def
      temp_name_def demo_pem_world_def demo_os_def Let_def)

end
