(* ===== verification/Vault_Properties.thy ===== *)
theory Vault_Properties
  imports Demo_Vault
begin

text \<open>
  What is proved of \<open>pkg/vault\<close>: the requests of the transit operations and of the logins, what a
  login and the refresher do to the client, and the split PEM files. Every theorem is a few steps over
  the lemmas of its component; the witnesses run on \<open>Demo_Vault\<close>.
\<close>

section \<open>The transit engine\<close>


text \<open>
  C28. An encryption or a decryption crashes exactly when Vault answers it with nothing and no error;
  reading the key version never crashes.
\<close>

theorem transit_crashes:
  fixes w :: "('h, 'v) world"
  shows "(is_Panic (fst (client_Encrypt D c ctx x w)) \<longleftrightarrow>
     fst (Write D (api c) ctx (encryptDataPath (TransitEngine c) (TransitKey c))
       [(''plaintext'', JString (b64_encode StdEncoding x))] (svc w)) = Inr None)
   \<and> (is_Panic (fst (client_Decrypt D c ctx y w)) \<longleftrightarrow>
     fst (Write D (api c) ctx (decryptDataPath (TransitEngine c) (TransitKey c))
       [(''ciphertext'', JString y)] (svc w)) = Inr None)
   \<and> \<not> is_Panic (fst (client_GetKeyVersion D c ctx w))"
proof -
  have v: "client_GetKeyVersion D c ctx u \<noteq> (Panic k, u')" for k and u u' :: "('h, 'v) world"
    by (auto simp: client_GetKeyVersion_def split: prod.splits sum.splits option.splits)
  then have "\<not> is_Panic (fst (client_GetKeyVersion D c ctx w))"
    by (metis is_Panic_iff prod.collapse)
  then show ?thesis
    using v
    by (auto simp: client_Encrypt_def client_Decrypt_def on_svc_def Let_def is_Panic_iff
      split: prod.splits sum.splits option.splits outcome.splits)
qed

section \<open>Logging in\<close>

text \<open>
  C19. \<open>NewClient\<close> as the plugin calls it: a client it returns is configured as asked, its token was
  looked up at Vault after the login, and the method it remembers does at any later time what the
  option it was given does.
\<close>

theorem new_client_verified:
  assumes "NewClient D [WithVaultAddress addr, WithVaultNamespace ns, WithTransit mount key,
      WithTokenRenewalSeconds n, m] w = (Ok c, w')"
    and "logs_in m"
  shows "TransitEngine c = mount \<and> TransitKey c = key \<and> TokenRenewalSeconds c = n
    \<and> (\<exists>v s. LookupSelf D (api c) v = (Inr s, svc w'))
    \<and> (\<exists>m'. AuthMethodFunc c = Some m' \<and> (\<forall>c2 w2. apply_option D m' c2 w2 = apply_option D m c2 w2))"
proof -
  obtain v s where "config_of c = (mount, key, n)" "AuthMethodFunc c = Some (remembered D m)"
    "LookupSelf D (api c) v = (Inr s, svc w')"
    by (rule NewClient_configured [OF assms])
  then show ?thesis
    using remembered_same [of D m] by (auto simp: config_of_def)
qed

theorem new_client_verified_witness:
  "\<exists>c w'. NewClient demo_deps [WithVaultAddress ''https://vault:8200'', WithVaultNamespace ''ns'',
      WithTransit ''transit'' ''kms'', WithTokenRenewalSeconds 3600,
      WithAppRoleAuth ''approle'' ''role'' ''secret''] demo_world = (Ok c, w')
    \<and> TransitKey c = ''kms'' \<and> (\<exists>v s. LookupSelf demo_deps (api c) v = (Inr s, svc w'))"
proof -
  let ?n = "NewClient demo_deps [WithVaultAddress ''https://vault:8200'', WithVaultNamespace ''ns'',
      WithTransit ''transit'' ''kms'', WithTokenRenewalSeconds 3600,
      WithAppRoleAuth ''approle'' ''role'' ''secret''] demo_world"
  have "is_Ok (fst ?n)"
    by (simp add: NewClient_def demo_defs login_defs on_svc_def appRoleAuthLoginPath_def remember_def)
  then obtain c w' where n: "?n = (Ok c, w')"
    by (metis is_Ok_iff prod.collapse)
  have "logs_in (WithAppRoleAuth ''approle'' ''role'' ''secret'')" by simp
  from new_client_verified [OF n this] n show ?thesis by blast
qed

text \<open>
  C27. Which logins can crash on Vault's answer: AppRole and UserPass exactly when Vault answers the
  request without an error and without a token, a JWT login (over either token source) never.
\<close>

theorem empty_login_answers:
  "(is_Panic (fst (apply_option D (WithAppRoleAuth mount role sec) c w)) \<longleftrightarrow>
     (\<exists>s. fst (Write D (api c) Background (''auth/'' @ mount @ ''/login'')
         [(''role_id'', JString role), (''secret_id'', JString sec)] (svc w)) = Inr s
       \<and> client_token s = None))
   \<and> (is_Panic (fst (apply_option D (WithUserPassAuth mount user pw) c w)) \<longleftrightarrow>
     (\<exists>s. fst (Write D (api c) Background (''auth/'' @ mount @ ''/login/'' @ path_escape user)
         [(''password'', JString pw)] (svc w)) = Inr s \<and> client_token s = None))
   \<and> \<not> is_Panic (fst (apply_option D (WithJWTTokenSource mount role src) c w))
   \<and> \<not> is_Panic (fst (apply_option D (WithSPIFFEJWTAuth mount role ep aud sid) c w))"
  by (simp_all add: any_source.login_no_panic approle_login_def userpass_login_def
      appRoleAuthLoginPath_def userPassAuthLoginPath_def Let_def use_login_panic split: sum.split)



text \<open>
  The user name of a UserPass login is one segment of the request path: names that differ give
  paths that differ, and no name adds a slash.
\<close>

theorem userpass_path_segment:
  "(userPassAuthLoginPath mount (path_escape u) = userPassAuthLoginPath mount (path_escape u') \<longleftrightarrow> u = u')
   \<and> CHR ''/'' \<notin> set (path_escape u)
   \<and> userPassAuthLoginPath mount (path_escape u) = ''auth/'' @ mount @ ''/login/'' @ path_escape u"
  using path_escape_inj path_escape_chars [of "CHR ''/''" u] path_escape_chars [of "CHR ''/''" u']
  by (auto simp: userPassAuthLoginPath_def path_segment_char_def)


text \<open>
  C38. A certificate login succeeds exactly through a client of its own: the default configuration with
  the address of the first client and the given certificate. Of the first client it keeps nothing
  else, so the login does not go to the namespace the first client was given.
\<close>

theorem cert_login_request:
  "apply_option D (WithCertAuth mount role cf kf ca) c w = (Ok (), c', w') \<longleftrightarrow>
     (\<exists>cfg os' a s v t.
        ConfigureTLS D ((DefaultConfig D (env_vars w))\<lparr>cfg_Address := Address D (api c)\<rparr>)
          \<lparr>ClientCert = cf, ClientKey = kf, CACert = ca\<rparr> (os w) = (Inr cfg, os')
        \<and> api_NewClient D cfg (env_vars w) = Inr a
        \<and> Write D a Background (''auth/'' @ mount @ ''/login'') [(''name'', JString role)] (svc w) = (Inr s, v)
        \<and> client_token s = Some t
        \<and> c' = remember (WithCertAuth mount role cf kf ca)
            (c\<lparr>CertAuthMount := mount, CertRole := role, CertFile := cf, CertKey := kf,
               api := SetToken D (api c) t\<rparr>)
        \<and> w' = w\<lparr>os := os', svc := v\<rparr>)"
  by (auto simp: cert_login_def use_login_def on_os_def on_svc_def Let_def
      certAuthLoginPath_def split: prod.splits sum.splits option.splits)

section \<open>The lease of the token\<close>


lemma demo_attached: "attached (heap demo_world)"
  by (simp add: attached_def demo_defs)




text \<open>
  C10. While Vault answers, the refresher keeps the plugin logged in: from its first tick on, whatever
  state the token was in, each tick ends with a token Vault accepts, and the loop goes on until the
  context is done.
\<close>

theorem refresher_keeps_token:
  assumes "answering D up m" "logs_in m" "AuthMethodFunc (heap w) = Some m" "up (svc w)" "0 < interval"
  shows "fst (LeaseRefresher D interval (TickerFired # evs) w)
      = (if ContextDone \<in> set evs then Returned else Waiting)
    \<and> (let w' = snd (LeaseRefresher D interval (TickerFired # evs) w) in accepted D (api (heap w')) (svc w'))"
  using answering_loop [OF assms(1-4), of "TickerFired # evs"] assms(5)
  by (simp add: LeaseRefresher_def Let_def)

lemma demo_accepted: "accepted demo_deps a v \<longleftrightarrow> demo_token a = ''s.demo'' \<and> demo_alive v"
  by (simp add: accepted_def demo_deps_def demo_LookupSelf_def)

lemma demo_answering: "answering demo_deps (\<lambda>v. True) (WithAppRoleAuth ''approle'' role sec)"
  unfolding answering_def demo_accepted
proof (intro conjI allI impI)
  fix a v r v' assume "LookupSelf demo_deps a v = (r, v')"
  then show "case r of Inl e \<Rightarrow> as_response_error e \<in> {Some 401, Some 403} | Inr s \<Rightarrow> s \<noteq> None"
    and "demo_token a = ''s.demo'' \<and> demo_alive v \<Longrightarrow> demo_token a = ''s.demo''"
    and "demo_token a = ''s.demo'' \<and> demo_alive v \<Longrightarrow> demo_alive v'"
    by (auto simp: demo_deps_def demo_LookupSelf_def split: if_splits)
next
  fix a n v r v' assume "RenewSelf demo_deps a n v = (r, v')"
  then show "case r of Inl e \<Rightarrow> True | Inr s \<Rightarrow> demo_token a = ''s.demo'' \<and> demo_alive v \<longrightarrow>
      demo_token a = ''s.demo'' \<and> demo_alive v'"
    by (auto simp: demo_deps_def demo_RenewSelf_def split: if_splits)
next
  fix c :: "demo_api client" and w :: "(demo_api client, demo_state) world"
  show "\<exists>c' w'. apply_option demo_deps (WithAppRoleAuth ''approle'' role sec) c w = (Ok (), c', w')
      \<and> (demo_token (api c') = ''s.demo'' \<and> demo_alive (svc w')) \<and> True"
    by (simp add: demo_deps_def demo_Write_def login_defs on_svc_def appRoleAuthLoginPath_def remember_def)
qed simp_all

definition demo_revoked :: "(demo_api client, demo_state) world" where
  "demo_revoked = demo_world
     \<lparr>heap := demo_client\<lparr>AuthMethodFunc := Some (WithAppRoleAuth ''approle'' ''role'' ''secret'')\<rparr>,
      svc := (svc demo_world)\<lparr>demo_alive := False\<rparr>\<rparr>"

theorem refresher_keeps_token_witness:
  "\<not> accepted demo_deps (api (heap demo_revoked)) (svc demo_revoked)
   \<and> (let w' = snd (LeaseRefresher demo_deps 60 [TickerFired, TickerFired] demo_revoked)
      in accepted demo_deps (api (heap w')) (svc w'))"
proof -
  have m: "AuthMethodFunc (heap demo_revoked) = Some (WithAppRoleAuth ''approle'' ''role'' ''secret'')"
    and r: "\<not> demo_alive (svc demo_revoked)"
    by (simp_all add: demo_revoked_def)
  have l: "logs_in (WithAppRoleAuth ''approle'' ''role'' ''secret'')" by simp
  have i: "(0 :: int) < 60" by simp
  from refresher_keeps_token [OF demo_answering l m TrueI i, of "[TickerFired]"] r show ?thesis
    by (simp add: demo_accepted)
qed

text \<open>
  Once the context is done the refresher has returned (or crashed before), and reads no further
  tick.
\<close>

theorem refresher_stops:
  "fst (LeaseRefresher D interval (pre @ ContextDone # post) w) \<noteq> Waiting
   \<and> LeaseRefresher D interval (pre @ ContextDone # post) w = LeaseRefresher D interval (pre @ [ContextDone]) w"
  using refresh_loop_Done [of D pre post w] refresh_loop_ends [of D pre post w]
  by (simp add: LeaseRefresher_def)

text \<open>
  A turn of the refresher leaves the shared client as it is unless Vault refused the token (with
  401 or 403) or failed to renew it; any other failing lookup (a network error, a sealed Vault)
  does not log in again.
\<close>

theorem login_only_on_refusal:
  "heap (snd (lease_tick D w)) = heap w
   \<or> (\<exists>e. fst (LookupSelf D (api (heap w)) (svc w)) = Inl e \<and> isAuthError e)
   \<or> (\<exists>s v e. LookupSelf D (api (heap w)) (svc w) = (Inr (Some s), v)
        \<and> fst (RenewSelf D (api (heap w)) (TokenRenewalSeconds (heap w)) v) = Inl e)"
proof -
  obtain x w1 where x: "on_svc (LookupSelf D (api (heap w))) w = (x, w1)" by fastforce
  then have w1: "LookupSelf D (api (heap w)) (svc w) = (x, svc w1)" "heap w1 = heap w"
    by (auto simp: on_svc_def split: prod.splits)
  then show ?thesis
    using x
    by (auto simp: lease_tick_def lookup_failed_def check_ttl_def renew_token_def Let_def on_svc_def
        split: sum.splits option.splits if_splits prod.splits)
qed

section \<open>Combined PEM files\<close>

text \<open>
  C23. A file of PEM blocks is split exactly: all certificates in their order, all private keys of the
  three supported types in theirs, any other block dropped; an error names the kind that is missing.
\<close>

theorem pem_split_exact:
  assumes "os_ReadFile path s = (Inr (concat (map pem_EncodeToMemory bs)), s')" "list_all plain_block bs"
  shows "parseCombinedPEM path s =
    (if filter is_cert_block bs = [] then Inl (ErrNew (''no CERTIFICATE block found in '' @ path))
     else if filter is_key_block bs = [] then Inl (ErrNew (''no PRIVATE KEY block found in '' @ path))
     else Inr (concat (map pem_EncodeToMemory (filter is_cert_block bs)),
               concat (map pem_EncodeToMemory (filter is_key_block bs))), s')"
  using assms by (simp add: parseCombinedPEM_def pem_split pem_file_def)

theorem pem_split_exact_witness:
  "parseCombinedPEM ''/pem'' (os demo_pem_world)
     = (Inr (pem_EncodeToMemory demo_cert, pem_EncodeToMemory demo_key), next_call (os demo_pem_world))"
proof -
  have r: "os_ReadFile ''/pem'' (os demo_pem_world)
      = (Inr (concat (map pem_EncodeToMemory [demo_cert, demo_key])), next_call (os demo_pem_world))"
    by (simp add: os_ReadFile_def call_fault_def demo_pem_world_def demo_os_def)
  have b: "list_all plain_block [demo_cert, demo_key]"
    by (simp add: plain_block_def demo_cert_def demo_key_def)
  have "is_cert_block demo_cert" "\<not> is_cert_block demo_key" "is_key_block demo_key" "\<not> is_key_block demo_cert"
    by (simp_all add: demo_cert_def demo_key_def)
  with pem_split_exact [OF r b] show ?thesis by simp
qed

text \<open>
  C22. Splitting a file leaves the two new files with the certificates and the keys, which the clean-up
  removes, or, when any of its steps fails, no trace at all.
\<close>

theorem pem_no_leftovers:
  assumes "ParseCombinedPEMFile path s = (r, s')" "removes s"
  shows "case r of
      Inl e \<Rightarrow> os_files s' = os_files s
    | Inr (certF, keyF, files) \<Rightarrow>
        (\<exists>c k. fst (parseCombinedPEM path s) = Inr (c, k) \<and> certF \<noteq> keyF
           \<and> os_files s certF = None \<and> os_files s keyF = None
           \<and> os_files s' = (os_files s)(certF := Some (RegularFile c), keyF := Some (RegularFile k))
           \<and> os_files (remove_all files s') = os_files s)"
  using PEM_file_created [OF assms] PEM_cleanup [OF _ assms(2)] assms(1)
  by (auto simp: created_def fun_eq_iff simp del: remove_all.simps split: sum.splits)

theorem pem_no_leftovers_witness:
  "\<exists>cert key s. ParseCombinedPEMFile ''/pem'' (os demo_pem_world) = (Inr (cert, key, [cert, key]), s)
     \<and> os_files s key = Some (RegularFile (pem_EncodeToMemory demo_key))"
proof -
  obtain cert key s where f: "ParseCombinedPEMFile ''/pem'' (os demo_pem_world) = (Inr (cert, key, [cert, key]), s)"
    using demo_split_file by blast
  have "removes (os demo_pem_world)" by (simp add: removes_def demo_pem_world_def demo_os_def)
  from pem_no_leftovers [OF f this] f demo_split show ?thesis by auto
qed

end
