(* ===== verification/Logging.thy ===== *)
theory Logging
  imports KMS_Prelude
begin

text \<open>
  \<open>pkg/logging\<close>: the configuration of the logger, as the record \<open>zap.Config\<close> the code fills in. \<open>Build\<close>
  is zap's and an argument: it gives an error or a logger, whose calls are the events of the model.
\<close>

record sampling_config =
  Initial :: int
  Thereafter :: int

datatype level_encoder = LowercaseLevelEncoder
datatype time_encoder = ISO8601TimeEncoder
datatype duration_encoder = SecondsDurationEncoder
datatype caller_encoder = ShortCallerEncoder

record encoder_config =
  TimeKey :: string
  LevelKey :: string
  NameKey :: string
  CallerKey :: string
  MessageKey :: string
  StacktraceKey :: string
  EncodeLevel :: level_encoder
  EncodeTime :: time_encoder
  EncodeDuration :: duration_encoder
  EncodeCaller :: caller_encoder

record zap_config =
  zap_Level :: level
  Development :: bool
  Sampling :: sampling_config
  Encoding :: string
  EncoderConfig :: encoder_config
  OutputPaths :: "string list"
  ErrorOutputPaths :: "string list"

definition NewStandardLogger :: "(zap_config \<Rightarrow> go_error option) \<Rightarrow> level \<Rightarrow> go_error option" where
  "NewStandardLogger Build logLevel = Build
     \<lparr>zap_Level = logLevel,
      Development = False,
      Sampling = \<lparr>Initial = 100, Thereafter = 100\<rparr>,
      Encoding = ''json'',
      EncoderConfig =
        \<lparr>TimeKey = ''timestamp'',
         LevelKey = ''level'',
         NameKey = ''logger'',
         CallerKey = ''caller'',
         MessageKey = ''message'',
         StacktraceKey = ''stacktrace'',
         EncodeLevel = LowercaseLevelEncoder,
         EncodeTime = ISO8601TimeEncoder,
         EncodeDuration = SecondsDurationEncoder,
         EncodeCaller = ShortCallerEncoder\<rparr>,
      OutputPaths = [''stdout''],
      ErrorOutputPaths = [''stderr'']\<rparr>"

end
