(* ===== verification/Go_Duration.thy ===== *)
theory Go_Duration
  imports Go_Float
begin

text \<open>
  Go's \<open>time.ParseDuration\<close>, which reads the interval of the lease refresher: a signed sequence of
  decimal numbers with units. The sum is kept in a \<open>uint64\<close>, so it is written modulo \<open>2 ^ 64\<close>; a
  fraction goes through \<open>float64\<close>.
\<close>

definition time_quote :: "string \<Rightarrow> string" where
  "time_quote s = ''\"'' @ concat (map (\<lambda>c.
     if (of_char c :: nat) < 32 \<or> 128 \<le> (of_char c :: nat)
       then [CHR 0x5C, CHR ''x'', ''0123456789abcdef'' ! (of_char c div 16),
             ''0123456789abcdef'' ! (of_char c mod 16)]
     else if c = CHR 0x22 \<or> c = CHR 0x5C then [CHR 0x5C, c]
     else [c]) s) @ ''\"''"

definition invalid_duration :: "string \<Rightarrow> go_error" where
  "invalid_duration orig = ErrNew (''time: invalid duration '' @ time_quote orig)"

text \<open>\<open>unitMap\<close>: nanoseconds per unit; the micro sign comes as U+00B5 and as U+03BC.\<close>

definition unitMap :: "string \<Rightarrow> nat option" where
  "unitMap = map_of
     [(''ns'', 1), (''us'', 1000), ([CHR 0xC2, CHR 0xB5, CHR ''s''], 1000),
      ([CHR 0xCE, CHR 0xBC, CHR ''s''], 1000), (''ms'', 1000000), (''s'', 1000000000),
      (''m'', 60000000000), (''h'', 3600000000000)]"

text \<open>\<open>leadingInt\<close>: the leading digits, refused beyond \<open>2 ^ 63\<close>.\<close>

fun leadingInt :: "nat \<Rightarrow> string \<Rightarrow> (nat \<times> string) option" where
  "leadingInt x [] = Some (x, [])"
| "leadingInt x (c # s) =
     (if \<not> is_digit c then Some (x, c # s)
      else if 2 ^ 63 div 10 < x then None
      else (let x' = x * 10 + digit_value c in if 2 ^ 63 < x' then None else leadingInt x' s))"

text \<open>\<open>leadingFraction\<close>: digits that no longer fit are read over; the scale is a power of ten.\<close>

fun leadingFraction :: "bool \<Rightarrow> nat \<Rightarrow> nat \<Rightarrow> string \<Rightarrow> nat \<times> nat \<times> string" where
  "leadingFraction overflow x scale [] = (x, scale, [])"
| "leadingFraction overflow x scale (c # s) =
     (if \<not> is_digit c then (x, scale, c # s)
      else if overflow then leadingFraction overflow x scale s
      else if (2 ^ 63 - 1) div 10 < x then leadingFraction True x scale s
      else (let y = x * 10 + digit_value c in
            if 2 ^ 63 < y then leadingFraction True x scale s
            else leadingFraction False y (scale * 10) s))"

definition fraction_value :: "nat \<Rightarrow> nat \<Rightarrow> nat \<Rightarrow> nat" where
  "fraction_value f scale unit =
     nat \<lfloor>round_f64 (round_f64 (of_nat f) * round_f64 (of_nat unit / of_nat scale))\<rfloor>"

definition unit_char :: "char \<Rightarrow> bool" where
  "unit_char c \<longleftrightarrow> c \<noteq> CHR ''.'' \<and> \<not> is_digit c"

text \<open>One number with its unit, in nanoseconds, and what follows it.\<close>

definition duration_segment :: "string \<Rightarrow> string \<Rightarrow> go_error + nat \<times> string" where
  "duration_segment orig s =
     (if s = [] \<or> unit_char (hd s) then Inl (invalid_duration orig)
      else case leadingInt 0 s of
        None \<Rightarrow> Inl (invalid_duration orig)
      | Some (v, s1) \<Rightarrow>
          (let pre = (length s1 \<noteq> length s);
               (f, scale, s2) = (if s1 \<noteq> [] \<and> hd s1 = CHR ''.'' then leadingFraction False 0 1 (tl s1)
                                 else (0, 1, s1));
               post = (s1 \<noteq> [] \<and> hd s1 = CHR ''.'' \<and> length s2 \<noteq> length (tl s1));
               u = takeWhile unit_char s2; s3 = dropWhile unit_char s2
           in if \<not> pre \<and> \<not> post then Inl (invalid_duration orig)
              else if u = [] then Inl (ErrNew (''time: missing unit in duration '' @ time_quote orig))
              else case unitMap u of
                None \<Rightarrow> Inl (ErrNew (''time: unknown unit '' @ time_quote u @ '' in duration '' @ time_quote orig))
              | Some unit \<Rightarrow>
                  if 2 ^ 63 div unit < v then Inl (invalid_duration orig)
                  else if f = 0 then Inr (v * unit, s3)
                  else (let d = v * unit + fraction_value f scale unit in
                        if 2 ^ 63 < d then Inl (invalid_duration orig) else Inr (d, s3))))"

lemma leadingInt_length: "leadingInt x s = Some (y, r) \<Longrightarrow> length r \<le> length s"
  by (induction x s rule: leadingInt.induct) (auto simp: Let_def split: if_splits)

lemma leadingFraction_length: "leadingFraction b x sc s = (y, sc', r) \<Longrightarrow> length r \<le> length s"
  by (induction b x sc s rule: leadingFraction.induct) (auto simp: Let_def split: if_splits)

lemma le_div_mult: "v \<le> (n :: nat) div u \<Longrightarrow> v * u \<le> n"
  by (metis div_times_less_eq_dividend mult_le_mono1 order_trans)

lemma dropWhile_shorter: "takeWhile P s \<noteq> [] \<Longrightarrow> length (dropWhile P s) < length s"
  by (cases s) (auto simp: length_dropWhile_le less_Suc_eq_le split: if_splits)

lemma duration_segment_shorter:
  assumes "duration_segment orig s = Inr (d, r)"
  shows "length r < length s" "d \<le> 2 ^ 63"
proof -
  obtain v s1 where v: "leadingInt 0 s = Some (v, s1)"
    using assms by (auto simp: duration_segment_def split: if_splits option.splits)
  obtain f scale s2 where f: "(if s1 \<noteq> [] \<and> hd s1 = CHR ''.'' then leadingFraction False 0 1 (tl s1)
      else (0, 1, s1)) = (f, scale, s2)"
    by (metis prod_cases3)
  have "length s2 \<le> length s1"
    using f leadingFraction_length [of False 0 1 "tl s1"] by (cases s1) (auto split: if_splits)
  with leadingInt_length [OF v] have len: "length s2 \<le> length s" by simp
  have u: "takeWhile unit_char s2 \<noteq> []" and r: "r = dropWhile unit_char s2" and d: "d \<le> 2 ^ 63"
    using assms v f
    by (auto simp: duration_segment_def Let_def not_less dest: le_div_mult
        split: if_splits option.splits)
  from len dropWhile_shorter [OF u] show "length r < length s" unfolding r by simp
  from d show "d \<le> 2 ^ 63" .
qed

function duration_loop :: "string \<Rightarrow> string \<Rightarrow> nat \<Rightarrow> go_error + nat" where
  "duration_loop orig s d =
     (if s = [] then Inr d
      else case duration_segment orig s of
        Inl e \<Rightarrow> Inl e
      | Inr (v, r) \<Rightarrow>
          (let d' = (d + v) mod 2 ^ 64 in
           if 2 ^ 63 < d' then Inl (invalid_duration orig) else duration_loop orig r d'))"
  by pat_completeness auto

termination
  by (relation "measure (\<lambda>(orig, s, d). length s)") (auto dest: duration_segment_shorter(1))

declare duration_loop.simps [simp del]

definition ParseDuration :: "string \<Rightarrow> go_error + int" where
  "ParseDuration orig =
     (let signed = (orig \<noteq> [] \<and> hd orig \<in> {CHR ''-'', CHR ''+''});
          neg = (orig \<noteq> [] \<and> hd orig = CHR ''-'');
          s = (if signed then tl orig else orig)
      in if s = ''0'' then Inr 0
         else if s = [] then Inl (invalid_duration orig)
         else case duration_loop orig s 0 of
           Inl e \<Rightarrow> Inl e
         | Inr d \<Rightarrow>
             if neg then Inr (- int d)
             else if 2 ^ 63 - 1 < d then Inl (invalid_duration orig)
             else Inr (int d))"

subsection \<open>Range\<close>

lemma duration_loop_bound: "d \<le> 2 ^ 63 \<Longrightarrow> duration_loop orig s d = Inr x \<Longrightarrow> x \<le> 2 ^ 63"
proof (induction orig s d rule: duration_loop.induct)
  case (1 orig s d)
  show ?case
  proof (cases "s = []")
    case True
    with 1(2,3) show ?thesis by (simp add: duration_loop.simps [of orig "[]"])
  next
    case False
    with 1(3) obtain v r where vr: "duration_segment orig s = Inr (v, r)"
      "\<not> 2 ^ 63 < (d + v) mod 2 ^ 64" "duration_loop orig r ((d + v) mod 2 ^ 64) = Inr x"
      by (auto simp: duration_loop.simps [of orig s] Let_def split: sum.splits if_splits)
    from 1(1) [OF False vr(1) refl refl vr(2)] vr show ?thesis by simp
  qed
qed

text \<open>A parsed duration is an \<open>int64\<close>.\<close>

lemma ParseDuration_range: "ParseDuration s = Inr d \<Longrightarrow> - (2 ^ 63) \<le> d \<and> d < 2 ^ 63"
  using duration_loop_bound [of 0]
  by (force simp: ParseDuration_def Let_def split: if_splits sum.splits)

subsection \<open>Whole numbers of a unit\<close>

lemma digits_grow: "x \<le> foldl (\<lambda>n c. 10 * n + digit_value c) x ds"
proof (induction ds arbitrary: x)
  case (Cons c ds)
  have "x \<le> 10 * x + digit_value c" by simp
  also have "\<dots> \<le> foldl (\<lambda>n c. 10 * n + digit_value c) x (c # ds)"
    using Cons [of "10 * x + digit_value c"] by simp
  finally show ?case .
qed simp

lemma leadingInt_digits:
  "list_all is_digit ds \<Longrightarrow> s = [] \<or> \<not> is_digit (hd s) \<Longrightarrow> x \<le> 2 ^ 63 \<Longrightarrow>
     leadingInt x (ds @ s) =
       (let v = foldl (\<lambda>n c. 10 * n + digit_value c) x ds in if v \<le> 2 ^ 63 then Some (v, s) else None)"
proof (induction ds arbitrary: x)
  case Nil
  then show ?case by (cases s) auto
next
  case (Cons c ds)
  let ?x = "10 * x + digit_value c"
  have g: "?x \<le> foldl (\<lambda>n c. 10 * n + digit_value c) ?x ds" by (rule digits_grow)
  show ?case
  proof (cases "?x \<le> 2 ^ 63")
    case True
    then have "\<not> 2 ^ 63 div 10 < x" by simp
    with True Cons show ?thesis by (simp add: Let_def mult.commute)
  next
    case False
    with g Cons(2) show ?thesis by (simp add: Let_def mult.commute)
  qed
qed

lemma duration_loop_Nil [simp]: "duration_loop orig [] d = Inr d"
  by (simp add: duration_loop.simps [of orig "[]"])

text \<open>
  A whole number with one of the units is read as that many nanoseconds when they fit an \<open>int64\<close>, and
  refused when they do not.
\<close>

lemma unitMap_units:
  assumes "unitMap u = Some unit"
  shows "u \<noteq> []" "takeWhile unit_char u = u" "dropWhile unit_char u = []" "0 < unit" "u \<noteq> ''0''"
    "\<not> is_digit (hd u)" "hd u \<noteq> CHR ''.''"
  using assms by (auto simp: unitMap_def unit_char_def is_digit_def split: if_splits)

lemma duration_segment_whole:
  assumes "unitMap u = Some unit"
  shows "duration_segment orig (show_nat n @ u) =
    (if n * unit \<le> 2 ^ 63 then Inr (n * unit, []) else Inl (invalid_duration orig))"
proof -
  note u = unitMap_units [OF assms]
  have "list_all is_digit (show_nat n)" by (rule show_nat_digits)
  then have hd: "\<not> unit_char (hd (show_nat n @ u))"
    by (cases "show_nat n") (auto simp: unit_char_def)
  have l: "leadingInt 0 (show_nat n @ u) = (if n \<le> 2 ^ 63 then Some (n, u) else None)"
    using leadingInt_digits [OF show_nat_digits, of u 0 n] u(6)
      digits_value_show_nat [of n, unfolded digits_value_def] by (simp add: Let_def)
  have big: "n * unit \<le> 2 ^ 63 \<longleftrightarrow> \<not> 2 ^ 63 div unit < n"
    using u(4) by (simp add: not_less less_eq_div_iff_mult_less_eq)
  have n: "n * unit \<le> 2 ^ 63 \<Longrightarrow> n \<le> 2 ^ 63"
    using u(4) by (metis dual_order.trans le_add1 mult.commute mult_eq_if not_less_zero)
  show ?thesis
    using hd assms n u(1,4,7) big by (auto simp: duration_segment_def l Let_def u(2,3))
qed

lemma ParseDuration_whole:
  assumes "unitMap u = Some unit"
  shows "ParseDuration (show_nat n @ u) =
    (if n * unit < 2 ^ 63 then Inr (int (n * unit)) else Inl (invalid_duration (show_nat n @ u)))"
proof -
  note u = unitMap_units [OF assms]
  obtain c r where cr: "show_nat n = c # r" by (cases "show_nat n") auto
  with show_nat_digits [of n] have c: "is_digit c" by simp
  then have sign: "c \<noteq> CHR ''-''" "c \<noteq> CHR ''+''" by (auto simp: is_digit_def)
  have z: "show_nat n @ u \<noteq> ''0''"
    using u(1,5) by (cases r) (auto simp: cr append_eq_Cons_conv)
  have "duration_loop (show_nat n @ u) (show_nat n @ u) 0 =
      (if n * unit \<le> 2 ^ 63 then Inr (n * unit) else Inl (invalid_duration (show_nat n @ u)))"
    using duration_segment_whole [OF assms, of "show_nat n @ u" n]
    by (simp add: duration_loop.simps [of _ "show_nat n @ u"] Let_def)
  then show ?thesis
    using sign z u(1) by (simp add: ParseDuration_def Let_def cr)
qed

end
