(* ===== verification/Plugin_Options.thy ===== *)
theory Plugin_Options
  imports Vault_Client Go_Duration
begin

text \<open>
  The options of \<open>cmd/plugin.go\<close>: the struct, its validation and the JWT part of the login. What
  the validation demands is stated without its order of cases by \<open>complete_options\<close>.
\<close>

record options =
  o_Socket :: string
  o_ForceSocketOverwrite :: bool
  o_Debug :: bool
  o_VaultAddress :: string
  o_VaultNamespace :: string
  o_VaultCACert :: string
  o_AuthMethod :: string
  o_Token :: string
  o_AppRoleRoleID :: string
  o_AppRoleRoleSecretID :: string
  o_AppRoleMount :: string
  o_UserPassUsername :: string
  o_UserPassPassword :: string
  o_UserPassMount :: string
  o_CertAuthMount :: string
  o_CertAuthRole :: string
  o_CertFile :: string
  o_CertKey :: string
  o_CertPEM :: string
  o_JWTRole :: string
  o_JWTMount :: string
  o_JWTTokenPath :: string
  o_JWTTokenSource :: string
  o_JWTSpiffeEndpoint :: string
  o_JWTSpiffeAudience :: string
  o_JWTSpiffeID :: string
  o_TokenRefreshInterval :: string
  o_TokenRenewalSeconds :: int
  o_TransitKey :: string
  o_TransitMount :: string
  o_HealthPort :: string
  o_DisableV1 :: bool
  o_DisableV2 :: bool
  o_Version :: bool

text \<open>\<open>&Options{}\<close>.\<close>

definition zero_options :: options where
  "zero_options = \<lparr>o_Socket = [], o_ForceSocketOverwrite = False, o_Debug = False, o_VaultAddress = [],
     o_VaultNamespace = [], o_VaultCACert = [], o_AuthMethod = [], o_Token = [], o_AppRoleRoleID = [],
     o_AppRoleRoleSecretID = [], o_AppRoleMount = [], o_UserPassUsername = [], o_UserPassPassword = [],
     o_UserPassMount = [], o_CertAuthMount = [], o_CertAuthRole = [], o_CertFile = [], o_CertKey = [],
     o_CertPEM = [], o_JWTRole = [], o_JWTMount = [], o_JWTTokenPath = [], o_JWTTokenSource = [],
     o_JWTSpiffeEndpoint = [], o_JWTSpiffeAudience = [], o_JWTSpiffeID = [], o_TokenRefreshInterval = [],
     o_TokenRenewalSeconds = 0, o_TransitKey = [], o_TransitMount = [], o_HealthPort = [],
     o_DisableV1 = False, o_DisableV2 = False, o_Version = False\<rparr>"

definition certAuthMethod :: string where "certAuthMethod = ''cert''"

definition jwtAuthMethod :: string where "jwtAuthMethod = ''jwt''"

definition jwtTokenSourceFile :: string where "jwtTokenSourceFile = ''file''"

definition jwtTokenSourceSPIFFE :: string where "jwtTokenSourceSPIFFE = ''spiffe''"

definition auth_methods :: "string list" where
  "auth_methods = [''token'', ''approle'', ''userpass'', jwtAuthMethod, certAuthMethod]"

subsection \<open>Validation\<close>

text \<open>An error is \<open>Some\<close>, nil is \<open>None\<close>.\<close>

definition validateJWTFlags :: "('c, 't, 'v) deps \<Rightarrow> options \<Rightarrow> go_error option" where
  "validateJWTFlags D opts =
     (if o_JWTRole opts = [] then Some (ErrNew ''jwt role required when using jwt auth'')
      else if o_JWTTokenSource opts = jwtTokenSourceFile then
        (if o_JWTTokenPath opts = []
         then Some (ErrNew ''jwt token path required when using file jwt token source'') else None)
      else if o_JWTTokenSource opts = jwtTokenSourceSPIFFE then
        (if o_JWTSpiffeAudience opts = []
         then Some (ErrNew ''jwt spiffe audience required when using spiffe jwt token source'')
         else if o_JWTSpiffeID opts = []
         then Some (ErrNew ''jwt spiffe id required when using spiffe jwt token source'')
         else case spiffeid_FromString D (o_JWTSpiffeID opts) of
           Inl e \<Rightarrow> Some (ErrWrap ''invalid jwt spiffe id'' e)
         | Inr sid \<Rightarrow> None)
      else Some (ErrNew ''invalid jwt token source. Supported: file, spiffe''))"

definition validateFlags :: "('c, 't, 'v) deps \<Rightarrow> options \<Rightarrow> go_error option" where
  "validateFlags D opts =
     (let authMethod = to_lower (o_AuthMethod opts) in
      if o_VaultAddress opts = [] then Some (ErrNew ''vault address required'')
      else if authMethod \<notin> set auth_methods
      then Some (ErrNew ''invalid auth method. Supported: token, approle, userpass, cert, jwt'')
      else if authMethod = ''token'' \<and> o_Token opts = []
      then Some (ErrNew ''token required when using token auth'')
      else if authMethod = ''approle'' \<and> (o_AppRoleRoleID opts = [] \<or> o_AppRoleRoleSecretID opts = [])
      then Some (ErrNew ''approle role id and secret id required when using approle auth'')
      else if authMethod = ''userpass'' \<and> (o_UserPassUsername opts = [] \<or> o_UserPassPassword opts = [])
      then Some (ErrNew ''userpass username and password required when using userpass auth'')
      else if authMethod = certAuthMethod \<and> o_CertAuthRole opts = []
      then Some (ErrNew ''cert-role required when using cert auth'')
      else if authMethod = certAuthMethod \<and> o_CertPEM opts = [] \<and> (o_CertFile opts = [] \<or> o_CertKey opts = [])
      then Some (ErrNew ''cert auth requires either --cert-pem or both --cert-file and --cert-key'')
      else if o_DisableV1 opts \<and> o_DisableV2 opts
      then Some (ErrNew ''at least one kms plugin version must be enabled'')
      else case (if authMethod = jwtAuthMethod then validateJWTFlags D opts else None) of
        Some e \<Rightarrow> Some e
      | None \<Rightarrow>
          (case ParseDuration (o_TokenRefreshInterval opts) of
             Inl e \<Rightarrow> Some (ErrWrap ''invalid token refresh interval'' e)
           | Inr d \<Rightarrow> None))"

subsection \<open>The JWT login\<close>

definition jwtAuthOption :: "options \<Rightarrow> client_option" where
  "jwtAuthOption opts =
     (if o_JWTTokenSource opts = jwtTokenSourceFile
      then WithJWTAuth (o_JWTMount opts) (o_JWTRole opts) (o_JWTTokenPath opts)
      else WithSPIFFEJWTAuth (o_JWTMount opts) (o_JWTRole opts) (o_JWTSpiffeEndpoint opts)
             (o_JWTSpiffeAudience opts) (o_JWTSpiffeID opts))"

definition jwtLogFields :: "options \<Rightarrow> log_field list" where
  "jwtLogFields opts =
     [FString ''jwt-mount'' (o_JWTMount opts), FString ''jwt-role'' (o_JWTRole opts),
      FString ''jwt-token-source'' (o_JWTTokenSource opts)]
     @ (if o_JWTTokenSource opts = jwtTokenSourceSPIFFE
        then [FString ''jwt-spiffe-endpoint'' (o_JWTSpiffeEndpoint opts),
              FString ''jwt-spiffe-audience'' (o_JWTSpiffeAudience opts),
              FString ''jwt-spiffe-id'' (o_JWTSpiffeID opts)]
        else [])"

subsection \<open>What validation demands\<close>

text \<open>The credentials of one login method are complete.\<close>

definition jwt_complete :: "('c, 't, 'v) deps \<Rightarrow> options \<Rightarrow> bool" where
  "jwt_complete D opts \<longleftrightarrow> o_JWTRole opts \<noteq> [] \<and>
     (o_JWTTokenSource opts = ''file'' \<and> o_JWTTokenPath opts \<noteq> [] \<or>
      o_JWTTokenSource opts = ''spiffe'' \<and> o_JWTSpiffeAudience opts \<noteq> [] \<and> o_JWTSpiffeID opts \<noteq> []
        \<and> (\<exists>sid. spiffeid_FromString D (o_JWTSpiffeID opts) = Inr sid))"

definition credentials_complete :: "('c, 't, 'v) deps \<Rightarrow> options \<Rightarrow> bool" where
  "credentials_complete D opts \<longleftrightarrow>
     (let am = to_lower (o_AuthMethod opts) in
      am = ''token'' \<and> o_Token opts \<noteq> []
      \<or> am = ''approle'' \<and> o_AppRoleRoleID opts \<noteq> [] \<and> o_AppRoleRoleSecretID opts \<noteq> []
      \<or> am = ''userpass'' \<and> o_UserPassUsername opts \<noteq> [] \<and> o_UserPassPassword opts \<noteq> []
      \<or> am = ''cert'' \<and> o_CertAuthRole opts \<noteq> []
          \<and> (o_CertPEM opts \<noteq> [] \<or> o_CertFile opts \<noteq> [] \<and> o_CertKey opts \<noteq> [])
      \<or> am = ''jwt'' \<and> jwt_complete D opts)"

definition complete_options :: "('c, 't, 'v) deps \<Rightarrow> options \<Rightarrow> bool" where
  "complete_options D opts \<longleftrightarrow>
     o_VaultAddress opts \<noteq> [] \<and> credentials_complete D opts \<and> \<not> (o_DisableV1 opts \<and> o_DisableV2 opts)
     \<and> (\<exists>d. ParseDuration (o_TokenRefreshInterval opts) = Inr d)"

lemmas option_words = certAuthMethod_def jwtAuthMethod_def jwtTokenSourceFile_def
  jwtTokenSourceSPIFFE_def auth_methods_def

lemma validateJWTFlags_None: "validateJWTFlags D opts = None \<longleftrightarrow> jwt_complete D opts"
  by (auto simp: validateJWTFlags_def jwt_complete_def option_words split: sum.splits)

lemma validate_interval:
  "(case ParseDuration s of Inl e \<Rightarrow> Some (f e) | Inr d \<Rightarrow> None) = None
     \<longleftrightarrow> (\<exists>d. ParseDuration s = Inr d)"
  by (auto split: sum.splits)

lemma validateFlags_None: "validateFlags D opts = None \<longleftrightarrow> complete_options D opts"
proof -
  have "to_lower (o_AuthMethod opts) \<in> set auth_methods \<or> to_lower (o_AuthMethod opts) \<notin> set auth_methods"
    by simp
  then consider "to_lower (o_AuthMethod opts) = ''token''" | "to_lower (o_AuthMethod opts) = ''approle''"
    | "to_lower (o_AuthMethod opts) = ''userpass''" | "to_lower (o_AuthMethod opts) = ''cert''"
    | "to_lower (o_AuthMethod opts) = ''jwt''" | "to_lower (o_AuthMethod opts) \<notin> set auth_methods"
    by (auto simp: option_words)
  then show ?thesis
    by cases
      (auto simp: validateFlags_def complete_options_def credentials_complete_def option_words Let_def
        validate_interval simp flip: validateJWTFlags_None split: option.splits)
qed

end
