(* ===== verification/Go_Flag.thy ===== *)
theory Go_Flag
  imports Go_Strings
begin

text \<open>
  Go's \<open>flag.FlagSet\<close> as the plugin uses it: string, boolean and integer flags with a target in a
  record of options, and \<open>Parse\<close> with the default error handling (the error is returned).
  The text of the usage message goes to the standard error and is not modelled.
\<close>

subsection \<open>Numbers and booleans\<close>

definition ParseBool :: "string \<Rightarrow> bool option" where
  "ParseBool s =
     (if s \<in> {''1'', ''t'', ''T'', ''TRUE'', ''true'', ''True''} then Some True
      else if s \<in> {''0'', ''f'', ''F'', ''FALSE'', ''false'', ''False''} then Some False
      else None)"

datatype number_failure = SyntaxFailure | RangeFailure

definition lower_letter :: "char \<Rightarrow> nat" where
  "lower_letter c = (let n = of_char c in if 65 \<le> n \<and> n \<le> 90 then n + 32 else n)"

text \<open>The value of a digit or letter; \<open>None\<close> for any other byte.\<close>

definition any_digit :: "char \<Rightarrow> nat option" where
  "any_digit c =
     (if is_digit c then Some (digit_value c)
      else if 97 \<le> lower_letter c \<and> lower_letter c \<le> 122 then Some (lower_letter c - 87)
      else None)"

text \<open>The digits in a base, with underscores read over; the first failure is the one reported.\<close>

fun uint_digits :: "nat \<Rightarrow> nat \<Rightarrow> string \<Rightarrow> number_failure + nat" where
  "uint_digits base n [] = Inr n"
| "uint_digits base n (c # s) =
     (if c = CHR ''_'' then uint_digits base n s
      else case any_digit c of
        None \<Rightarrow> Inl SyntaxFailure
      | Some d \<Rightarrow>
          if base \<le> d then Inl SyntaxFailure
          else if 2 ^ 64 \<le> n * base + d then Inl RangeFailure
          else uint_digits base (n * base + d) s)"

definition base_prefix :: "string \<Rightarrow> nat \<times> string" where
  "base_prefix s =
     (if s \<noteq> [] \<and> hd s = CHR ''0'' then
        (if 3 \<le> length s \<and> lower_letter (s ! 1) = of_char (CHR ''b'') then (2, drop 2 s)
         else if 3 \<le> length s \<and> lower_letter (s ! 1) = of_char (CHR ''o'') then (8, drop 2 s)
         else if 3 \<le> length s \<and> lower_letter (s ! 1) = of_char (CHR ''x'') then (16, drop 2 s)
         else (8, drop 1 s))
      else (10, s))"

text \<open>Underscores separate digits, one may follow a base prefix. \<open>saw\<close> is the kind of the last byte.\<close>

datatype saw = SawStart | SawDigit | SawUnderscore | SawOther

fun underscores :: "bool \<Rightarrow> saw \<Rightarrow> string \<Rightarrow> bool" where
  "underscores hex prev [] = (prev \<noteq> SawUnderscore)"
| "underscores hex prev (c # s) =
     (if is_digit c \<or> hex \<and> 97 \<le> lower_letter c \<and> lower_letter c \<le> 102 then underscores hex SawDigit s
      else if c = CHR ''_'' then prev = SawDigit \<and> underscores hex SawUnderscore s
      else prev \<noteq> SawUnderscore \<and> underscores hex SawOther s)"

definition underscoreOK :: "string \<Rightarrow> bool" where
  "underscoreOK s =
     (if 2 \<le> length s \<and> hd s = CHR ''0''
         \<and> lower_letter (s ! 1) \<in> {of_char (CHR ''b''), of_char (CHR ''o''), of_char (CHR ''x'')}
      then underscores (lower_letter (s ! 1) = of_char (CHR ''x'')) SawDigit (drop 2 s)
      else underscores False SawStart s)"

text \<open>\<open>strconv.ParseUint(s, 0, 64)\<close> and \<open>strconv.ParseInt(s, 0, 64)\<close>.\<close>

definition ParseUint :: "string \<Rightarrow> number_failure + nat" where
  "ParseUint s =
     (if s = [] then Inl SyntaxFailure
      else (let (base, ds) = base_prefix s in
            case uint_digits base 0 ds of
              Inl f \<Rightarrow> Inl f
            | Inr n \<Rightarrow> if CHR ''_'' \<in> set ds \<and> \<not> underscoreOK s then Inl SyntaxFailure else Inr n))"

definition ParseInt :: "string \<Rightarrow> number_failure + int" where
  "ParseInt s =
     (let neg = (s \<noteq> [] \<and> hd s = CHR ''-'');
          u = (if s \<noteq> [] \<and> hd s \<in> {CHR ''-'', CHR ''+''} then tl s else s)
      in case ParseUint u of
           Inl f \<Rightarrow> Inl f
         | Inr n \<Rightarrow>
             if \<not> neg \<and> 2 ^ 63 \<le> n then Inl RangeFailure
             else if neg \<and> 2 ^ 63 < n then Inl RangeFailure
             else Inr (if neg then - int n else int n))"

subsection \<open>Flags\<close>

datatype 'a flag_var =
    StringVar "string \<Rightarrow> 'a \<Rightarrow> 'a"
  | BoolVar "bool \<Rightarrow> 'a \<Rightarrow> 'a"
  | IntVar "int \<Rightarrow> 'a \<Rightarrow> 'a"

fun number_failure_text :: "number_failure \<Rightarrow> string" where
  "number_failure_text SyntaxFailure = ''parse error''"
| "number_failure_text RangeFailure = ''value out of range''"

text \<open>What one step of the parser does: it stops, fails, or sets a target and goes on.\<close>

datatype 'a flag_step = FlagsEnd | FlagsFail go_error | FlagsNext 'a "string list"

text \<open>\<open>name=value\<close>; the equals sign cannot be first.\<close>

definition flag_name_value :: "string \<Rightarrow> string \<times> string option" where
  "flag_name_value name =
     (let n = hd name # takeWhile (\<lambda>c. c \<noteq> CHR ''='') (tl name);
          r = dropWhile (\<lambda>c. c \<noteq> CHR ''='') (tl name)
      in if r = [] then (name, None) else (n, Some (tl r)))"

definition set_flag :: "string \<Rightarrow> 'a flag_var \<Rightarrow> string option \<Rightarrow> string list \<Rightarrow> 'a \<Rightarrow> 'a flag_step" where
  "set_flag name v val args a =
     (case v of
        BoolVar put \<Rightarrow>
          (case ParseBool (case val of None \<Rightarrow> ''true'' | Some x \<Rightarrow> x) of
             Some b \<Rightarrow> FlagsNext (put b a) args
           | None \<Rightarrow> FlagsFail (ErrNew (case val of
                 Some x \<Rightarrow> ''invalid boolean value '' @ go_quote x @ '' for -'' @ name @ '': parse error''
               | None \<Rightarrow> ''invalid boolean flag '' @ name @ '': parse error'')))
      | _ \<Rightarrow>
          (case (case val of Some x \<Rightarrow> Some (x, args)
                 | None \<Rightarrow> (case args of [] \<Rightarrow> None | x # r \<Rightarrow> Some (x, r))) of
             None \<Rightarrow> FlagsFail (ErrNew (''flag needs an argument: -'' @ name))
           | Some (x, r) \<Rightarrow>
               (case v of
                  StringVar put \<Rightarrow> FlagsNext (put x a) r
                | IntVar put \<Rightarrow>
                    (case ParseInt x of
                       Inr n \<Rightarrow> FlagsNext (put n a) r
                     | Inl f \<Rightarrow> FlagsFail (ErrNew (''invalid value '' @ go_quote x @ '' for flag -'' @ name
                         @ '': '' @ number_failure_text f)))
                | BoolVar put \<Rightarrow> FlagsEnd)))"

definition ErrHelp :: go_error where "ErrHelp = ErrNew ''flag: help requested''"

definition parseOne :: "(string \<times> 'a flag_var) list \<Rightarrow> string \<Rightarrow> string list \<Rightarrow> 'a \<Rightarrow> 'a flag_step" where
  "parseOne formal s args a =
     (if length s < 2 \<or> hd s \<noteq> CHR ''-'' then FlagsEnd
      else if s = ''--'' then FlagsEnd
      else (let name = (if s ! 1 = CHR ''-'' then drop 2 s else drop 1 s) in
        if name = [] \<or> hd name = CHR ''-'' \<or> hd name = CHR ''=''
        then FlagsFail (ErrNew (''bad flag syntax: '' @ s))
        else (let (n, val) = flag_name_value name in
          case map_of formal n of
            None \<Rightarrow> FlagsFail (if n = ''help'' \<or> n = ''h'' then ErrHelp
                       else ErrNew (''flag provided but not defined: -'' @ n))
          | Some v \<Rightarrow> set_flag n v val args a)))"

lemma parseOne_shorter: "parseOne formal s args a = FlagsNext a' r \<Longrightarrow> length r \<le> length args"
  by (auto simp: parseOne_def set_flag_def Let_def
      split: if_splits prod.splits option.splits flag_var.splits list.splits sum.splits)

function flag_Parse :: "(string \<times> 'a flag_var) list \<Rightarrow> string list \<Rightarrow> 'a \<Rightarrow> go_error + 'a" where
  "flag_Parse formal args a =
     (case args of
        [] \<Rightarrow> Inr a
      | s # rest \<Rightarrow>
          (case parseOne formal s rest a of
             FlagsEnd \<Rightarrow> Inr a
           | FlagsFail e \<Rightarrow> Inl e
           | FlagsNext a' rest' \<Rightarrow> flag_Parse formal rest' a'))"
  by pat_completeness auto

termination
  by (relation "measure (\<lambda>(formal, args, a). length args)") (auto dest: parseOne_shorter)

declare flag_Parse.simps [simp del]

subsection \<open>Effect\<close>

text \<open>A parse that succeeds only calls targets of the table: what they all keep is kept.\<close>

fun flag_keeps :: "('a \<Rightarrow> bool) \<Rightarrow> 'a flag_var \<Rightarrow> bool" where
  "flag_keeps P (StringVar put) = (\<forall>x a. P a \<longrightarrow> P (put x a))"
| "flag_keeps P (BoolVar put) = (\<forall>x a. P a \<longrightarrow> P (put x a))"
| "flag_keeps P (IntVar put) = (\<forall>x a. P a \<longrightarrow> P (put x a))"

lemma parseOne_keeps:
  assumes "parseOne formal s args a = FlagsNext a' r" "P a" "\<forall>v \<in> snd ` set formal. flag_keeps P v"
  shows "P a'"
proof -
  from assms(1) obtain n val v where n: "map_of formal n = Some v" "set_flag n v val args a = FlagsNext a' r"
    by (auto simp: parseOne_def Let_def split: if_splits prod.splits option.splits)
  from n(1) have "flag_keeps P v"
    using assms(3) map_of_SomeD by force
  with n(2) assms(2) show ?thesis
    by (cases v) (auto simp: set_flag_def split: option.splits list.splits sum.splits)
qed

lemma flag_Parse_keeps:
  "flag_Parse formal args a = Inr a' \<Longrightarrow> P a \<Longrightarrow> \<forall>v \<in> snd ` set formal. flag_keeps P v \<Longrightarrow> P a'"
proof (induction formal args a rule: flag_Parse.induct)
  case (1 formal args a)
  show ?case
  proof (cases args)
    case Nil
    with 1(2,3) show ?thesis by (simp add: flag_Parse.simps [of formal "[]"])
  next
    case (Cons s rest)
    show ?thesis
    proof (cases "parseOne formal s rest a")
      case (FlagsNext a1 r)
      with 1(2) Cons have "flag_Parse formal r a1 = Inr a'"
        by (simp add: flag_Parse.simps [of formal "s # rest"])
      with 1(1) [OF Cons FlagsNext] parseOne_keeps [OF FlagsNext] 1(3,4) show ?thesis by blast
    qed (use 1(2,3) Cons in \<open>simp_all add: flag_Parse.simps [of formal "s # rest"]\<close>)
  qed
qed

text \<open>\<open>--name=value\<close> calls the target of \<open>name\<close> with \<open>value\<close> and goes on.\<close>

definition flag_word :: "string \<Rightarrow> bool" where
  "flag_word n \<longleftrightarrow> n \<noteq> [] \<and> hd n \<noteq> CHR ''-'' \<and> CHR ''='' \<notin> set n"

lemma flag_name_value_eq:
  assumes "flag_word n"
  shows "flag_name_value (n @ CHR ''='' # x) = (n, Some x)"
proof -
  obtain c r where n: "n = c # r" "CHR ''='' \<notin> set r" using assms by (cases n) (auto simp: flag_word_def)
  have "takeWhile (\<lambda>c. c \<noteq> CHR ''='') (r @ CHR ''='' # x) = r"
    "dropWhile (\<lambda>c. c \<noteq> CHR ''='') (r @ CHR ''='' # x) = CHR ''='' # x"
    using n(2) by (induction r) auto
  with n show ?thesis by (simp add: flag_name_value_def Let_def)
qed

lemma flag_Parse_string:
  assumes "flag_word n" "map_of formal n = Some (StringVar put)"
  shows "flag_Parse formal ((''--'' @ n @ ''='' @ x) # args) a = flag_Parse formal args (put x a)"
proof -
  have "parseOne formal (''--'' @ n @ ''='' @ x) args a = FlagsNext (put x a) args"
    using assms flag_name_value_eq [OF assms(1), of x]
    by (cases n) (auto simp: parseOne_def flag_word_def set_flag_def Let_def)
  then show ?thesis by (simp add: flag_Parse.simps [of formal "_ # args"])
qed

end
