(* ===== verification/Socket_Endpoint.thy ===== *)
theory Socket_Endpoint
  imports Go_World Go_Strings
begin

text \<open>
  \<open>pkg/socket\<close>: the endpoint \<open>unix://path\<close> and the listener. \<open>Listen\<close> is what the code does on the
  file system before it calls the network package and the call itself.
\<close>

record Socket =
  Network :: string
  Path :: string

definition NewSocket :: "string \<Rightarrow> Socket outcome" where
  "NewSocket str =
     (let parsed =
        (if has_prefix ''unix://'' (to_lower str) then
           (let s = split_n2 str ''://''
            in if length s < 2 then Panic SliceOutOfRange
               else if s ! 1 \<noteq> [] then Ok \<lparr>Network = s ! 0, Path = s ! 1\<rparr>
               else Ok \<lparr>Network = [], Path = []\<rparr>)
         else Ok \<lparr>Network = [], Path = []\<rparr>)
      in case parsed of
           Ok socket \<Rightarrow> if Path socket = [] then Err (ErrNew ''path missing'') else Ok socket
         | Err e \<Rightarrow> Err e
         | Panic k \<Rightarrow> Panic k)"

definition Listen :: "Socket \<Rightarrow> bool \<Rightarrow> ('h, 'v) world \<Rightarrow>
    (go_error + string) \<times> ('h, 'v) world" where
  "Listen s force w =
     (case on_os (os_Stat (Path s)) w of
        (Inl e, w1) \<Rightarrow> on_os (net_Listen (Network s) (Path s)) w1
      | (Inr st, w1) \<Rightarrow>
          (let w2 = log_info ''Socket already exists'' [FString ''path'' (Path s)] w1 in
           if force then
             (case on_os (os_Remove (Path s)) w2 of
                (Some e, w3) \<Rightarrow> (Inl (ErrWrap ''failed to remove unix socket'' e), w3)
              | (None, w3) \<Rightarrow>
                  on_os (net_Listen (Network s) (Path s))
                    (log_info ''Socket overwrite is enabled. Successfully removed socket''
                      [FString ''path'' (Path s)] w3))
           else on_os (net_Listen (Network s) (Path s)) w2))"

subsection \<open>Parsing\<close>

lemma low_chars: "(of_char (CHR '':'') :: nat) < 65" "(of_char (CHR ''/'') :: nat) < 65"
  by simp_all

lemma endpoint_split:
  "has_prefix ''unix://'' (to_lower str) \<longleftrightarrow> (\<exists>net path. str = net @ ''://'' @ path \<and> to_lower net = ''unix'')"
proof
  assume "has_prefix ''unix://'' (to_lower str)"
  then obtain r where "to_lower str = ''unix'' @ CHR '':'' # ''//'' @ r"
    by (auto simp: has_prefix_iff)
  from to_lower_split_low [OF low_chars(1) _ this] obtain net b
    where 1: "str = net @ CHR '':'' # b" "to_lower net = ''unix''" "to_lower b = [] @ CHR ''/'' # ''/'' @ r"
    by auto
  from to_lower_split_low [OF low_chars(2) _ 1(3)] obtain a c
    where 2: "b = a @ CHR ''/'' # c" "to_lower a = []" "to_lower c = [] @ CHR ''/'' # r"
    by auto
  from to_lower_split_low [OF low_chars(2) _ 2(3)] obtain a' path
    where 3: "c = a' @ CHR ''/'' # path" "to_lower a' = []"
    by auto
  have "a = []" "a' = []"
    using 2(2) 3(2) by (cases a; cases a'; auto split: if_splits)+
  with 1 2 3 show "\<exists>net path. str = net @ ''://'' @ path \<and> to_lower net = ''unix''"
    by auto
next
  assume "\<exists>net path. str = net @ ''://'' @ path \<and> to_lower net = ''unix''"
  then obtain net path where "str = net @ ''://'' @ path" "to_lower net = ''unix''" by blast
  then have "to_lower str = ''unix://'' @ to_lower path"
    using to_lower_append_low [OF low_chars(1), of net "''//'' @ path"]
      to_lower_append_low [OF low_chars(2), of "[]"] by simp
  then show "has_prefix ''unix://'' (to_lower str)" by simp
qed

lemma endpoint_cut:
  assumes "str = net @ ''://'' @ path" "to_lower net = ''unix''"
  shows "split_n2 str ''://'' = [net, path]"
proof -
  have "CHR '':'' \<notin> set net"
  proof
    assume "CHR '':'' \<in> set net"
    then obtain a b where "net = a @ CHR '':'' # b" by (meson split_list)
    then have "CHR '':'' \<in> set (to_lower net)"
      using to_lower_append_low [OF low_chars(1), of a b] by simp
    with assms(2) show False by simp
  qed
  from cut_first [OF this, of "''//''" path] show ?thesis
    by (simp add: assms(1) split_n2_def)
qed

lemma NewSocket_Ok:
  "NewSocket str = Ok s \<longleftrightarrow>
     str = Network s @ ''://'' @ Path s \<and> to_lower (Network s) = ''unix'' \<and> Path s \<noteq> []"
proof (cases "has_prefix ''unix://'' (to_lower str)")
  case True
  then obtain net path where np: "str = net @ ''://'' @ path" "to_lower net = ''unix''"
    using endpoint_split by blast
  note c = endpoint_cut [OF np]
  have parsed: "NewSocket str = (if path = [] then Err (ErrNew ''path missing'') else Ok \<lparr>Network = net, Path = path\<rparr>)"
    by (simp add: NewSocket_def True c Let_def)
  have "str = Network s @ ''://'' @ Path s \<and> to_lower (Network s) = ''unix'' \<longleftrightarrow> Network s = net \<and> Path s = path"
    using np c endpoint_cut [of str "Network s" "Path s"] by (metis list.inject)
  then show ?thesis
    unfolding parsed by (cases s) auto
next
  case False
  then show ?thesis
    using endpoint_split [of str] by (auto simp: NewSocket_def Let_def)
qed

text \<open>The index of the split is always there: the parser does not panic.\<close>

lemma NewSocket_no_panic: "\<not> is_Panic (NewSocket str)"
proof (cases "has_prefix ''unix://'' (to_lower str)")
  case True
  then obtain net path where "str = net @ ''://'' @ path" "to_lower net = ''unix''"
    using endpoint_split by blast
  from endpoint_cut [OF this] True show ?thesis
    by (simp add: NewSocket_def Let_def)
qed (simp add: NewSocket_def)

subsection \<open>Listening\<close>

lemma os_Stat_files [simp]: "os_files (snd (os_Stat p s)) = os_files s" "os_fault (snd (os_Stat p s)) = os_fault s"
  by (auto simp: os_Stat_def next_call_def split: option.splits prod.splits)

lemma os_Remove_files:
  "os_files (snd (os_Remove p s)) = (os_files s)(p := os_files (snd (os_Remove p s)) p)"
  "os_fault (snd (os_Remove p s)) = os_fault s"
  by (auto simp: os_Remove_def next_call_def fun_eq_iff split: option.splits prod.splits node.splits list.splits)

lemma net_Listen_files:
  "os_files (snd (net_Listen n p s)) = (os_files s)(p := os_files (snd (net_Listen n p s)) p)"
  "os_fault (snd (net_Listen n p s)) = os_fault s"
  "os_files s p \<noteq> None \<Longrightarrow> os_files (snd (net_Listen n p s)) = os_files s"
  by (auto simp: net_Listen_def next_call_def fun_eq_iff split: option.splits prod.splits)

text \<open>What a call of the network package does to the file system.\<close>

lemma net_Listen_effect:
  "os_files (os (snd (on_os (net_Listen n p) u)))
     = (os_files (os u))(p := os_files (os (snd (on_os (net_Listen n p) u))) p)
   \<and> (os_files (os u) p = None \<or> os_files (os (snd (on_os (net_Listen n p) u))) = os_files (os u))
   \<and> ((\<exists>e. fst (on_os (net_Listen n p) u) = Inl e)
      \<or> fst (on_os (net_Listen n p) u) = Inr p \<and> n = ''unix''
        \<and> os_files (os (snd (on_os (net_Listen n p) u))) p = Some SocketFile)"
  by (auto simp: net_Listen_def next_call_def fun_eq_iff split: sum.splits option.splits)

subsection \<open>Properties\<close>

text \<open>
  C35. An endpoint is accepted exactly when it is the word \<open>unix\<close> in any case, \<open>://\<close> and a path that
  is not empty; its two parts are taken as they are written. No text makes the parser panic.
\<close>

theorem socket_endpoint:
  "(NewSocket str = Ok s \<longleftrightarrow>
     str = Network s @ ''://'' @ Path s \<and> to_lower (Network s) = ''unix'' \<and> Path s \<noteq> [])
   \<and> \<not> is_Panic (NewSocket str)"
  by (simp add: NewSocket_Ok NewSocket_no_panic)


end
