(* ===== verification/Plugin_Startup.thy ===== *)
theory Plugin_Startup
  imports Logging Plugin_Options Go_Flag Vault_PEM Socket_Endpoint Vault_Lease Vault_Transit
begin

text \<open>
  \<open>cmd/plugin.go\<close>, \<open>pkg/utils\<close> and \<open>main.go\<close>: the options are read from the environment and the
  command line, then the plugin logs in, opens its socket, registers the wrappers, and runs until a
  signal. \<open>NewPlugin\<close> is cut where it waits: \<open>start_plugin\<close> is what happens up to \<open><-ctx.Done()\<close> and
  \<open>shut_down\<close> what happens after. The library that reads environment variables into the struct,
  zap's construction of the logger and the result of the HTTP server's shutdown are arguments.
\<close>

subsection \<open>Reading the options\<close>

definition plugin_flags :: "(string \<times> options flag_var) list" where
  "plugin_flags =
     [(''socket'', StringVar (\<lambda>x. o_Socket_update (\<lambda>_. x))),
      (''force-socket-overwrite'', BoolVar (\<lambda>x. o_ForceSocketOverwrite_update (\<lambda>_. x))),
      (''debug'', BoolVar (\<lambda>x. o_Debug_update (\<lambda>_. x))),
      (''vault-address'', StringVar (\<lambda>x. o_VaultAddress_update (\<lambda>_. x))),
      (''vault-namespace'', StringVar (\<lambda>x. o_VaultNamespace_update (\<lambda>_. x))),
      (''vault-ca-cert'', StringVar (\<lambda>x. o_VaultCACert_update (\<lambda>_. x))),
      (''auth-method'', StringVar (\<lambda>x. o_AuthMethod_update (\<lambda>_. x))),
      (''token'', StringVar (\<lambda>x. o_Token_update (\<lambda>_. x))),
      (''approle-mount'', StringVar (\<lambda>x. o_AppRoleMount_update (\<lambda>_. x))),
      (''approle-role-id'', StringVar (\<lambda>x. o_AppRoleRoleID_update (\<lambda>_. x))),
      (''approle-secret-id'', StringVar (\<lambda>x. o_AppRoleRoleSecretID_update (\<lambda>_. x))),
      (''userpass-mount'', StringVar (\<lambda>x. o_UserPassMount_update (\<lambda>_. x))),
      (''userpass-username'', StringVar (\<lambda>x. o_UserPassUsername_update (\<lambda>_. x))),
      (''userpass-password'', StringVar (\<lambda>x. o_UserPassPassword_update (\<lambda>_. x))),
      (''cert-mount'', StringVar (\<lambda>x. o_CertAuthMount_update (\<lambda>_. x))),
      (''cert-role'', StringVar (\<lambda>x. o_CertAuthRole_update (\<lambda>_. x))),
      (''cert-file'', StringVar (\<lambda>x. o_CertFile_update (\<lambda>_. x))),
      (''cert-key'', StringVar (\<lambda>x. o_CertKey_update (\<lambda>_. x))),
      (''cert-pem'', StringVar (\<lambda>x. o_CertPEM_update (\<lambda>_. x))),
      (''jwt-mount'', StringVar (\<lambda>x. o_JWTMount_update (\<lambda>_. x))),
      (''jwt-role'', StringVar (\<lambda>x. o_JWTRole_update (\<lambda>_. x))),
      (''jwt-token-path'', StringVar (\<lambda>x. o_JWTTokenPath_update (\<lambda>_. x))),
      (''jwt-token-source'', StringVar (\<lambda>x. o_JWTTokenSource_update (\<lambda>_. x))),
      (''jwt-spiffe-endpoint'', StringVar (\<lambda>x. o_JWTSpiffeEndpoint_update (\<lambda>_. x))),
      (''jwt-spiffe-audience'', StringVar (\<lambda>x. o_JWTSpiffeAudience_update (\<lambda>_. x))),
      (''jwt-spiffe-id'', StringVar (\<lambda>x. o_JWTSpiffeID_update (\<lambda>_. x))),
      (''token-refresh-interval'', StringVar (\<lambda>x. o_TokenRefreshInterval_update (\<lambda>_. x))),
      (''token-renewal'', IntVar (\<lambda>x. o_TokenRenewalSeconds_update (\<lambda>_. x))),
      (''transit-mount'', StringVar (\<lambda>x. o_TransitMount_update (\<lambda>_. x))),
      (''transit-key'', StringVar (\<lambda>x. o_TransitKey_update (\<lambda>_. x))),
      (''health-port'', StringVar (\<lambda>x. o_HealthPort_update (\<lambda>_. x))),
      (''disable-v1'', BoolVar (\<lambda>x. o_DisableV1_update (\<lambda>_. x))),
      (''disable-v2'', BoolVar (\<lambda>x. o_DisableV2_update (\<lambda>_. x))),
      (''version'', BoolVar (\<lambda>x. o_Version_update (\<lambda>_. x)))]"

text \<open>
  \<open>parse\<close> is the library's \<open>env.Parse\<close>: it gets the prefix, the environment and the struct.
\<close>

definition ParseEnvs :: "(string \<Rightarrow> (string \<Rightarrow> string option) \<Rightarrow> options \<Rightarrow> go_error + options) \<Rightarrow>
    string \<Rightarrow> (string \<Rightarrow> string option) \<Rightarrow> options \<Rightarrow> go_error + options" where
  "ParseEnvs parse pre env opts = (case parse pre env opts of Inl e \<Rightarrow> Inl e | Inr opts' \<Rightarrow> Inr opts')"

datatype command = PrintVersion | BadCommand go_error | Run options

definition read_options :: "(string \<Rightarrow> (string \<Rightarrow> string option) \<Rightarrow> options \<Rightarrow> go_error + options) \<Rightarrow>
    ('c, 't, 'v) deps \<Rightarrow> (string \<Rightarrow> string option) \<Rightarrow> string list \<Rightarrow> command" where
  "read_options parse D env args =
     (case ParseEnvs parse ''VAULT_KMS_'' env zero_options of
        Inl e \<Rightarrow> BadCommand (ErrWrap ''error parsing env vars'' e)
      | Inr opts \<Rightarrow>
     (case flag_Parse plugin_flags args opts of
        Inl e \<Rightarrow> BadCommand (ErrWrap ''error parsing flags'' e)
      | Inr opts' \<Rightarrow>
          if o_Version opts' then PrintVersion
          else (case validateFlags D opts' of
             Some e \<Rightarrow> BadCommand (ErrWrap ''error validating args'' e)
           | None \<Rightarrow> Run opts')))"

subsection \<open>Starting\<close>

text \<open>How the process ends: \<open>ExitFatal\<close> is the logger's \<open>Fatal\<close>, which ends it at once.\<close>

datatype process_exit = ExitNil | ExitErr go_error | ExitFatal | ExitPanic crash

fun exit_code :: "process_exit \<Rightarrow> nat" where
  "exit_code ExitNil = 0"
| "exit_code (ExitErr e) = 1"
| "exit_code ExitFatal = 1"
| "exit_code (ExitPanic k) = 2"

definition startup_fields :: "options \<Rightarrow> log_field list" where
  "startup_fields opts =
     [FString ''auth-method'' (o_AuthMethod opts), FString ''socket'' (o_Socket opts),
      FBool ''debug'' (o_Debug opts), FString ''vault-address'' (o_VaultAddress opts),
      FString ''vault-namespace'' (o_VaultNamespace opts), FString ''transit-engine'' (o_TransitMount opts),
      FString ''transit-key'' (o_TransitKey opts), FString ''health-port'' (o_HealthPort opts),
      FString ''token-refresh-interval'' (o_TokenRefreshInterval opts),
      FInt ''token-renewal-seconds'' (o_TokenRenewalSeconds opts),
      FBool ''disable-v1'' (o_DisableV1 opts), FBool ''disable-v2'' (o_DisableV2 opts)]"

text \<open>\<open>os.Setenv\<close> refuses a value with a zero byte.\<close>

definition os_Setenv :: "string \<Rightarrow> string \<Rightarrow> ('h, 'v) world \<Rightarrow> go_error option \<times> ('h, 'v) world" where
  "os_Setenv k x w =
     (if CHR 0x00 \<in> set x then (Some (ErrNew ''setenv: invalid argument''), w)
      else (None, w\<lparr>env_vars := (env_vars w)(k \<mapsto> x)\<rparr>))"

definition propagate_ca :: "options \<Rightarrow> ('h, 'v) world \<Rightarrow> (go_error + log_field list) \<times> ('h, 'v) world" where
  "propagate_ca opts w =
     (if o_VaultCACert opts = [] then (Inr [], w)
      else (case os_Setenv ''VAULT_CACERT'' (o_VaultCACert opts) w of
        (Some e, w1) \<Rightarrow> (Inl (ErrWrap ''setting VAULT_CACERT'' e), w1)
      | (None, w1) \<Rightarrow> (Inr [FString ''vault-ca-cert'' (o_VaultCACert opts)], w1)))"

text \<open>The login option, its log fields, and the paths the deferred clean-up removes.\<close>

definition select_auth :: "options \<Rightarrow> ('h, 'v) world \<Rightarrow>
    (go_error + client_option \<times> log_field list \<times> string list) \<times> ('h, 'v) world" where
  "select_auth opts w =
     (let am = to_lower (o_AuthMethod opts) in
      if am = ''token'' then (Inr (WithTokenAuth (o_Token opts), [], []), w)
      else if am = ''approle'' then
        (Inr (WithAppRoleAuth (o_AppRoleMount opts) (o_AppRoleRoleID opts) (o_AppRoleRoleSecretID opts),
          [FString ''approle-mount'' (o_AppRoleMount opts),
           FString ''approle-role-id'' (o_AppRoleRoleID opts)], []), w)
      else if am = ''userpass'' then
        (Inr (WithUserPassAuth (o_UserPassMount opts) (o_UserPassUsername opts) (o_UserPassPassword opts),
          [FString ''userpass-mount'' (o_UserPassMount opts),
           FString ''userpass-username'' (o_UserPassUsername opts)], []), w)
      else if am = certAuthMethod then
        (let use = (\<lambda>cert key files. (WithCertAuth (o_CertAuthMount opts) (o_CertAuthRole opts) cert key
                (o_VaultCACert opts),
              [FString ''cert-mount'' (o_CertAuthMount opts), FString ''cert-role'' (o_CertAuthRole opts)],
              files))
         in if o_CertPEM opts \<noteq> [] then
              (case on_os (ParseCombinedPEMFile (o_CertPEM opts)) w of
                 (Inl e, w1) \<Rightarrow> (Inl (ErrWrap ''parsing combined PEM file'' e), w1)
               | (Inr (cert, key, files), w1) \<Rightarrow> (Inr (use cert key files), w1))
            else (Inr (use (o_CertFile opts) (o_CertKey opts) []), w))
      else if am = jwtAuthMethod then (Inr (jwtAuthOption opts, jwtLogFields opts, []), w)
      else (Inl (ErrNew (''invalid auth method: '' @ o_AuthMethod opts)), w))"

definition connect :: "('c, 't, 'v) deps \<Rightarrow> options \<Rightarrow> client_option \<Rightarrow> ('h, 'v) world \<Rightarrow>
    'c client outcome \<times> ('h, 'v) world" where
  "connect D opts am w = NewClient D
     [WithVaultAddress (o_VaultAddress opts), WithVaultNamespace (o_VaultNamespace opts),
      WithTransit (o_TransitMount opts) (o_TransitKey opts),
      WithTokenRenewalSeconds (o_TokenRenewalSeconds opts), am] w"

definition open_listener :: "options \<Rightarrow> ('h, 'v) world \<Rightarrow> (process_exit + string) \<times> ('h, 'v) world" where
  "open_listener opts w =
     (case NewSocket (o_Socket opts) of
        Err e \<Rightarrow> (Inl ExitFatal, log_fatal ''Cannot create socket'' [FError e] w)
      | Panic k \<Rightarrow> (Inl (ExitPanic k), w)
      | Ok s \<Rightarrow>
          (case Listen s (o_ForceSocketOverwrite opts)
              (log_info ''Successfully created unix socket'' [FString ''socket'' (Path s)] w) of
             (Inl e, w1) \<Rightarrow> (Inl ExitFatal, log_fatal
                ''failed to listen on socket: Use -force-socket-overwrite (VAULT_KUBERNETES_KMS_FORCE_SOCKET_OVERWRITE)''
                [FString ''socket'' (o_Socket opts), FError e] w1)
           | (Inr l, w1) \<Rightarrow> (Inr l, log_info ''Listening for connection'' [] w1)))"

text \<open>
  The wrappers that are not disabled are registered with the gRPC server and added to the health
  checks.
\<close>

definition register_wrappers :: "('c, 't, 'v) deps \<Rightarrow> options \<Rightarrow> ('c client, 'v) world \<Rightarrow>
    (grpc_server \<times> kms_version list) \<times> ('c client, 'v) world" where
  "register_wrappers D opts w =
     (let ((server, hs), w1) = (if \<not> o_DisableV1 opts
            then ((v1_Register (NewPluginV1 (vault_plugin D)) [], [KMS1]),
              log_info ''Successfully registered kms plugin v1'' [] w)
            else (([], []), w))
      in if \<not> o_DisableV2 opts
         then ((v2_Register (NewPluginV2 (vault_plugin D)) server, hs @ [KMS2]),
           log_info ''Successfully registered kms plugin v2'' [] w1)
         else ((server, hs), w1))"

text \<open>The running plugin: its listener, its gRPC services, its health checks and what its deferred calls remove.\<close>

record running =
  run_listener :: string
  run_services :: grpc_server
  run_checks :: "kms_version list"
  run_files :: "string list"

definition set_heap :: "'g \<Rightarrow> ('h, 'v) world \<Rightarrow> ('g, 'v) world" where
  "set_heap c w = \<lparr>heap = c, svc = svc w, os = os w, env_vars = env_vars w, events = events w\<rparr>"

definition announce :: "options \<Rightarrow> ('h, 'v) world \<Rightarrow> ('h, 'v) world" where
  "announce opts w =
     log_info ''Exposing live check under /live'' [FString ''port'' (o_HealthPort opts)]
     (log_info ''Exposing health check under /health'' [FString ''port'' (o_HealthPort opts)]
     (log_info ''Exposing metrics under /metrics'' [FString ''port'' (o_HealthPort opts)] w))"

text \<open>The deferred clean-up of the temporary files runs on a return and on a panic, not on \<open>Fatal\<close>.\<close>

definition clean_up :: "string list \<Rightarrow> ('h, 'v) world \<Rightarrow> ('h, 'v) world" where
  "clean_up files w = w\<lparr>os := remove_all files (os w)\<rparr>"

definition logLevel :: "options \<Rightarrow> level" where
  "logLevel opts = (if o_Debug opts then DebugLevel else InfoLevel)"

definition start_plugin :: "('c, 't, 'v) deps \<Rightarrow> (zap_config \<Rightarrow> go_error option) \<Rightarrow> options \<Rightarrow> 'c client \<Rightarrow> ('h, 'v) world \<Rightarrow>
    (process_exit + running) \<times> ('c client, 'v) world" where
  "start_plugin D logger opts none w =
     (case NewStandardLogger logger (logLevel opts) of
        Some e \<Rightarrow> (Inl (ExitErr (ErrWrap ''failed to configure logging'' e)), set_heap none w)
      | None \<Rightarrow>
     (case propagate_ca opts w of
        (Inl e, w1) \<Rightarrow> (Inl (ExitErr e), set_heap none w1)
      | (Inr ca, w1) \<Rightarrow>
     (case select_auth opts w1 of
        (Inl e, w2) \<Rightarrow> (Inl (ExitErr e), set_heap none w2)
      | (Inr (am, fs, files), w2) \<Rightarrow>
     (case connect D opts am (log_info ''starting kms plugin'' (startup_fields opts @ ca @ fs) w2) of
        (Err e, w3) \<Rightarrow> (Inl ExitFatal, set_heap none (log_fatal ''Failed to create vault client'' [FError e] w3))
      | (Panic k, w3) \<Rightarrow> (Inl (ExitPanic k), set_heap none (clean_up files w3))
      | (Ok c, w3) \<Rightarrow>
     (case open_listener opts (set_heap c (log_info ''Successfully authenticated to vault'' [] w3)) of
        (Inl x, w4) \<Rightarrow> (Inl x, case x of ExitPanic k \<Rightarrow> clean_up files w4 | _ \<Rightarrow> w4)
      | (Inr l, w4) \<Rightarrow>
          (let ((services, checks), w5) = register_wrappers D opts w4
           in (Inr \<lparr>run_listener = l, run_services = services, run_checks = checks, run_files = files\<rparr>, announce opts w5)))))))"

text \<open>The goroutine of the refresher: an interval that does not parse would be 0.\<close>

definition token_refresher :: "('c, 't, 'v) deps \<Rightarrow> options \<Rightarrow> select_case list \<Rightarrow> ('c client, 'v) world \<Rightarrow>
    refresher \<times> ('c client, 'v) world" where
  "token_refresher D opts evs w =
     LeaseRefresher D (case ParseDuration (o_TokenRefreshInterval opts) of Inl e \<Rightarrow> 0 | Inr t \<Rightarrow> t) evs
       (log_info ''Starting token refresher''
         [FString ''interval'' (o_TokenRefreshInterval opts),
          FInt ''renewal-seconds'' (o_TokenRenewalSeconds opts)] w)"

text \<open>The handler of \<open>/health\<close> and \<open>/live\<close>; \<open>now\<close> and \<open>duration\<close> are readings of the clock.\<close>

definition health_handler :: "('c, 't, 'v) deps \<Rightarrow> running \<Rightarrow> int \<Rightarrow> string \<Rightarrow> ('c client, 'v) handler" where
  "health_handler D run now duration =
     LoggingMiddleware duration (HealthZ (map (\<lambda>k. Some (kms_health vault_plugin
       (case k of KMS1 \<Rightarrow> KMSv1_API | KMS2 \<Rightarrow> KMSv2_API now) D)) (run_checks run)))"

text \<open>
  The routes of the HTTP server; \<open>prom\<close> is the handler the Prometheus library makes of the registry.
\<close>

definition mux_routes :: "('c client, 'v) handler \<Rightarrow> ('c, 't, 'v) deps \<Rightarrow> running \<Rightarrow> int \<Rightarrow> string \<Rightarrow>
    (string \<times> ('c client, 'v) handler) list" where
  "mux_routes prom D run now duration =
     [(''/metrics'', LoggingMiddleware duration prom),
      (''/health'', health_handler D run now duration),
      (''/live'', health_handler D run now duration)]"

text \<open>
  The two servers end with an error, which is fatal unless it says that they were stopped:
  \<open>errors.Is\<close> with the sentinels of the libraries is an argument.
\<close>

definition grpc_served :: "(go_error \<Rightarrow> bool) \<Rightarrow> (go_error \<Rightarrow> bool) \<Rightarrow> go_error option \<Rightarrow> ('h, 'v) world \<Rightarrow>
    process_exit option \<times> ('h, 'v) world" where
  "grpc_served is_stopped is_closed serveErr w =
     (case serveErr of
        None \<Rightarrow> (None, w)
      | Some e \<Rightarrow>
          if \<not> is_stopped e \<and> \<not> is_closed e
          then (Some ExitFatal, log_fatal ''Failed to start kms plugin'' [FError e] w) else (None, w))"

definition http_served :: "(go_error \<Rightarrow> bool) \<Rightarrow> go_error option \<Rightarrow> ('h, 'v) world \<Rightarrow>
    process_exit option \<times> ('h, 'v) world" where
  "http_served is_closed serverErr w =
     (case serverErr of
        None \<Rightarrow> (None, w)
      | Some e \<Rightarrow>
          if \<not> is_closed e
          then (Some ExitFatal, log_fatal ''Failed to start health check handlers'' [FError e] w)
          else (None, w))"

subsection \<open>Shutting down\<close>

text \<open>
  What the goroutine of \<open>shutDownSignal\<close> does when a signal arrives: it cancels the context (which is
  what ends the wait) and logs.
\<close>

definition signal_received :: "string \<Rightarrow> ('h, 'v) world \<Rightarrow> ('h, 'v) world" where
  "signal_received sig w =
     log_info ''Shutting down server'' [] (log_info ''Received signal'' [FString ''signal'' sig] w)"

definition shutdownTimeout :: int where "shutdownTimeout = seconds 3"

text \<open>Closing the listener unlinks its socket; then the temporary files are removed.\<close>

definition deferred :: "running \<Rightarrow> ('h, 'v) world \<Rightarrow> ('h, 'v) world" where
  "deferred run w = clean_up (run_files run) (snd (on_os (os_Remove (run_listener run)) w))"

definition shut_down :: "running \<Rightarrow> go_error option \<Rightarrow> ('h, 'v) world \<Rightarrow> process_exit \<times> ('h, 'v) world" where
  "shut_down run server_error w =
     (case server_error of
        Some e \<Rightarrow> (ExitErr (ErrWrap ''error while shutting down server'' e), deferred run w)
      | None \<Rightarrow> (ExitNil, deferred run (log_info ''Exiting...'' [] w)))"

subsection \<open>The flags\<close>

text \<open>The options by the names of their flags.\<close>

datatype flag_value = StringValue string | BoolValue bool | IntValue int

definition option_table :: "options \<Rightarrow> (string \<times> flag_value) list" where
  "option_table opts =
     [(''socket'', StringValue (o_Socket opts)),
      (''force-socket-overwrite'', BoolValue (o_ForceSocketOverwrite opts)),
      (''debug'', BoolValue (o_Debug opts)),
      (''vault-address'', StringValue (o_VaultAddress opts)),
      (''vault-namespace'', StringValue (o_VaultNamespace opts)),
      (''vault-ca-cert'', StringValue (o_VaultCACert opts)),
      (''auth-method'', StringValue (o_AuthMethod opts)),
      (''token'', StringValue (o_Token opts)),
      (''approle-mount'', StringValue (o_AppRoleMount opts)),
      (''approle-role-id'', StringValue (o_AppRoleRoleID opts)),
      (''approle-secret-id'', StringValue (o_AppRoleRoleSecretID opts)),
      (''userpass-mount'', StringValue (o_UserPassMount opts)),
      (''userpass-username'', StringValue (o_UserPassUsername opts)),
      (''userpass-password'', StringValue (o_UserPassPassword opts)),
      (''cert-mount'', StringValue (o_CertAuthMount opts)),
      (''cert-role'', StringValue (o_CertAuthRole opts)),
      (''cert-file'', StringValue (o_CertFile opts)),
      (''cert-key'', StringValue (o_CertKey opts)),
      (''cert-pem'', StringValue (o_CertPEM opts)),
      (''jwt-mount'', StringValue (o_JWTMount opts)),
      (''jwt-role'', StringValue (o_JWTRole opts)),
      (''jwt-token-path'', StringValue (o_JWTTokenPath opts)),
      (''jwt-token-source'', StringValue (o_JWTTokenSource opts)),
      (''jwt-spiffe-endpoint'', StringValue (o_JWTSpiffeEndpoint opts)),
      (''jwt-spiffe-audience'', StringValue (o_JWTSpiffeAudience opts)),
      (''jwt-spiffe-id'', StringValue (o_JWTSpiffeID opts)),
      (''token-refresh-interval'', StringValue (o_TokenRefreshInterval opts)),
      (''token-renewal'', IntValue (o_TokenRenewalSeconds opts)),
      (''transit-mount'', StringValue (o_TransitMount opts)),
      (''transit-key'', StringValue (o_TransitKey opts)),
      (''health-port'', StringValue (o_HealthPort opts)),
      (''disable-v1'', BoolValue (o_DisableV1 opts)),
      (''disable-v2'', BoolValue (o_DisableV2 opts)),
      (''version'', BoolValue (o_Version opts))]"

definition replace_value :: "string \<Rightarrow> flag_value \<Rightarrow> (string \<times> flag_value) list \<Rightarrow> (string \<times> flag_value) list" where
  "replace_value n x t = map (\<lambda>(k, y). if k = n then (k, x) else (k, y)) t"

lemma plugin_flags_names: "map fst plugin_flags = map fst (option_table opts)"
  by (simp add: plugin_flags_def option_table_def)

lemma plugin_flags_words: "\<forall>n \<in> set (map fst plugin_flags). flag_word n"
  by (simp add: plugin_flags_def flag_word_def)

text \<open>Each target writes its own option and no other.\<close>

fun writes_own :: "string \<Rightarrow> options flag_var \<Rightarrow> bool" where
  "writes_own n (StringVar put) \<longleftrightarrow>
     (\<forall>x opts. option_table (put x opts) = replace_value n (StringValue x) (option_table opts))"
| "writes_own n (BoolVar put) \<longleftrightarrow>
     (\<forall>x opts. option_table (put x opts) = replace_value n (BoolValue x) (option_table opts))"
| "writes_own n (IntVar put) \<longleftrightarrow>
     (\<forall>x opts. option_table (put x opts) = replace_value n (IntValue x) (option_table opts))"

lemma plugin_flags_own: "list_all (\<lambda>(n, v). writes_own n v) plugin_flags"
  by (simp add: plugin_flags_def option_table_def replace_value_def)

lemma plugin_flags_writes_own: "map_of plugin_flags n = Some v \<Longrightarrow> writes_own n v"
  using plugin_flags_own by (auto simp: list_all_iff dest!: map_of_SomeD)

lemma flag_Parse_one:
  assumes "map_of plugin_flags n = Some (StringVar put)"
  shows "flag_Parse plugin_flags ((''--'' @ n @ ''='' @ x) # args) opts
    = flag_Parse plugin_flags args (put x opts)"
    and "option_table (put x opts) = replace_value n (StringValue x) (option_table opts)"
proof -
  have "n \<in> set (map fst plugin_flags)" using assms by (force dest: map_of_SomeD)
  then show "flag_Parse plugin_flags ((''--'' @ n @ ''='' @ x) # args) opts
    = flag_Parse plugin_flags args (put x opts)"
    using assms plugin_flags_words by (intro flag_Parse_string) auto
qed (use plugin_flags_writes_own [OF assms] in simp)

subsection \<open>The login is selected\<close>

text \<open>Validated options select a login; only splitting the PEM file can still fail.\<close>

lemma select_auth_cases:
  assumes "complete_options D opts" "select_auth opts w = (r, w')"
  shows "case r of Inl e \<Rightarrow> o_CertPEM opts \<noteq> [] \<and> (\<exists>e'. e = ErrWrap ''parsing combined PEM file'' e')
    | Inr (am, fs, files) \<Rightarrow> logs_in am"
  using assms
  by (auto simp: complete_options_def credentials_complete_def select_auth_def option_words Let_def
      jwtAuthOption_def WithJWTAuth_def on_os_def split: prod.splits sum.splits if_splits)

lemma select_auth_frame:
  "select_auth opts w = (r, w') \<Longrightarrow> svc w' = svc w \<and> heap w' = heap w \<and> env_vars w' = env_vars w
     \<and> events w' = events w"
  by (auto simp: select_auth_def Let_def on_os_def split: prod.splits sum.splits if_splits)

subsection \<open>A started plugin\<close>

lemma set_heap_simps [simp]:
  "heap (set_heap c w) = c" "svc (set_heap c w) = svc w" "os (set_heap c w) = os w"
  "env_vars (set_heap c w) = env_vars w" "events (set_heap c w) = events w"
  by (simp_all add: set_heap_def)

lemma open_listener_frame:
  "open_listener opts w = (r, w') \<Longrightarrow> heap w' = heap w \<and> svc w' = svc w \<and> env_vars w' = env_vars w"
  by (auto simp: open_listener_def Listen_def on_os_def Let_def
      split: outcome.splits prod.splits sum.splits option.splits if_splits)

definition enabled_versions :: "options \<Rightarrow> kms_version list" where
  "enabled_versions opts = (if o_DisableV1 opts then [] else [KMS1]) @ (if o_DisableV2 opts then [] else [KMS2])"

lemma register_frame:
  "register_wrappers D opts w = (r, w') \<Longrightarrow> heap w' = heap w \<and> svc w' = svc w \<and> os w' = os w
     \<and> r = (enabled_versions opts, enabled_versions opts)"
  by (auto simp: register_wrappers_def enabled_versions_def v1_Register_def v2_Register_def Let_def
      split: if_splits prod.splits)

text \<open>What has happened when the plugin runs: the steps of a successful start, in their order.\<close>

lemma start_plugin_steps:
  assumes "start_plugin D logger opts none w = (Inr run, w')"
  obtains ca w1 am fs files w2 c w3 l w4
  where "propagate_ca opts w = (Inr ca, w1)" "select_auth opts w1 = (Inr (am, fs, files), w2)"
    "connect D opts am (log_info ''starting kms plugin'' (startup_fields opts @ ca @ fs) w2) = (Ok c, w3)"
    "open_listener opts (set_heap c (log_info ''Successfully authenticated to vault'' [] w3)) = (Inr l, w4)"
    "run_listener run = l" "run_files run = files" "heap w' = heap w4" "os w' = os w4"
    "run_services run = enabled_versions opts" "run_checks run = enabled_versions opts"
  using assms
  by (auto simp: start_plugin_def announce_def dest!: register_frame
      split: option.splits prod.splits sum.splits outcome.splits)

lemma started_client:
  assumes "start_plugin D logger opts none w = (Inr run, w')" "complete_options D opts"
  shows "config_of (heap w') = (o_TransitMount opts, o_TransitKey opts, o_TokenRenewalSeconds opts)"
    and "attached (heap w')" and "run_services run = enabled_versions opts" "run_checks run = enabled_versions opts"
    and "enabled_versions opts \<noteq> []"
    and "\<exists>v s v'. LookupSelf D (api (heap w')) v = (Inr s, v')"
proof -
  obtain ca w1 am fs files w2 c w3 l w4
    where 1: "propagate_ca opts w = (Inr ca, w1)" "select_auth opts w1 = (Inr (am, fs, files), w2)"
      "connect D opts am (log_info ''starting kms plugin'' (startup_fields opts @ ca @ fs) w2) = (Ok c, w3)"
      "open_listener opts (set_heap c (log_info ''Successfully authenticated to vault'' [] w3)) = (Inr l, w4)"
      "heap w' = heap w4" "run_services run = enabled_versions opts" "run_checks run = enabled_versions opts"
    using assms(1) by (rule start_plugin_steps)
  have c: "heap w' = c" using open_listener_frame [OF 1(4)] 1(5) by simp
  have am: "logs_in am" using select_auth_cases [OF assms(2) 1(2)] by simp
  obtain v s where "config_of c = (o_TransitMount opts, o_TransitKey opts, o_TokenRenewalSeconds opts)"
    "AuthMethodFunc c = Some (remembered D am)" "LookupSelf D (api c) v = (Inr s, svc w3)"
    by (rule NewClient_configured [OF 1(3) [unfolded connect_def] am])
  then show "config_of (heap w') = (o_TransitMount opts, o_TransitKey opts, o_TokenRenewalSeconds opts)"
    "attached (heap w')" "\<exists>v s v'. LookupSelf D (api (heap w')) v = (Inr s, v')"
    using c remembered_logs_in [OF am] by (auto simp: attached_def)
  show "run_services run = enabled_versions opts" "run_checks run = enabled_versions opts" by (rule 1(6), rule 1(7))
  show "enabled_versions opts \<noteq> []"
    using assms(2) by (auto simp: complete_options_def enabled_versions_def)
qed

end
