(* ===== verification/Plugin_System.thy ===== *)
theory Plugin_System
  imports Plugin_Startup
begin

text \<open>
  The running plugin: the gRPC handlers, the health handler and the lease refresher share the client
  and interleave. A step is one whole request, one whole probe, one whole turn of the refresher, or a
  change of Vault's state that the plugin has no part in (a key rotation, an expired token). The
  finer interleavings, between the calls to Vault of one request, are those of Plugin_Threads.
\<close>

text \<open>
  A panic in a gRPC handler ends the process (the server does not recover it), one in a handler of
  the HTTP server does not.
\<close>

fun panic_of :: "'a outcome \<Rightarrow> crash option" where
  "panic_of (Panic k) = Some k"
| "panic_of _ = None"

fun reply_crash :: "kms_reply \<Rightarrow> crash option" where
  "reply_crash (V1Encrypted r) = panic_of r"
| "reply_crash (V1Decrypted r) = panic_of r"
| "reply_crash (V2Encrypted r) = panic_of r"
| "reply_crash (V2Decrypted r) = panic_of r"
| "reply_crash (StatusReport r) = panic_of r"
| "reply_crash (Probed r) = panic_of r"

inductive sys_run :: "('c, 't, 'v) deps \<Rightarrow> running \<Rightarrow> ('v \<Rightarrow> 'v \<Rightarrow> bool) \<Rightarrow> ('c client, 'v) world \<Rightarrow>
    kms_reply list \<Rightarrow> ('c client, 'v) world \<Rightarrow> bool"
  for D :: "('c, 't, 'v) deps" and run :: running and outside :: "'v \<Rightarrow> 'v \<Rightarrow> bool" where
  sys_done: "sys_run D run outside w [] w"
| sys_serve: "sys_run D run outside w as w1 \<Longrightarrow> kms_serve (vault_plugin D) ctx q w1 = (a, w2) \<Longrightarrow>
    reply_crash a = None \<Longrightarrow> sys_run D run outside w (as @ [a]) w2"
| sys_probe: "sys_run D run outside w as w1 \<Longrightarrow> health_handler D run now d req rp w1 = (r, rp', w2) \<Longrightarrow>
    sys_run D run outside w as w2"
| sys_refresh: "sys_run D run outside w as w1 \<Longrightarrow> lease_tick D w1 = (Ok (), w2) \<Longrightarrow>
    sys_run D run outside w as w2"
| sys_outside: "sys_run D run outside w as w1 \<Longrightarrow> outside (svc w1) v \<Longrightarrow>
    sys_run D run outside w as (w1\<lparr>svc := v\<rparr>)"

inductive_cases sys_runE: "sys_run D run outside w as w'"

subsection \<open>What a request leaves alone\<close>

definition framed :: "('h, 'v) world \<Rightarrow> ('h, 'v) world \<Rightarrow> bool" where
  "framed w w' \<longleftrightarrow> heap w' = heap w \<and> os w' = os w \<and> env_vars w' = env_vars w"

lemma framed_simps [simp]:
  "framed w w" "framed w (emit e w') = framed w w'" "framed w (emit_if b e w') = framed w w'"
  "framed w (log_info m fs w') = framed w w'"
  by (simp_all add: framed_def)

lemma framed_trans: "framed u v \<Longrightarrow> framed v w \<Longrightarrow> framed u w"
  by (simp add: framed_def)

locale framed_plugin =
  fixes impl :: "'p \<Rightarrow> ('h, 'v) plugin"
  assumes encrypt_framed: "Encrypt (impl p) ctx x w = (e, w') \<Longrightarrow> framed w w'"
    and decrypt_framed: "Decrypt (impl p) ctx y w = (d, w') \<Longrightarrow> framed w w'"
    and version_framed: "GetKeyVersion (impl p) ctx w = (v, w') \<Longrightarrow> framed w w'"
begin

lemma v1_encrypt_framed: "v1_encrypt (NewPluginV1 (impl p)) ctx x rec w = (r, w') \<Longrightarrow> framed w w'"
  by (cases "Encrypt (impl p) ctx x w")
    (auto simp: v1_encrypt_def NewPluginV1_def Let_def dest: encrypt_framed split: outcome.splits)

lemma v1_decrypt_framed: "v1_decrypt (NewPluginV1 (impl p)) ctx c rec w = (r, w') \<Longrightarrow> framed w w'"
  by (cases "Decrypt (impl p) ctx c w")
    (auto simp: v1_decrypt_def NewPluginV1_def Let_def dest: decrypt_framed split: outcome.splits)

lemma v2_encrypt_framed: "v2_encrypt (NewPluginV2 (impl p)) ctx x uid rec w = (r, w') \<Longrightarrow> framed w w'"
  by (cases "Encrypt (impl p) ctx x w")
    (auto simp: v2_encrypt_def NewPluginV2_def Let_def dest: encrypt_framed split: outcome.splits)

lemma v2_decrypt_framed: "v2_decrypt (NewPluginV2 (impl p)) ctx c uid rec w = (r, w') \<Longrightarrow> framed w w'"
  by (cases "Decrypt (impl p) ctx c w")
    (auto simp: v2_decrypt_def NewPluginV2_def Let_def dest: decrypt_framed split: outcome.splits)

lemma v1_Health_framed: "v1_Health (NewPluginV1 (impl p)) ctx w = (r, w') \<Longrightarrow> framed w w'"
  by (auto simp: v1_Health_def dest!: v1_encrypt_framed v1_decrypt_framed intro: framed_trans
      split: outcome.splits prod.splits if_splits)

lemma v2_Health_framed: "v2_Health now (NewPluginV2 (impl p)) ctx w = (r, w') \<Longrightarrow> framed w w'"
  by (auto simp: v2_Health_def dest!: v2_encrypt_framed v2_decrypt_framed intro: framed_trans
      split: outcome.splits prod.splits if_splits)

lemma v2_Status_framed:
  assumes "v2_Status now (NewPluginV2 (impl p)) ctx w = (r, w')"
  shows "framed w w'"
proof (cases "GetKeyVersion (impl p) ctx w")
  case (Pair kv w1)
  note 1 = version_framed [OF Pair]
  obtain h w2 where h: "v2_Health now (NewPluginV2 (impl p)) ctx w1 = (h, w2)" by fastforce
  note 2 = framed_trans [OF 1 v2_Health_framed [OF h]]
  show ?thesis
    using assms Pair h 1 2 by (cases kv; cases h) (auto simp: v2_Status_def NewPluginV2_def Let_def)
qed

lemma kms_serve_framed: "kms_serve (impl p) ctx q w = (a, w') \<Longrightarrow> framed w w'"
  by (cases q)
    (auto simp: v1_Encrypt_def v1_Decrypt_def v2_Encrypt_def v2_Decrypt_def map_prod_def
      dest: v1_encrypt_framed v1_decrypt_framed v2_encrypt_framed v2_decrypt_framed
        v1_Health_framed v2_Health_framed v2_Status_framed split: prod.splits)

end

interpretation vault_framed: framed_plugin vault_plugin
  by unfold_locales
    (auto simp: framed_def dest!: Encrypt_svc_only Decrypt_svc_only GetKeyVersion_svc_only svc_only_fields)

subsection \<open>The health handler as a sequence of probes\<close>

text \<open>What every probe and every log line keeps, the handler keeps.\<close>

lemma healthz_keeps:
  assumes "\<And>ctx q w a w'. P w \<Longrightarrow> kms_serve (impl p) ctx q w = (a, w') \<Longrightarrow> P w'"
    and "\<And>l m fs w. P w \<Longrightarrow> P (emit (Log l m fs) w)"
  shows "P w \<Longrightarrow> HealthZ (map (\<lambda>k. Some (kms_health impl k p)) ks) req rp w = (r, rp', w') \<Longrightarrow> P w'"
proof (induction ks arbitrary: w)
  case (Cons k ks)
  obtain x w1 where x: "kms_health impl k p (Context req) w = (x, w1)" by fastforce
  have "P w1"
  proof (cases k)
    case KMSv1_API
    with x show ?thesis using assms(1) [OF Cons.prems(1), of "Context req" V1HealthProbe] by simp
  next
    case (KMSv2_API now)
    with x show ?thesis using assms(1) [OF Cons.prems(1), of "Context req" "V2HealthProbe now"] by simp
  qed
  with x Cons show ?case
    by (cases x) (auto simp: log_defs intro: assms(2))
qed (auto simp: log_defs intro: assms(2))

lemma health_handler_keeps:
  assumes "health_handler D run now d req rp w = (r, rp', w')" "P w"
    and "\<And>ctx q w a w'. P w \<Longrightarrow> kms_serve (vault_plugin D) ctx q w = (a, w') \<Longrightarrow> P w'"
    and "\<And>l m fs w. P w \<Longrightarrow> P (emit (Log l m fs) w)"
  shows "P w'"
proof -
  obtain r1 rp1 w1 where h: "HealthZ (map (\<lambda>k. Some (kms_health vault_plugin k D))
      (map (\<lambda>k. case k of KMS1 \<Rightarrow> KMSv1_API | KMS2 \<Rightarrow> KMSv2_API now) (run_checks run))) req rp w
      = (r1, rp1, w1)"
    by (metis prod_cases3)
  have "P w1"
    using healthz_keeps [of P vault_plugin D] assms(2-4) h by metis
  with assms(1,4) h show ?thesis
    by (cases r1) (auto simp: health_handler_def LoggingMiddleware_def log_defs comp_def)
qed

subsection \<open>Invariants of every interleaving\<close>

text \<open>The configuration and the login method never change.\<close>

definition same_setup :: "('c client, 'v) world \<Rightarrow> ('c client, 'v) world \<Rightarrow> bool" where
  "same_setup w w' \<longleftrightarrow> env_vars w' = env_vars w \<and> config_of (heap w') = config_of (heap w)
     \<and> AuthMethodFunc (heap w') = AuthMethodFunc (heap w)"

lemma sys_run_setup:
  "sys_run D run outside w as w' \<Longrightarrow> attached (heap w) \<Longrightarrow> same_setup w w'"
proof (induction rule: sys_run.induct)
  case (sys_serve w as w1 ctx q a w2)
  with vault_framed.kms_serve_framed [OF sys_serve(2)] show ?case
    by (simp add: same_setup_def framed_def)
next
  case (sys_probe w as w1 now d req rp r rp' w2)
  show ?case
    by (rule health_handler_keeps [OF sys_probe(2), of "same_setup w"])
      (use sys_probe in \<open>auto simp: same_setup_def framed_def dest!: vault_framed.kms_serve_framed\<close>)
next
  case (sys_refresh w as w1 w2)
  then have s: "same_setup w w1" by simp
  then have "attached (heap w1)" using sys_refresh.prems by (simp add: same_setup_def attached_def)
  from lease_tick_steady [OF sys_refresh(2) this] s show ?case
    by (simp add: same_setup_def steady_def)
qed (simp_all add: same_setup_def)

lemma vault_health_meter:
  "HealthZ (map (\<lambda>k. Some (kms_health vault_plugin k D)) ks) req rp w = (r, rp', w') \<Longrightarrow>
     op_meter (events w') = op_meter (events w)"
proof -
  assume h: "HealthZ (map (\<lambda>k. Some (kms_health vault_plugin k D)) ks) req rp w = (r, rp', w')"
  have "kms_health vk_impl k (D, u, kn) = kms_health vault_plugin k D" for k u kn
    by (cases k) (simp_all add: vk_impl_def)
  then show ?thesis
    using vault_kms.healthz_meter [of "(D, \<lambda>v. True, \<lambda>c p v. True)" ks req rp w r rp' w'] h by simp
qed

text \<open>The operation metrics count the requests, whatever runs between them.\<close>

lemma op_meter_lease: "list_all lease_event es \<Longrightarrow> op_meter (xs @ es) = op_meter xs"
proof (induction es rule: rev_induct)
  case (snoc e es)
  then show ?case by (cases e) (auto simp: op_meter_def)
qed simp

lemma charges_snoc: "charges (as @ [a]) = add4 (charges as) (charge a)"
  by (induction as) (simp_all add: add4_assoc)

lemma health_handler_meter:
  assumes "health_handler D run now d req rp w = (r, rp', w')"
  shows "op_meter (events w') = op_meter (events w)"
proof -
  obtain r1 rp1 w1 where h: "HealthZ (map (\<lambda>k. Some (kms_health vault_plugin k D))
      (map (\<lambda>k. case k of KMS1 \<Rightarrow> KMSv1_API | KMS2 \<Rightarrow> KMSv2_API now) (run_checks run))) req rp w
      = (r1, rp1, w1)"
    by (metis prod_cases3)
  have "op_meter (events w1) = op_meter (events w)"
    using vault_health_meter [OF h] .
  with assms h show ?thesis
    by (cases r1) (auto simp: health_handler_def LoggingMiddleware_def comp_def)
qed

lemma sys_run_meter:
  "sys_run D run outside w as w' \<Longrightarrow> attached (heap w) \<Longrightarrow>
     op_meter (events w') = add4 (op_meter (events w)) (charges as)"
proof (induction rule: sys_run.induct)
  case (sys_serve w as w1 ctx q a w2)
  then show ?case
    using vault_quiet.kms_serve_meter [OF sys_serve(2)] by (simp add: charges_snoc add4_assoc)
next
  case (sys_probe w as w1 now d req rp r rp' w2)
  then show ?case using health_handler_meter [OF sys_probe(2)] by simp
next
  case (sys_refresh w as w1 w2)
  have "attached (heap w1)"
    using sys_run_setup [OF sys_refresh(1,4)] sys_refresh.prems by (simp add: same_setup_def attached_def)
  from lease_tick_steady [OF sys_refresh(2) this] obtain es
    where "events w2 = events w1 @ es" "list_all lease_event es"
    by (auto simp: steady_def)
  with sys_refresh op_meter_lease show ?case by simp
qed simp_all

subsection \<open>Serving through every interleaving\<close>

text \<open>
  What Vault owes a running plugin, over the documented behaviour of its API: no call of the plugin
  and no step outside it makes the transit key unusable or a ciphertext unknown, and every API client
  in \<open>allowed\<close> may use the transit key. A login keeps the API client in \<open>allowed\<close>: the token it gets
  has the policy of the one before.
\<close>

definition vault_keeps :: "('c, 't, 'v) deps \<Rightarrow> ('v \<Rightarrow> bool) \<Rightarrow> (string \<Rightarrow> string \<Rightarrow> 'v \<Rightarrow> bool) \<Rightarrow> bool" where
  "vault_keeps D up known \<longleftrightarrow> (\<forall>v. up v \<longrightarrow>
     (\<forall>a ctx p d. keeps up known v (snd (Write D a ctx p d v)))
     \<and> (\<forall>a. keeps up known v (snd (LookupSelf D a v)))
     \<and> (\<forall>a n. keeps up known v (snd (RenewSelf D a n v)))
     \<and> (\<forall>ctx ps addr. keeps up known v (snd (FetchJWTSVID D ctx ps addr v))))"

definition login_serves :: "('c, 't, 'v) deps \<Rightarrow> ('c \<Rightarrow> bool) \<Rightarrow> client_option \<Rightarrow> bool" where
  "login_serves D allowed m \<longleftrightarrow> logs_in m \<and>
     (\<forall>c w r c' w'. allowed (api c) \<longrightarrow> apply_option D m c (w :: ('c client, 'v) world) = (r, c', w') \<longrightarrow>
        allowed (api c'))"

definition serving :: "('c, 't, 'v) deps \<Rightarrow> ('c \<Rightarrow> bool) \<Rightarrow> client_option \<Rightarrow>
    ('v \<Rightarrow> bool) \<Rightarrow> (string \<Rightarrow> string \<Rightarrow> 'v \<Rightarrow> bool) \<Rightarrow> bytes \<Rightarrow> string \<Rightarrow> ('c client, 'v) world \<Rightarrow> bool" where
  "serving D allowed m up known ct pt w \<longleftrightarrow>
     allowed (api (heap w)) \<and> AuthMethodFunc (heap w) = Some m \<and> up (svc w) \<and> known ct pt (svc w)"

lemma keeps_trans: "keeps up known u v \<Longrightarrow> keeps up known v w \<Longrightarrow> keeps up known u w"
  by (simp add: keeps_def)

lemma keeps_up: "keeps up known u v \<Longrightarrow> up v"
  by (simp add: keeps_def)

lemma on_svc_svc: "on_svc f w = (r, w') \<Longrightarrow> svc w' = snd (f (svc w))"
  by (auto simp: on_svc_def split: prod.splits)

lemma file_Token_svc: "file_Token p ctx w = (r, w') \<Longrightarrow> svc w' = svc w"
  by (auto simp: file_Token_def on_os_def split: prod.splits sum.splits)

lemma source_keeps:
  "vault_keeps D up known \<Longrightarrow> up (svc w) \<Longrightarrow> source_Token D src ctx w = (r, w') \<Longrightarrow>
     keeps up known (svc w) (svc w')"
  by (cases src)
    (auto simp: spiffe_Token_def Let_def keeps_def vault_keeps_def dest!: file_Token_svc on_svc_svc
      split: prod.splits sum.splits)

lemma write_keeps:
  "vault_keeps D up known \<Longrightarrow> up (svc w) \<Longrightarrow> on_svc (Write D a ctx p d) w = (r, w') \<Longrightarrow>
     keeps up known (svc w) (svc w')"
  by (auto simp: vault_keeps_def dest!: on_svc_svc)

lemma jwt_login_keeps:
  assumes "vault_keeps D up known" "up (svc w)"
    and "jwt_login D (source_Token D src) mount role m c w = (r, c', w')"
  shows "keeps up known (svc w) (svc w')"
proof -
  obtain t w1 where t: "source_Token D src Background w = (t, w1)" by fastforce
  note 1 = source_keeps [OF assms(1,2) t]
  note 2 = write_keeps [OF assms(1) keeps_up [OF 1]]
  show ?thesis
    using assms(3) t 1 keeps_trans [OF 1 2]
    by (auto simp: jwt_login_def Let_def split: prod.splits sum.splits option.splits)
qed

lemma use_login_keeps:
  assumes "vault_keeps D up known" "up (svc w)"
    and "use_login D what m c (on_svc (Write D a ctx p d) w) = (r, c', w')"
  shows "keeps up known (svc w) (svc w')"
  using assms(3) write_keeps [OF assms(1,2), of a ctx p d]
  by (cases "on_svc (Write D a ctx p d) w") (auto simp: use_login_def split: sum.splits option.splits)

lemma on_os_svc: "on_os f w = (r, w') \<Longrightarrow> svc w' = svc w"
  by (auto simp: on_os_def split: prod.splits)

lemma keeps_refl: "up v \<Longrightarrow> keeps up known v v"
  by (simp add: keeps_def)

lemma cert_login_keeps:
  assumes "vault_keeps D up known" "up (svc w)" "cert_login D mount role cf kf ca c w = (r, c', w')"
  shows "keeps up known (svc w) (svc w')"
proof -
  let ?cfg = "(DefaultConfig D (env_vars w))\<lparr>cfg_Address := Address D (api c)\<rparr>"
  let ?tls = "\<lparr>ClientCert = cf, ClientKey = kf, CACert = ca\<rparr>"
  obtain x w1 where x: "on_os (ConfigureTLS D ?cfg ?tls) w = (x, w1)" by fastforce
  have w1: "svc w1 = svc w" by (rule on_os_svc [OF x])
  show ?thesis
    using assms(3) x w1 assms(2) use_login_keeps [OF assms(1), of w1]
    by (auto simp: cert_login_def Let_def keeps_refl split: sum.splits)
qed

lemma option_keeps:
  assumes "vault_keeps D up known" "up (svc w)" "apply_option D m c w = (r, c', w')"
  shows "keeps up known (svc w) (svc w')"
  using assms
  by (cases m)
    (auto simp: approle_login_def userpass_login_def Let_def keeps_refl
      dest: jwt_login_keeps use_login_keeps cert_login_keeps split: prod.splits option.splits sum.splits)

lemma serving_keeps:
  "serving D allowed m up known ct pt w \<Longrightarrow> heap w' = heap w \<Longrightarrow> keeps up known (svc w) (svc w') \<Longrightarrow>
     serving D allowed m up known ct pt w'"
  by (simp add: serving_def keeps_def)

lemma on_svc_heap: "on_svc f w = (r, w') \<Longrightarrow> heap w' = heap w"
  by (auto simp: on_svc_def split: prod.splits)

lemma token_calls_keep:
  assumes "vault_keeps D up known" "serving D allowed m up known ct pt w"
  shows "on_svc (LookupSelf D a) w = (r, w') \<Longrightarrow> serving D allowed m up known ct pt w'"
    and "on_svc (RenewSelf D a n) w = (r, w') \<Longrightarrow> serving D allowed m up known ct pt w'"
proof -
  have up: "up (svc w)" using assms(2) by (simp add: serving_def)
  have 1: "keeps up known (svc w) (snd (LookupSelf D a (svc w)))"
    "keeps up known (svc w) (snd (RenewSelf D a n (svc w)))"
    using assms(1) up unfolding vault_keeps_def by blast+
  show "on_svc (LookupSelf D a) w = (r, w') \<Longrightarrow> serving D allowed m up known ct pt w'"
    by (rule serving_keeps [OF assms(2) on_svc_heap]) (use 1(1) in \<open>simp_all add: on_svc_svc\<close>)
  show "on_svc (RenewSelf D a n) w = (r, w') \<Longrightarrow> serving D allowed m up known ct pt w'"
    by (rule serving_keeps [OF assms(2) on_svc_heap]) (use 1(2) in \<open>simp_all add: on_svc_svc\<close>)
qed

text \<open>The refresher keeps the plugin serving.\<close>

lemma login_keeps_serving:
  assumes "vault_keeps D up known" "login_serves D allowed m"
    and "serving D allowed m up known ct pt w" "call_AuthMethodFunc D w = (x, w')"
  shows "serving D allowed m up known ct pt w'"
proof -
  have m: "AuthMethodFunc (heap w) = Some m" "allowed (api (heap w))" "up (svc w)" "known ct pt (svc w)"
    using assms(3) by (simp_all add: serving_def)
  obtain r c w1 where a: "apply_option D m (heap w) w = (r, c, w1)" by (cases "apply_option D m (heap w) w")
  have w': "w' = w1\<lparr>heap := c\<rparr>" using assms(4) m(1) a by (simp add: call_AuthMethodFunc_def)
  have "allowed (api c)" "logs_in m"
    using assms(2) m(2) a unfolding login_serves_def by blast+
  moreover have "AuthMethodFunc c = Some m"
    by (rule login_keeps_method [OF \<open>logs_in m\<close> m(1) a])
  ultimately show ?thesis
    using option_keeps [OF assms(1) m(3) a] m(4) by (simp add: w' serving_def keeps_def)
qed

interpretation lease_serving: lease_invariant D
    "\<lambda>w. vault_keeps D up known \<and> login_serves D allowed m \<longrightarrow> serving D allowed m up known ct pt w"
  for D allowed m up known ct pt
proof
  fix w w' :: "('a client, 'c) world" and e r r' n x
  let ?P = "\<lambda>w. vault_keeps D up known \<and> login_serves D allowed m \<longrightarrow> serving D allowed m up known ct pt w"
  assume P: "?P w"
  show "?P (emit e w)" using P by (simp add: serving_def)
  show "on_svc (LookupSelf D (api (heap w))) w = (r, w') \<Longrightarrow> ?P w'"
    using P token_calls_keep(1) [of D up known allowed m ct pt w "api (heap w)" r w'] by simp
  show "on_svc (RenewSelf D (api (heap w)) n) w = (r', w') \<Longrightarrow> ?P w'"
    using P token_calls_keep(2) [of D up known allowed m ct pt w "api (heap w)" n r' w'] by simp
  show "call_AuthMethodFunc D w = (x, w') \<Longrightarrow> ?P w'"
    using P login_keeps_serving by blast
qed

lemma tick_serving:
  "vault_keeps D up known \<Longrightarrow> login_serves D allowed m \<Longrightarrow> lease_tick D w = (r, w') \<Longrightarrow>
     serving D allowed m up known ct pt w \<Longrightarrow> serving D allowed m up known ct pt w'"
  using lease_serving.inv_tick [of D w r w' up known allowed m ct pt] by simp

text \<open>
  The requests keep it serving: the transit operations are among the calls Vault owes. The transit
  configuration is part of the setup, which does not change.
\<close>

lemma serve_serving:
  assumes "\<And>a. allowed a \<Longrightarrow> transit_service D a mount key up known"
    and "config_of (heap w) = (mount, key, n)"
    and "serving D allowed m up known ct (b64_encode StdEncoding x) w"
    and "kms_serve (vault_plugin D) ctx q w = (a, w')"
  shows "serving D allowed m up known ct (b64_encode StdEncoding x) w'"
proof -
  have "vk_ready (D, up, known) w" "vk_stored (D, up, known) ct x w"
    using assms(1-3) by (auto simp: serving_def config_of_def)
  then have "vk_ready (D, up, known) w'" "vk_stored (D, up, known) ct x w'"
    using vault_kms.kms_serve_ready [of "(D, up, known)" w ctx q a w'] assms(4) by (auto simp: vk_impl_def)
  then show ?thesis
    using vault_framed.kms_serve_framed [OF assms(4)] assms(3)
    by (simp add: serving_def framed_def)
qed

lemma sys_run_serving:
  assumes "sys_run D run outside w as w'"
    and "\<And>a. allowed a \<Longrightarrow> transit_service D a mount key up known"
    and "vault_keeps D up known" "login_serves D allowed m"
    and "\<And>v v'. up v \<Longrightarrow> outside v v' \<Longrightarrow> keeps up known v v'"
    and "config_of (heap w) = (mount, key, n)"
    and "serving D allowed m up known ct (b64_encode StdEncoding x) w"
  shows "serving D allowed m up known ct (b64_encode StdEncoding x) w' \<and> config_of (heap w') = (mount, key, n)"
  using assms(1,6,7)
proof (induction rule: sys_run.induct)
  case (sys_serve w as w1 ctx q a w2)
  then have "serving D allowed m up known ct (b64_encode StdEncoding x) w1" "config_of (heap w1) = (mount, key, n)"
    by simp_all
  from serve_serving [OF assms(2) this(2,1) sys_serve(2)] this(2)
    vault_framed.kms_serve_framed [OF sys_serve(2)]
  show ?case by (simp add: framed_def)
next
  case (sys_probe w as w1 now d req rp r rp' w2)
  let ?P = "\<lambda>w. serving D allowed m up known ct (b64_encode StdEncoding x) w \<and> config_of (heap w) = (mount, key, n)"
  have "?P w1" using sys_probe by simp
  then show ?case
  proof (rule health_handler_keeps [OF sys_probe(2), of ?P])
    fix ctx q u a u' assume u: "?P u" "kms_serve (vault_plugin D) ctx q u = (a, u')"
    then show "?P u'"
      using serve_serving [OF assms(2) conjunct2 [OF u(1)] conjunct1 [OF u(1)] u(2)] vault_framed.kms_serve_framed [OF u(2)]
      by (simp add: framed_def)
  qed (simp add: serving_def)
next
  case (sys_refresh w as w1 w2)
  then have s: "serving D allowed m up known ct (b64_encode StdEncoding x) w1" "config_of (heap w1) = (mount, key, n)"
    by simp_all
  have "attached (heap w1)"
    using s(1) assms(4) by (auto simp: attached_def serving_def login_serves_def)
  from lease_tick_steady [OF sys_refresh(2) this] s(2) tick_serving [OF assms(3,4) sys_refresh(2) s(1)]
  show ?case by (simp add: steady_def)
next
  case (sys_outside w as w1 v)
  then show ?case using assms(5) [of "svc w1" v] by (auto simp: serving_def keeps_def)
qed simp

end
