(* ===== verification/Plugin_Lifecycle.thy ===== *)
theory Plugin_Lifecycle
  imports Plugin_Startup
begin

text \<open>
  The file system from the start of the plugin to its end: which files a start creates, and what is
  left of them after a shutdown and after a fatal error.
\<close>

text \<open>Configuring TLS reads certificate files and changes none.\<close>

definition reads_only :: "('c, 't, 'v) deps \<Rightarrow> bool" where
  "reads_only D \<longleftrightarrow> (\<forall>cfg tls s. os_files (snd (ConfigureTLS D cfg tls s)) = os_files s
     \<and> os_fault (snd (ConfigureTLS D cfg tls s)) = os_fault s)"

definition same_files :: "('h, 'v) world \<Rightarrow> ('g, 'v) world \<Rightarrow> bool" where
  "same_files w w' \<longleftrightarrow> os_files (os w') = os_files (os w) \<and> os_fault (os w') = os_fault (os w)"

lemma same_files_refl [simp]: "same_files w w"
  by (simp add: same_files_def)

lemma same_files_svc: "on_svc f w = (r, w') \<Longrightarrow> same_files w w'"
  by (auto simp: on_svc_def same_files_def split: prod.splits)

lemma same_files_read: "on_os (os_ReadFile p) w = (r, w') \<Longrightarrow> same_files w w'"
  by (auto simp: on_os_def same_files_def os_ReadFile_def next_call_def
      split: prod.splits option.splits node.splits)

lemma same_files_tls: "reads_only D \<Longrightarrow> on_os (ConfigureTLS D cfg tls) w = (r, w') \<Longrightarrow> same_files w w'"
  by (auto simp: same_files_def reads_only_def dest: on_os_os)

lemma same_files_trans: "same_files u v \<Longrightarrow> same_files v w \<Longrightarrow> same_files u w"
  by (simp add: same_files_def)

lemma source_files: "source_Token D src ctx w = (r, w') \<Longrightarrow> same_files w w'"
  by (cases src)
    (auto simp: file_Token_def spiffe_Token_def Let_def dest: same_files_read same_files_svc
      split: prod.splits sum.splits)

lemma use_login_world: "use_login D what m c (r, w) = (x, c', w') \<Longrightarrow> w' = w"
  by (auto simp: use_login_def split: sum.splits option.splits)

lemma jwt_login_files:
  "jwt_login D (source_Token D src) mount role m c w = (r, c', w') \<Longrightarrow> same_files w w'"
  by (auto simp: jwt_login_def Let_def dest!: source_files same_files_svc
      intro: same_files_trans split: prod.splits sum.splits option.splits)

lemma use_login_files: "use_login D what m c (on_svc f w) = (x, c', w') \<Longrightarrow> same_files w w'"
  by (cases "on_svc f w") (auto dest!: use_login_world dest: same_files_svc)

lemma cert_login_files:
  "reads_only D \<Longrightarrow> cert_login D mount role cf kf ca c w = (r, c', w') \<Longrightarrow> same_files w w'"
  by (auto simp: cert_login_def Let_def dest!: same_files_tls use_login_files
      intro: same_files_trans split: prod.splits sum.splits)

lemma option_files: "reads_only D \<Longrightarrow> apply_option D m c w = (r, c', w') \<Longrightarrow> same_files w w'"
  by (cases m)
    (auto simp: approle_login_def userpass_login_def Let_def
      dest: use_login_files cert_login_files jwt_login_files
      split: prod.splits option.splits sum.splits)

lemma options_files: "reads_only D \<Longrightarrow> apply_options D ms c w = (r, c', w') \<Longrightarrow> same_files w w'"
proof (induction ms arbitrary: c w)
  case (Cons m ms)
  obtain r1 c1 w1 where 1: "apply_option D m c w = (r1, c1, w1)" by (cases "apply_option D m c w")
  note 2 = option_files [OF Cons.prems(1) 1]
  show ?case
    using Cons.IH [OF Cons.prems(1), of c1 w1] Cons.prems(2) 1 2 same_files_trans
    by (cases r1) auto
qed simp

lemma NewClient_files: "reads_only D \<Longrightarrow> NewClient D ms w = (r, w') \<Longrightarrow> same_files w w'"
  by (auto simp: NewClient_def Let_def dest!: options_files same_files_svc intro: same_files_trans
      split: prod.splits sum.splits outcome.splits)

subsection \<open>What a start leaves\<close>

lemma select_auth_created:
  assumes "select_auth opts w = (Inr (am, fs, files), w')" "removes (os w)"
  obtains new where "created (os w) new (os w')" "set files = fst ` set new"
proof (cases "to_lower (o_AuthMethod opts) = ''cert'' \<and> o_CertPEM opts \<noteq> []")
  case True
  with assms(1) obtain cert key s
    where "ParseCombinedPEMFile (o_CertPEM opts) (os w) = (Inr (cert, key, files), s)" "os w' = s"
    by (auto simp: select_auth_def option_words on_os_def split: prod.splits sum.splits)
  with PEM_file_created [of "o_CertPEM opts" "os w", OF _ assms(2)] show thesis
    using that by (fastforce split: sum.splits)
next
  case False
  then have "w' = w" "files = []"
    using assms(1) by (auto simp: select_auth_def option_words Let_def split: if_splits)
  then show thesis using that [of "[]"] by (simp add: created_def)
qed

lemma net_Listen_Inr:
  "net_Listen n p s = (Inr l, s') \<Longrightarrow> l = p \<and> os_files s' = (os_files s)(p := Some SocketFile)
     \<and> os_fault s' = os_fault s"
  by (auto simp: net_Listen_def next_call_def split: if_splits option.splits prod.splits)

lemma Listen_Inr:
  assumes "Listen s force w = (Inr l, w')"
  shows "l = Path s \<and> os_files (os w') = (os_files (os w))(l := Some SocketFile)
     \<and> os_fault (os w') = os_fault (os w)"
proof -
  have l: "on_os (net_Listen n p) u = (Inr l, w') \<Longrightarrow> l = p
      \<and> os_files (os w') = (os_files (os u))(p := Some SocketFile) \<and> os_fault (os w') = os_fault (os u)"
    for n p and u :: "('a, 'b) world"
    by (auto simp: on_os_def dest: net_Listen_Inr split: prod.splits)
  have st: "on_os (os_Stat p) u = (r, v) \<Longrightarrow> os_files (os v) = os_files (os u) \<and> os_fault (os v) = os_fault (os u)"
    for p r and u v :: "('a, 'b) world"
    by (auto dest: on_os_os)
  have rm: "on_os (os_Remove p) u = (r, v) \<Longrightarrow>
      os_files (os v) = (os_files (os u))(p := os_files (os v) p) \<and> os_fault (os v) = os_fault (os u)"
    for p r and u v :: "('a, 'b) world"
    using os_Remove_files [of p "os u"] by (auto dest: on_os_os)
  show ?thesis
    using assms
    by (auto simp: Listen_def Let_def fun_eq_iff dest!: st rm l split: prod.splits sum.splits option.splits if_splits)
qed

lemma open_listener_Inr:
  "open_listener opts w = (Inr l, w') \<Longrightarrow>
     os_files (os w') = (os_files (os w))(l := Some SocketFile) \<and> os_fault (os w') = os_fault (os w)"
  by (auto simp: open_listener_def dest!: Listen_Inr split: outcome.splits prod.splits sum.splits)

lemma propagate_files: "propagate_ca opts w = (r, w') \<Longrightarrow> os w' = os w"
  by (auto simp: propagate_ca_def os_Setenv_def split: if_splits)

text \<open>A running plugin has added its temporary files and its socket.\<close>

lemma started_files:
  assumes "start_plugin D logger opts none w = (Inr run, w')" "removes (os w)" "reads_only D"
  obtains new s where "created (os w) new s" "set (run_files run) = fst ` set new"
    "os_files (os w') = (os_files s)(run_listener run := Some SocketFile)" "removes (os w')"
proof -
  obtain ca w1 am fs files w2 c w3 l w4
    where 1: "propagate_ca opts w = (Inr ca, w1)" "select_auth opts w1 = (Inr (am, fs, files), w2)"
      "connect D opts am (log_info ''starting kms plugin'' (startup_fields opts @ ca @ fs) w2) = (Ok c, w3)"
      "open_listener opts (set_heap c (log_info ''Successfully authenticated to vault'' [] w3)) = (Inr l, w4)"
    and run: "run_listener run = l" "run_files run = files" "os w' = os w4"
    using assms(1) by (rule start_plugin_steps)
  have w1: "os w1 = os w" by (rule propagate_files [OF 1(1)])
  with assms(2) obtain new where new: "created (os w) new (os w2)" "set files = fst ` set new"
    using select_auth_created [OF 1(2)] by auto
  have w3: "os_files (os w3) = os_files (os w2)" "os_fault (os w3) = os_fault (os w2)"
    using NewClient_files [OF assms(3) 1(3) [unfolded connect_def]] by (simp_all add: same_files_def)
  have w4: "os_files (os w4) = (os_files (os w2))(l := Some SocketFile)" "os_fault (os w4) = os_fault (os w2)"
    using open_listener_Inr [OF 1(4)] w3 by simp_all
  show thesis
    by (rule that [OF new(1)])
      (use run w4 new assms(2) in \<open>simp_all add: removes_def created_def\<close>)
qed

subsection \<open>What an end leaves\<close>

definition plain_file :: "node option \<Rightarrow> bool" where
  "plain_file nd \<longleftrightarrow> (case nd of Some (Directory es) \<Rightarrow> False | _ \<Rightarrow> True)"

lemma Remove_plain:
  assumes "removes s" "plain_file (os_files s p)"
  shows "os_files (snd (os_Remove p s)) = (os_files s)(p := None)" "removes (snd (os_Remove p s))"
  using assms by (auto simp: os_Remove_def removes_def call_fault_def next_call_def plain_file_def fun_eq_iff
      split: option.splits node.splits)

lemma remove_all_plain:
  "removes s \<Longrightarrow> \<forall>p \<in> set ps. plain_file (os_files s p) \<Longrightarrow>
     os_files (remove_all ps s) = (\<lambda>q. if q \<in> set ps then None else os_files s q)"
proof (induction ps arbitrary: s)
  case (Cons p ps)
  note r = Remove_plain [OF Cons.prems(1), of p]
  have "\<forall>q \<in> set ps. plain_file (os_files (snd (os_Remove p s)) q)"
    using r Cons.prems(2) by (simp add: plain_file_def)
  with Cons r show ?case by (auto simp: fun_eq_iff)
qed simp

lemma deferred_files:
  assumes "removes (os w)" "plain_file (os_files (os w) (run_listener run))"
    and "\<forall>p \<in> set (run_files run). plain_file (os_files (os w) p)"
  shows "os_files (os (deferred run w)) =
    (\<lambda>q. if q = run_listener run \<or> q \<in> set (run_files run) then None else os_files (os w) q)"
proof -
  obtain r w1 where w1: "on_os (os_Remove (run_listener run)) w = (r, w1)" by fastforce
  then have "os w1 = snd (os_Remove (run_listener run) (os w))" by (rule on_os_os)
  with Remove_plain [OF assms(1,2)]
  have f: "os_files (os w1) = (os_files (os w))(run_listener run := None)" "removes (os w1)" by simp_all
  then have "\<forall>p \<in> set (run_files run). plain_file (os_files (os w1) p)"
    using assms(3) by (simp add: plain_file_def)
  from remove_all_plain [OF f(2) this] show ?thesis
    using w1 f(1) by (auto simp: deferred_def clean_up_def fun_eq_iff)
qed

text \<open>Whichever way the shutdown ends, what was started is gone and everything else is as it was.\<close>

lemma shut_down_files:
  assumes "start_plugin D logger opts none w = (Inr run, w1)" "removes (os w)" "reads_only D"
    and "same_files w1 w2"
  shows "os_files (os (snd (shut_down run e w2))) = (os_files (os w))(run_listener run := None)"
proof -
  obtain new s where new: "created (os w) new s" "set (run_files run) = fst ` set new"
    and w1: "os_files (os w1) = (os_files s)(run_listener run := Some SocketFile)" "removes (os w1)"
    by (rule started_files [OF assms(1-3)])
  have w2: "os_files (os w2) = (os_files s)(run_listener run := Some SocketFile)" "removes (os w2)"
    using assms(4) w1 by (simp_all add: same_files_def removes_def)
  have n: "p \<in> fst ` set new \<Longrightarrow> \<exists>b. os_files s p = Some (RegularFile b)" for p
    using new(1) map_of_eq_None_iff [of new p] by (auto simp: created_def)
  have o: "q \<notin> fst ` set new \<Longrightarrow> os_files s q = os_files (os w) q" for q
    using new(1) map_of_eq_None_iff [of new q] by (auto simp: created_def)
  have f: "q \<in> fst ` set new \<Longrightarrow> os_files (os w) q = None" for q
    using new(1) by (auto simp: created_def)
  have d: "os_files (os (deferred run u)) = (os_files (os w))(run_listener run := None)"
    if "u = w2 \<or> u = log_info ''Exiting...'' [] w2" for u
  proof -
    have u: "os u = os w2" using that by auto
    have "\<forall>p \<in> set (run_files run). plain_file (os_files (os u) p)"
      using n new(2) w2 u by (fastforce simp: plain_file_def)
    moreover have "plain_file (os_files (os u) (run_listener run))" "removes (os u)"
      using w2 u by (simp_all add: plain_file_def)
    ultimately show ?thesis
      using deferred_files [of u run] w2 u new(2) o f by (auto simp: fun_eq_iff)
  qed
  show ?thesis
    by (cases e) (simp_all add: shut_down_def d)
qed

text \<open>After \<open>Fatal\<close> nothing is cleaned up.\<close>

lemma fatal_keeps_files:
  assumes "propagate_ca opts w = (Inr ca, w1)" "select_auth opts w1 = (Inr (am, fs, files), w2)"
    and "connect D opts am (log_info ''starting kms plugin'' (startup_fields opts @ ca @ fs) w2) = (Err e, w3)"
    and "reads_only D"
  shows "fst (start_plugin D (\<lambda>cfg. None) opts none w) = Inl ExitFatal"
    "os_files (os (snd (start_plugin D (\<lambda>cfg. None) opts none w))) = os_files (os w2)"
  using assms(1-3) NewClient_files [OF assms(4) assms(3) [unfolded connect_def]]
  by (simp_all add: start_plugin_def NewStandardLogger_def same_files_def)

end
