(* ===== verification/Plugin_Process.thy ===== *)
theory Plugin_Process
  imports Plugin_System Plugin_Lifecycle
begin

text \<open>
  The life of the whole process: the options, the start, the running plugin, and its end. The
  relation has one rule per way the process of \<open>cmd/plugin.go\<close> ends; the answers the gRPC server gave
  are its trace. A panic of a goroutine and a failing server can come at any time of the run.
\<close>

inductive process_run ::
  "(string \<Rightarrow> (string \<Rightarrow> string option) \<Rightarrow> options \<Rightarrow> go_error + options) \<Rightarrow> ('c, 't, 'v) deps \<Rightarrow>
   ('v \<Rightarrow> 'v \<Rightarrow> bool) \<Rightarrow> string list \<Rightarrow> (zap_config \<Rightarrow> go_error option) \<Rightarrow> 'c client \<Rightarrow> ('h, 'v) world \<Rightarrow>
   kms_reply list \<Rightarrow> process_exit \<Rightarrow> ('c client, 'v) world \<Rightarrow> bool"
  for parse :: "string \<Rightarrow> (string \<Rightarrow> string option) \<Rightarrow> options \<Rightarrow> go_error + options"
    and D :: "('c, 't, 'v) deps" and outside :: "'v \<Rightarrow> 'v \<Rightarrow> bool" and args :: "string list"
    and logger :: "zap_config \<Rightarrow> go_error option" and none :: "'c client" and w :: "('h, 'v) world" where
  bad_command: "read_options parse D (env_vars w) args = BadCommand e \<Longrightarrow>
    process_run parse D outside args logger none w [] (ExitErr e) (set_heap none w)"
| version_printed: "read_options parse D (env_vars w) args = PrintVersion \<Longrightarrow>
    process_run parse D outside args logger none w [] ExitNil (set_heap none w)"
| not_started: "read_options parse D (env_vars w) args = Run opts \<Longrightarrow>
    start_plugin D logger opts none w = (Inl x, w1) \<Longrightarrow>
    process_run parse D outside args logger none w [] x w1"
| stopped: "read_options parse D (env_vars w) args = Run opts \<Longrightarrow>
    start_plugin D logger opts none w = (Inr run, w1) \<Longrightarrow> sys_run D run outside w1 as w2 \<Longrightarrow>
    shut_down run e (signal_received sig w2) = (x, w3) \<Longrightarrow>
    process_run parse D outside args logger none w as x w3"
| grpc_failed: "read_options parse D (env_vars w) args = Run opts \<Longrightarrow>
    start_plugin D logger opts none w = (Inr run, w1) \<Longrightarrow> sys_run D run outside w1 as w2 \<Longrightarrow>
    grpc_served is_stopped is_closed err w2 = (Some x, w3) \<Longrightarrow>
    process_run parse D outside args logger none w as x w3"
| http_failed: "read_options parse D (env_vars w) args = Run opts \<Longrightarrow>
    start_plugin D logger opts none w = (Inr run, w1) \<Longrightarrow> sys_run D run outside w1 as w2 \<Longrightarrow>
    http_served is_closed err w2 = (Some x, w3) \<Longrightarrow>
    process_run parse D outside args logger none w as x w3"
| ticker_panicked: "read_options parse D (env_vars w) args = Run opts \<Longrightarrow>
    start_plugin D logger opts none w = (Inr run, w1) \<Longrightarrow> sys_run D run outside w1 as w2 \<Longrightarrow>
    token_refresher D opts [] w2 = (Crashed k, w3) \<Longrightarrow>
    process_run parse D outside args logger none w as (ExitPanic k) w3"
| refresher_panicked: "read_options parse D (env_vars w) args = Run opts \<Longrightarrow>
    start_plugin D logger opts none w = (Inr run, w1) \<Longrightarrow> sys_run D run outside w1 as w2 \<Longrightarrow>
    lease_tick D w2 = (Panic k, w3) \<Longrightarrow>
    process_run parse D outside args logger none w as (ExitPanic k) w3"
| handler_panicked: "read_options parse D (env_vars w) args = Run opts \<Longrightarrow>
    start_plugin D logger opts none w = (Inr run, w1) \<Longrightarrow> sys_run D run outside w1 as w2 \<Longrightarrow>
    kms_serve (vault_plugin D) ctx q w2 = (a, w3) \<Longrightarrow> reply_crash a = Some k \<Longrightarrow>
    process_run parse D outside args logger none w (as @ [a]) (ExitPanic k) w3"

subsection \<open>Files while it runs\<close>

text \<open>The refresher touches no file: its logins read files only.\<close>

lemma call_files: "reads_only D \<Longrightarrow> call_AuthMethodFunc D w = (r, w') \<Longrightarrow> same_files w w'"
  by (auto simp: call_AuthMethodFunc_def same_files_def dest!: option_files
      split: option.splits prod.splits)

interpretation lease_files: lease_invariant D "\<lambda>w. reads_only D \<longrightarrow> same_files u w"
  for D :: "('c, 't, 'v) deps" and u :: "('c client, 'v) world"
  by unfold_locales
    (auto simp: same_files_def dest!: same_files_svc call_files)

lemma lease_tick_files: "lease_tick D w = (r, w') \<Longrightarrow> reads_only D \<Longrightarrow> same_files w w'"
  using lease_files.inv_tick [of D w r w' w] by simp

lemma sys_run_files: "sys_run D run outside w as w' \<Longrightarrow> reads_only D \<Longrightarrow> same_files w w'"
proof (induction rule: sys_run.induct)
  case (sys_serve w as w1 ctx q a w2)
  with vault_framed.kms_serve_framed [OF sys_serve(2)] show ?case
    by (simp add: same_files_def framed_def)
next
  case (sys_probe w as w1 now d req rp r rp' w2)
  show ?case
    by (rule health_handler_keeps [OF sys_probe(2), of "same_files w"])
      (use sys_probe in \<open>auto simp: same_files_def framed_def dest!: vault_framed.kms_serve_framed\<close>)
next
  case (sys_refresh w as w1 w2)
  with lease_tick_files [OF sys_refresh(2)] same_files_trans show ?case by blast
qed (simp_all add: same_files_def)

subsection \<open>A start that fails with an error\<close>

lemma select_auth_files:
  assumes "select_auth opts w = (Inl e, w')" "removes (os w)"
  shows "os_files (os w') = os_files (os w)"
proof (cases "to_lower (o_AuthMethod opts) = ''cert'' \<and> o_CertPEM opts \<noteq> []")
  case True
  with assms(1) obtain e' s where "ParseCombinedPEMFile (o_CertPEM opts) (os w) = (Inl e', s)" "os w' = s"
    by (auto simp: select_auth_def option_words on_os_def split: prod.splits sum.splits)
  with PEM_file_created [of "o_CertPEM opts" "os w", OF _ assms(2)] created_files show ?thesis
    by fastforce
next
  case False
  then show ?thesis
    using assms(1) by (auto simp: select_auth_def option_words Let_def split: if_splits)
qed

lemma listener_exits: "open_listener opts w \<noteq> (Inl (ExitErr e), w')"
  by (auto simp: open_listener_def split: outcome.splits prod.splits sum.splits)

lemma start_error_files:
  assumes "start_plugin D logger opts none w = (Inl (ExitErr e), w')" "removes (os w)"
  shows "os_files (os w') = os_files (os w)"
proof (cases "NewStandardLogger logger (logLevel opts)")
  case None
  obtain ca w1 where p: "propagate_ca opts w = (ca, w1)" by fastforce
  have w1: "os w1 = os w" by (rule propagate_files [OF p])
  obtain r w2 where s: "select_auth opts w1 = (r, w2)" by fastforce
  show ?thesis
    using assms None p s w1 listener_exits select_auth_files [of opts w1 _ w2]
    by (auto simp: start_plugin_def split: sum.splits prod.splits outcome.splits)
qed (use assms in \<open>auto simp: start_plugin_def\<close>)

lemma started_listener:
  "start_plugin D logger opts none w = (Inr run, w') \<Longrightarrow> \<exists>s. NewSocket (o_Socket opts) = Ok s \<and> run_listener run = Path s"
  by (erule start_plugin_steps)
    (auto simp: open_listener_def dest!: Listen_Inr split: outcome.splits prod.splits sum.splits)

text \<open>Whatever ends the process with a return, only the path of its socket can have changed.\<close>

definition only_socket :: "options \<Rightarrow> (string \<Rightarrow> node option) \<Rightarrow> (string \<Rightarrow> node option) \<Rightarrow> bool" where
  "only_socket opts f f' \<longleftrightarrow> f' = f
     \<or> (\<exists>s. NewSocket (o_Socket opts) = Ok s \<and> f' = f(Path s := None))"

lemma process_files:
  assumes "process_run parse D outside args logger none w as x w'"
    and "removes (os w)" "reads_only D" "exit_code x = 0 \<or> (\<exists>e. x = ExitErr e)"
  shows "os_files (os w') = os_files (os w)
    \<or> (\<exists>opts. read_options parse D (env_vars w) args = Run opts
         \<and> only_socket opts (os_files (os w)) (os_files (os w')))"
  using assms(1)
proof cases
  case (not_started opts)
  then obtain e where x: "x = ExitErr e"
    using assms(4) by (cases x) (auto simp: start_plugin_def open_listener_def
        split: option.splits sum.splits prod.splits outcome.splits)
  with not_started start_error_files assms(2) show ?thesis by blast
next
  case (stopped opts run w1 w2 e sig)
  have "same_files w1 (signal_received sig w2)"
    using sys_run_files [OF stopped(3) assms(3)] by (simp add: same_files_def signal_received_def)
  from shut_down_files [OF stopped(2) assms(2,3) this, of e] stopped(1,4) started_listener [OF stopped(2)]
  show ?thesis by (auto simp: only_socket_def)
next
  case (grpc_failed opts run w1 w2 a b err)
  with assms(4) show ?thesis by (auto simp: grpc_served_def split: option.splits if_splits)
next
  case (http_failed opts run w1 w2 a err)
  with assms(4) show ?thesis by (auto simp: http_served_def split: option.splits if_splits)
qed (use assms(4) in simp_all)

subsection \<open>Accounts of the whole life\<close>

text \<open>Starting adds log lines only.\<close>

fun is_log :: "event \<Rightarrow> bool" where
  "is_log (Log l m fs) = True"
| "is_log _ = False"

definition only_logs :: "event list \<Rightarrow> event list \<Rightarrow> bool" where
  "only_logs es es' \<longleftrightarrow> (\<exists>ls. es' = es @ ls \<and> list_all is_log ls)"

lemma only_logs_simps [simp]:
  "only_logs es es" "list_all is_log ls \<Longrightarrow> only_logs es (es @ ls)"
  "only_logs es es' \<Longrightarrow> list_all is_log ls \<Longrightarrow> only_logs es (es' @ ls)"
  by (auto simp: only_logs_def)

lemma only_logs_trans: "only_logs a b \<Longrightarrow> only_logs b c \<Longrightarrow> only_logs a c"
  by (auto simp: only_logs_def)

lemma op_meter_logs [simp]: "list_all is_log ls \<Longrightarrow> op_meter (es @ ls) = op_meter es"
proof (induction ls rule: rev_induct)
  case (snoc e ls)
  then show ?case using op_meter_log [of "es @ ls"] by (cases e) auto
qed simp

lemma only_logs_meter: "only_logs es es' \<Longrightarrow> op_meter es' = op_meter es"
  by (auto simp: only_logs_def)

lemma propagate_events: "propagate_ca opts w = (r, w') \<Longrightarrow> events w' = events w"
  by (auto simp: propagate_ca_def os_Setenv_def split: if_splits)

lemma on_os_events: "on_os f w = (r, w') \<Longrightarrow> events w' = events w"
  by (auto simp: on_os_def split: prod.splits)

lemma listener_events: "open_listener opts w = (r, w') \<Longrightarrow> only_logs (events w) (events w')"
  by (auto simp: open_listener_def Listen_def Let_def dest!: on_os_events
      split: outcome.splits prod.splits sum.splits option.splits if_splits)

lemma register_events: "register_wrappers D opts w = (r, w') \<Longrightarrow> only_logs (events w) (events w')"
  by (auto simp: register_wrappers_def Let_def split: if_splits prod.splits)

lemma start_events:
  assumes "start_plugin D logger opts none w = (r, w')"
  shows "only_logs (events w) (events w')"
proof (cases "NewStandardLogger logger (logLevel opts)")
  case None
  obtain ca w1 where p: "propagate_ca opts w = (ca, w1)" by fastforce
  obtain a w2 where s: "select_auth opts w1 = (a, w2)" by fastforce
  have w2: "events w1 = events w" "events w2 = events w"
    using propagate_events [OF p] select_auth_frame [OF s] by simp_all
  show ?thesis
  proof (cases "(\<exists>e. ca = Inl e) \<or> (\<exists>e. a = Inl e)")
    case True
    then show ?thesis using assms None p s w2 by (auto simp: start_plugin_def split: sum.splits)
  next
    case False
    then obtain fs0 am fs files where ca: "ca = Inr fs0" "a = Inr (am, fs, files)"
      by (metis old.sum.exhaust prod_cases3)
    let ?v = "log_info ''starting kms plugin'' (startup_fields opts @ fs0 @ fs) w2"
    obtain c w3 where c: "connect D opts am ?v = (c, w3)" by fastforce
    have w3: "only_logs (events w) (events w3)"
      using NewClient_frame [OF c [unfolded connect_def]] w2 by simp
    obtain l w4 where l: "open_listener opts (set_heap (case c of Ok x \<Rightarrow> x | _ \<Rightarrow> none)
        (log_info ''Successfully authenticated to vault'' [] w3)) = (l, w4)" by fastforce
    have w4: "only_logs (events w) (events w4)"
      using only_logs_trans [OF _ listener_events [OF l]] w3 by simp
    obtain ks w5 where k: "register_wrappers D opts w4 = (ks, w5)" by fastforce
    have w5: "only_logs (events w) (events w5)"
      by (rule only_logs_trans [OF w4 register_events [OF k]])
    show ?thesis
      using assms None p s ca c l w3 w4 w5 k
      by (auto simp: start_plugin_def clean_up_def announce_def
          split: outcome.splits sum.splits process_exit.splits prod.splits)
  qed
qed (use assms in \<open>auto simp: start_plugin_def\<close>)

lemma ran_meter:
  assumes "start_plugin D logger opts none w = (Inr run, w1)" "complete_options D opts"
    and "sys_run D run outside w1 as w2"
  shows "op_meter (events w2) = add4 (op_meter (events w)) (charges as)"
  using sys_run_meter [OF assms(3) started_client(2) [OF assms(1,2)]]
    only_logs_meter [OF start_events [OF assms(1)]] by simp

lemma read_options_complete: "read_options parse D env args = Run opts \<Longrightarrow> complete_options D opts"
  by (auto simp: read_options_def validateFlags_None split: sum.splits option.splits if_splits)

lemma process_meter:
  assumes "process_run parse D outside args logger none w as x w'"
  shows "op_meter (events w') = add4 (op_meter (events w)) (charges as)"
  using assms
proof cases
  case (not_started opts)
  then show ?thesis using only_logs_meter [OF start_events] by simp
next
  case (stopped opts run w1 w2 e sig)
  from ran_meter [OF stopped(2) read_options_complete [OF stopped(1)] stopped(3)] stopped(4)
  show ?thesis
    by (auto simp: shut_down_def deferred_def clean_up_def signal_received_def split: option.splits)
next
  case (grpc_failed opts run w1 w2 a b err)
  from ran_meter [OF grpc_failed(2) read_options_complete [OF grpc_failed(1)] grpc_failed(3)] grpc_failed(4)
  show ?thesis by (auto simp: grpc_served_def split: option.splits if_splits)
next
  case (http_failed opts run w1 w2 a err)
  from ran_meter [OF http_failed(2) read_options_complete [OF http_failed(1)] http_failed(3)] http_failed(4)
  show ?thesis by (auto simp: http_served_def split: option.splits if_splits)
next
  case (ticker_panicked opts run w1 w2 k)
  from ran_meter [OF ticker_panicked(3) read_options_complete [OF ticker_panicked(2)] ticker_panicked(4)]
    ticker_panicked(5)
  show ?thesis by (auto simp: token_refresher_def LeaseRefresher_def split: if_splits)
next
  case (refresher_panicked opts run w1 w2 k)
  have a: "attached (heap w1)"
    by (rule started_client(2) [OF refresher_panicked(3) read_options_complete [OF refresher_panicked(2)]])
  have "attached (heap w2)"
    using sys_run_setup [OF refresher_panicked(4) a] a by (simp add: same_setup_def attached_def)
  from lease_tick_steady [OF refresher_panicked(5) this] op_meter_lease
    ran_meter [OF refresher_panicked(3) read_options_complete [OF refresher_panicked(2)] refresher_panicked(4)]
  show ?thesis by (auto simp: steady_def)
next
  case (handler_panicked opts run w1 bs w2 ctx q a k)
  from ran_meter [OF handler_panicked(4) read_options_complete [OF handler_panicked(3)] handler_panicked(5)]
    vault_quiet.kms_serve_meter [OF handler_panicked(6)] handler_panicked(1)
  show ?thesis by (simp add: charges_snoc add4_assoc)
qed simp_all

end
