(* ===== verification/Demo_Plugin.thy ===== *)
theory Demo_Plugin
  imports Plugin_Process Demo_Vault
begin

text \<open>
  A concrete start of the plugin for the witnesses: an environment library that sets the defaults of
  the struct tags, a command line, and the world the plugin then runs in.
\<close>

definition demo_parse :: "string \<Rightarrow> (string \<Rightarrow> string option) \<Rightarrow> options \<Rightarrow> go_error + options" where
  "demo_parse pre env opts = Inr (opts
     \<lparr>o_Socket := ''unix:///opt/kms/vaultkms.socket'', o_AppRoleMount := ''approle'',
      o_UserPassMount := ''userpass'', o_CertAuthMount := ''cert'', o_JWTMount := ''jwt'',
      o_JWTTokenPath := ''/var/run/secrets/kubernetes.io/serviceaccount/token'',
      o_JWTTokenSource := ''file'', o_TokenRefreshInterval := ''60s'', o_TokenRenewalSeconds := 3600,
      o_TransitKey := ''kms'', o_TransitMount := ''transit'', o_HealthPort := ''8080''\<rparr>)"

definition demo_args :: "string list" where
  "demo_args = [''--vault-address=https://vault:8200'', ''--auth-method=token'', ''--token=s.demo'']"

definition demo_options :: options where
  "demo_options = zero_options
     \<lparr>o_Socket := ''unix:///opt/kms/vaultkms.socket'', o_AppRoleMount := ''approle'',
      o_UserPassMount := ''userpass'', o_CertAuthMount := ''cert'', o_JWTMount := ''jwt'',
      o_JWTTokenPath := ''/var/run/secrets/kubernetes.io/serviceaccount/token'',
      o_JWTTokenSource := ''file'', o_TokenRefreshInterval := ''60s'', o_TokenRenewalSeconds := 3600,
      o_TransitKey := ''kms'', o_TransitMount := ''transit'', o_HealthPort := ''8080'',
      o_VaultAddress := ''https://vault:8200'', o_AuthMethod := ''token'', o_Token := ''s.demo''\<rparr>"

lemma demo_complete: "complete_options demo_deps demo_options"
proof -
  have "\<exists>d. ParseDuration ''60s'' = Inr d"
  proof -
    have u: "unitMap ''s'' = Some 1000000000" by (simp add: unitMap_def)
    have s: "show_nat 60 @ ''s'' = ''60s''" by code_simp
    from ParseDuration_whole [OF u, of 60] show ?thesis unfolding s by simp
  qed
  moreover have "to_lower ''token'' = ''token''" by code_simp
  ultimately show ?thesis
    by (simp add: complete_options_def credentials_complete_def demo_options_def zero_options_def)
qed

lemma demo_flags:
  "flag_Parse plugin_flags demo_args opts = Inr (opts\<lparr>o_VaultAddress := ''https://vault:8200'',
      o_AuthMethod := ''token'', o_Token := ''s.demo''\<rparr>)"
proof -
  have "map_of plugin_flags ''vault-address'' = Some (StringVar (\<lambda>x. o_VaultAddress_update (\<lambda>_. x)))"
    "map_of plugin_flags ''auth-method'' = Some (StringVar (\<lambda>x. o_AuthMethod_update (\<lambda>_. x)))"
    "map_of plugin_flags ''token'' = Some (StringVar (\<lambda>x. o_Token_update (\<lambda>_. x)))"
    by (simp_all add: plugin_flags_def)
  note f = this [THEN flag_Parse_one(1)]
  show ?thesis
    using f(1) [of "''https://vault:8200''" "[''--auth-method=token'', ''--token=s.demo'']" opts]
      f(2) [of "''token''" "[''--token=s.demo'']" "opts\<lparr>o_VaultAddress := ''https://vault:8200''\<rparr>"]
      f(3) [of "''s.demo''" "[]" "opts\<lparr>o_VaultAddress := ''https://vault:8200'', o_AuthMethod := ''token''\<rparr>"]
    by (simp add: demo_args_def flag_Parse.simps [of _ "[]"])
qed

lemma demo_read: "read_options demo_parse demo_deps env demo_args = Run demo_options"
proof -
  have o: "zero_options
     \<lparr>o_Socket := ''unix:///opt/kms/vaultkms.socket'', o_AppRoleMount := ''approle'',
      o_UserPassMount := ''userpass'', o_CertAuthMount := ''cert'', o_JWTMount := ''jwt'',
      o_JWTTokenPath := ''/var/run/secrets/kubernetes.io/serviceaccount/token'',
      o_JWTTokenSource := ''file'', o_TokenRefreshInterval := ''60s'', o_TokenRenewalSeconds := 3600,
      o_TransitKey := ''kms'', o_TransitMount := ''transit'', o_HealthPort := ''8080'',
      o_VaultAddress := ''https://vault:8200'', o_AuthMethod := ''token'', o_Token := ''s.demo''\<rparr> = demo_options"
    by (simp add: demo_options_def)
  have v: "validateFlags demo_deps demo_options = None"
    using demo_complete by (simp add: validateFlags_None)
  have "\<not> o_Version demo_options"
    by (simp add: demo_options_def zero_options_def)
  with v show ?thesis
    by (simp add: read_options_def ParseEnvs_def demo_parse_def demo_flags o)
qed

lemma demo_login:
  "connect demo_deps demo_options (WithTokenAuth ''s.demo'') (w :: ('h, demo_state) world) =
     (if demo_alive (svc w) then
       (Ok (demo_client\<lparr>api := \<lparr>demo_address = ''https://vault:8200'', demo_namespace = [], demo_token = ''s.demo''\<rparr>\<rparr>), w)
      else (Err (ErrWrap ''failed to connect to vault'' (ErrResponse 403 ''permission denied'')), w))"
  by (simp add: connect_def NewClient_def demo_options_def zero_options_def demo_defs remember_def on_svc_def Let_def)

lemma demo_socket: "NewSocket ''unix:///opt/kms/vaultkms.socket'' = Ok \<lparr>Network = ''unix'', Path = ''/opt/kms/vaultkms.socket''\<rparr>"
proof -
  have "to_lower ''unix'' = ''unix''" by code_simp
  then show ?thesis by (simp add: NewSocket_Ok)
qed

definition demo_running :: running where
  "demo_running = \<lparr>run_listener = ''/opt/kms/vaultkms.socket'', run_services = [KMS1, KMS2], run_checks = [KMS1, KMS2], run_files = []\<rparr>"

definition demo_started :: "(demo_api client, demo_state) world" where
  "demo_started = snd (start_plugin demo_deps (\<lambda>cfg. None) demo_options demo_client demo_world)"

lemma demo_select: "select_auth demo_options w = (Inr (WithTokenAuth ''s.demo'', [], []), w)"
proof -
  have "to_lower ''token'' = ''token''" by code_simp
  then show ?thesis by (simp add: select_auth_def demo_options_def zero_options_def)
qed

lemma demo_start: "start_plugin demo_deps (\<lambda>cfg. None) demo_options demo_client demo_world = (Inr demo_running, demo_started)"
proof -
  have c: "o_VaultCACert demo_options = []" "o_Socket demo_options = ''unix:///opt/kms/vaultkms.socket''"
    "\<not> o_DisableV1 demo_options" "\<not> o_DisableV2 demo_options" "\<not> o_ForceSocketOverwrite demo_options"
    by (simp_all add: demo_options_def zero_options_def)
  have a: "demo_alive (svc demo_world)" by (simp add: demo_world_def)
  have l: "fst (open_listener demo_options w) = Inr ''/opt/kms/vaultkms.socket''"
    if "os_files (os w) = Map.empty" "\<And>op n. os_fault (os w) op n = None" for w :: "(demo_api client, demo_state) world"
    using that
    by (simp add: open_listener_def c demo_socket Listen_def on_os_def os_Stat_def net_Listen_def next_call_def
        call_fault_def path_error_def)
  have f: "os_files (os demo_world) = Map.empty" "\<And>op n. os_fault (os demo_world) op n = None"
    by (simp_all add: demo_world_def demo_os_def)
  let ?u = "set_heap (demo_client\<lparr>api := \<lparr>demo_address = ''https://vault:8200'', demo_namespace = [],
        demo_token = ''s.demo''\<rparr>\<rparr>)
      (log_info ''Successfully authenticated to vault'' []
        (log_info ''starting kms plugin'' (startup_fields demo_options) demo_world))"
  obtain v where v: "open_listener demo_options ?u = (Inr ''/opt/kms/vaultkms.socket'', v)"
    using l [of ?u] f by (metis log_simps(3) prod.collapse set_heap_simps(3))
  have "fst (start_plugin demo_deps (\<lambda>cfg. None) demo_options demo_client demo_world) = Inr demo_running"
    using v a
    by (simp add: start_plugin_def NewStandardLogger_def propagate_ca_def c demo_select demo_login register_wrappers_def v1_Register_def v2_Register_def
        demo_running_def Let_def)
  then show ?thesis by (simp add: demo_started_def prod_eq_iff)
qed

end
