(* ===== verification/Plugin_Environment.thy ===== *)
theory Plugin_Environment
  imports Plugin_Startup
begin

text \<open>
  Where an option comes from: the struct tags of \<open>Options\<close> name the environment variable and the default
  of each option, the flags are read after them. The library that reads the tags is the argument
  \<open>parse\<close>; \<open>reads_tags\<close> states what its documentation says of string and boolean fields.
\<close>

subsection \<open>The struct tags\<close>

text \<open>Each option, by the name of its flag, with \<open>env\<close> and \<open>envDefault\<close>; \<open>Version\<close> has no tag.\<close>

definition env_tags :: "(string \<times> string \<times> string option) list" where
  "env_tags =
     [(''socket'', ''SOCKET'', Some ''unix:///opt/kms/vaultkms.socket''),
      (''force-socket-overwrite'', ''FORCE_SOCKET_OVERWRITE'', None),
      (''debug'', ''DEBUG'', None),
      (''vault-address'', ''VAULT_ADDR'', None),
      (''vault-namespace'', ''VAULT_NAMESPACE'', None),
      (''vault-ca-cert'', ''VAULT_CACERT'', None),
      (''auth-method'', ''AUTH_METHOD'', None),
      (''token'', ''TOKEN'', None),
      (''approle-role-id'', ''APPROLE_ROLE_ID'', None),
      (''approle-secret-id'', ''APPROLE_SECRET_ID'', None),
      (''approle-mount'', ''APPROLE_MOUNT'', Some ''approle''),
      (''userpass-username'', ''USERPASS_USERNAME'', None),
      (''userpass-password'', ''USERPASS_PASSWORD'', None),
      (''userpass-mount'', ''USERPASS_MOUNT'', Some ''userpass''),
      (''cert-mount'', ''CERT_MOUNT'', Some ''cert''),
      (''cert-role'', ''CERT_ROLE'', None),
      (''cert-file'', ''CERT_FILE'', None),
      (''cert-key'', ''CERT_KEY'', None),
      (''cert-pem'', ''CERT_PEM'', None),
      (''jwt-role'', ''JWT_ROLE'', None),
      (''jwt-mount'', ''JWT_MOUNT'', Some ''jwt''),
      (''jwt-token-path'', ''JWT_TOKEN_PATH'', Some ''/var/run/secrets/kubernetes.io/serviceaccount/token''),
      (''jwt-token-source'', ''JWT_TOKEN_SOURCE'', Some ''file''),
      (''jwt-spiffe-endpoint'', ''JWT_SPIFFE_ENDPOINT'', None),
      (''jwt-spiffe-audience'', ''JWT_SPIFFE_AUDIENCE'', None),
      (''jwt-spiffe-id'', ''JWT_SPIFFE_ID'', None),
      (''token-refresh-interval'', ''TOKEN_REFRESH_INTERVAL'', Some ''60s''),
      (''token-renewal'', ''TOKEN_RENEWAL_SECONDS'', Some ''3600''),
      (''transit-key'', ''TRANSIT_KEY'', Some ''kms''),
      (''transit-mount'', ''TRANSIT_MOUNT'', Some ''transit''),
      (''health-port'', ''HEALTH_PORT'', Some ''8080''),
      (''disable-v1'', ''DISABLE_V1'', Some ''false''),
      (''disable-v2'', ''DISABLE_V2'', Some ''false'')]"

text \<open>The variable, else the default, else nothing.\<close>

definition env_text :: "string \<Rightarrow> (string \<Rightarrow> string option) \<Rightarrow> string \<Rightarrow> string option \<Rightarrow> string" where
  "env_text pre env k d =
     (case env (pre @ k) of Some v \<Rightarrow> v | None \<Rightarrow> (case d of Some x \<Rightarrow> x | None \<Rightarrow> []))"

text \<open>
  What the library promises of a struct that was zero: a string field has its text, a boolean field is
  what \<open>strconv.ParseBool\<close> reads in its text, or false when it is empty.
\<close>

definition tag_read :: "(string \<Rightarrow> string option \<Rightarrow> string) \<Rightarrow> options \<Rightarrow> string \<times> string \<times> string option \<Rightarrow> bool" where
  "tag_read get opts = (\<lambda>(n, k, d).
     (case map_of plugin_flags n of
        Some (StringVar put) \<Rightarrow> map_of (option_table opts) n = Some (StringValue (get k d))
      | Some (BoolVar put) \<Rightarrow> (\<exists>b. map_of (option_table opts) n = Some (BoolValue b)
          \<and> (if get k d = [] then \<not> b else ParseBool (get k d) = Some b))
      | _ \<Rightarrow> True))"

definition reads_tags :: "(string \<Rightarrow> (string \<Rightarrow> string option) \<Rightarrow> options \<Rightarrow> go_error + options) \<Rightarrow> bool" where
  "reads_tags parse \<longleftrightarrow> (\<forall>pre env opts. parse pre env zero_options = Inr opts \<longrightarrow>
     list_all (tag_read (env_text pre env) opts) env_tags)"

lemma env_tags_flags: "list_all (\<lambda>n. n \<in> set (map fst plugin_flags)) (map fst env_tags)"
  by code_simp

text \<open>The variables of two options that are written differently in the documentation.\<close>

lemma env_names:
  "''VAULT_KMS_'' @ fst (the (map_of env_tags ''token-renewal'')) = ''VAULT_KMS_TOKEN_RENEWAL_SECONDS''"
  "''VAULT_KMS_'' @ fst (the (map_of env_tags ''force-socket-overwrite'')) = ''VAULT_KMS_FORCE_SOCKET_OVERWRITE''"
  by (simp_all add: env_tags_def)

subsection \<open>Options no argument names\<close>

definition names_flag :: "string \<Rightarrow> string \<Rightarrow> bool" where
  "names_flag n s \<longleftrightarrow> 2 \<le> length s \<and> hd s = CHR ''-''
     \<and> fst (flag_name_value (if s ! 1 = CHR ''-'' then drop 2 s else drop 1 s)) = n"

lemma parseOne_Next:
  assumes "parseOne formal s args a = FlagsNext a' r"
  obtains n val v where "map_of formal n = Some v" "set_flag n v val args a = FlagsNext a' r" "names_flag n s"
proof -
  let ?name = "if s ! 1 = CHR ''-'' then drop 2 s else drop 1 s"
  obtain n val where f: "flag_name_value ?name = (n, val)" by fastforce
  with assms have l: "2 \<le> length s" "hd s = CHR ''-''"
    by (auto simp: parseOne_def Let_def split: if_splits)
  with f have "names_flag n s" by (simp add: names_flag_def)
  moreover from assms f obtain v where "map_of formal n = Some v" "set_flag n v val args a = FlagsNext a' r"
    by (auto simp: parseOne_def Let_def split: if_splits option.splits)
  ultimately show thesis using that by blast
qed

lemma set_flag_rest: "set_flag n v val args a = FlagsNext a' r \<Longrightarrow> set r \<subseteq> set args"
  by (cases v) (auto simp: set_flag_def split: option.splits list.splits sum.splits)

lemma set_flag_keeps: "set_flag n v val args a = FlagsNext a' r \<Longrightarrow> P a \<Longrightarrow> flag_keeps P v \<Longrightarrow> P a'"
  by (cases v) (auto simp: set_flag_def split: option.splits list.splits sum.splits)

lemma flag_Parse_unnamed:
  "flag_Parse formal args a = Inr a' \<Longrightarrow> list_all (\<lambda>s. \<not> names_flag n s) args \<Longrightarrow> P a \<Longrightarrow>
     (\<And>m v. map_of formal m = Some v \<Longrightarrow> m \<noteq> n \<Longrightarrow> flag_keeps P v) \<Longrightarrow> P a'"
proof (induction formal args a rule: flag_Parse.induct)
  case (1 formal args a)
  show ?case
  proof (cases args)
    case Nil
    with 1(2,4) show ?thesis by (simp add: flag_Parse.simps [of formal "[]"])
  next
    case (Cons s rest)
    show ?thesis
    proof (cases "parseOne formal s rest a")
      case (FlagsNext a1 r)
      from parseOne_Next [OF FlagsNext] obtain m val v
        where m: "map_of formal m = Some v" "set_flag m v val rest a = FlagsNext a1 r" "names_flag m s" .
      have "m \<noteq> n" using 1(3) Cons m(3) by auto
      then have "P a1" using set_flag_keeps [OF m(2), where P = P] 1(4) 1(5) [OF m(1)] by blast
      moreover have "list_all (\<lambda>s. \<not> names_flag n s) r"
        using 1(3) Cons set_flag_rest [OF m(2)] by (auto simp: list_all_iff)
      moreover have "flag_Parse formal r a1 = Inr a'"
        using 1(2) Cons FlagsNext by (simp add: flag_Parse.simps [of formal "s # rest"])
      ultimately show ?thesis using 1(1) [OF Cons FlagsNext] 1(5) by blast
    qed (use 1(2,4) Cons in \<open>simp_all add: flag_Parse.simps [of formal "s # rest"]\<close>)
  qed
qed

lemma replace_other: "m \<noteq> n \<Longrightarrow> map_of (replace_value m x t) n = map_of t n"
  by (induction t) (auto simp: replace_value_def)

lemma replace_own: "n \<in> set (map fst t) \<Longrightarrow> map_of (replace_value n x t) n = Some x"
  by (induction t) (auto simp: replace_value_def)

lemma plugin_flags_keep:
  assumes "map_of plugin_flags m = Some v" "m \<noteq> n"
  shows "flag_keeps (\<lambda>opts. map_of (option_table opts) n = y) v"
  using plugin_flags_writes_own [OF assms(1)] assms(2) by (cases v) (auto simp: replace_other)

lemma flags_unnamed:
  assumes "flag_Parse plugin_flags args opts = Inr opts'" "list_all (\<lambda>s. \<not> names_flag n s) args"
  shows "map_of (option_table opts') n = map_of (option_table opts) n"
  using flag_Parse_unnamed [OF assms, where P = "\<lambda>u. map_of (option_table u) n = map_of (option_table opts) n"]
    plugin_flags_keep by blast

lemma option_names: "map_of plugin_flags n = Some v \<Longrightarrow> n \<in> set (map fst (option_table opts))"
  using map_of_SomeD [of plugin_flags n v] plugin_flags_names [of opts] by (metis fst_conv image_eqI list.set_map)

text \<open>Without a flag the environment decides, a flag overrides it.\<close>

lemma option_sources:
  assumes "reads_tags parse" "(n, k, d) \<in> set env_tags" "map_of plugin_flags n = Some (StringVar put)"
    and "list_all (\<lambda>s. \<not> names_flag n s) args"
  shows "read_options parse D env args = Run opts \<Longrightarrow>
      map_of (option_table opts) n = Some (StringValue (env_text ''VAULT_KMS_'' env k d))"
    and "read_options parse D env ((''--'' @ n @ ''='' @ x) # args) = Run opts \<Longrightarrow>
      map_of (option_table opts) n = Some (StringValue x)"
proof -
  assume r: "read_options parse D env args = Run opts"
  then obtain o1 where p: "parse ''VAULT_KMS_'' env zero_options = Inr o1" "flag_Parse plugin_flags args o1 = Inr opts"
    by (auto simp: read_options_def ParseEnvs_def split: sum.splits if_splits option.splits)
  have "map_of (option_table o1) n = Some (StringValue (env_text ''VAULT_KMS_'' env k d))"
    using assms(1-3) p(1) by (fastforce simp: reads_tags_def list_all_iff tag_read_def)
  with flags_unnamed [OF p(2) assms(4)]
  show "map_of (option_table opts) n = Some (StringValue (env_text ''VAULT_KMS_'' env k d))" by simp
next
  assume r: "read_options parse D env ((''--'' @ n @ ''='' @ x) # args) = Run opts"
  then obtain o1 where "flag_Parse plugin_flags ((''--'' @ n @ ''='' @ x) # args) o1 = Inr opts"
    by (auto simp: read_options_def ParseEnvs_def split: sum.splits if_splits option.splits)
  with flag_Parse_one(1) [OF assms(3), of x args o1] flag_Parse_one(2) [OF assms(3), of x o1] have f: "flag_Parse plugin_flags args (put x o1) = Inr opts"
    "option_table (put x o1) = replace_value n (StringValue x) (option_table o1)" by simp_all
  show "map_of (option_table opts) n = Some (StringValue x)"
    using flags_unnamed [OF f(1) assms(4)] f(2) replace_own [OF option_names [OF assms(3)]] by simp
qed

subsection \<open>A library that reads the tags\<close>

text \<open>For the witness: each tag is read in turn into the target of its flag; numbers are left alone.\<close>

definition read_tag :: "string \<Rightarrow> string \<Rightarrow> options \<Rightarrow> go_error + options" where
  "read_tag n x opts =
     (case map_of plugin_flags n of
        Some (StringVar put) \<Rightarrow> Inr (put x opts)
      | Some (BoolVar put) \<Rightarrow>
          (if x = [] then Inr (put False opts)
           else (case ParseBool x of None \<Rightarrow> Inl (ErrNew ''env: parse error'') | Some b \<Rightarrow> Inr (put b opts)))
      | _ \<Rightarrow> Inr opts)"

fun read_tags :: "(string \<Rightarrow> string option \<Rightarrow> string) \<Rightarrow> (string \<times> string \<times> string option) list \<Rightarrow> options \<Rightarrow>
    go_error + options" where
  "read_tags get [] opts = Inr opts"
| "read_tags get ((n, k, d) # ts) opts =
     (case read_tag n (get k d) opts of Inl e \<Rightarrow> Inl e | Inr opts' \<Rightarrow> read_tags get ts opts')"

definition demo_env :: "string \<Rightarrow> (string \<Rightarrow> string option) \<Rightarrow> options \<Rightarrow> go_error + options" where
  "demo_env pre env opts = read_tags (env_text pre env) env_tags opts"

lemma read_tag_other:
  "read_tag m x opts = Inr opts' \<Longrightarrow> m \<noteq> n \<Longrightarrow> map_of (option_table opts') n = map_of (option_table opts) n"
  by (auto simp: read_tag_def replace_other dest!: plugin_flags_writes_own
      split: option.splits flag_var.splits if_splits)

lemma read_tags_other:
  "read_tags get ts opts = Inr opts' \<Longrightarrow> n \<notin> fst ` set ts \<Longrightarrow>
     map_of (option_table opts') n = map_of (option_table opts) n"
proof (induction get ts opts rule: read_tags.induct)
  case (2 get n' k d ts opts)
  then obtain o1 where "read_tag n' (get k d) opts = Inr o1" "read_tags get ts o1 = Inr opts'"
    by (auto split: sum.splits)
  with 2 read_tag_other [of n' "get k d" opts o1 n] show ?case by auto
qed simp

lemma read_tag_own:
  assumes "read_tag n (get k d) opts = Inr opts'"
  shows "tag_read get opts' (n, k, d)"
proof (cases "map_of plugin_flags n")
  case (Some v)
  note own = plugin_flags_writes_own [OF Some] replace_own [OF option_names [OF Some]]
  with assms Some show ?thesis
    by (cases v) (auto simp: read_tag_def tag_read_def split: if_splits option.splits)
qed (simp add: tag_read_def)

lemma tag_read_same:
  "tag_read get opts (n, k, d) \<Longrightarrow> map_of (option_table opts') n = map_of (option_table opts) n \<Longrightarrow> tag_read get opts' (n, k, d)"
  by (simp only: tag_read_def prod.case)

lemma read_tags_own:
  "read_tags get ts opts = Inr opts' \<Longrightarrow> distinct (map fst ts) \<Longrightarrow> list_all (tag_read get opts') ts"
proof (induction get ts opts rule: read_tags.induct)
  case (2 get n k d ts opts)
  then obtain o1 where r: "read_tag n (get k d) opts = Inr o1" "read_tags get ts o1 = Inr opts'"
    by (auto split: sum.splits)
  have "n \<notin> fst ` set ts" using 2(3) by simp
  from tag_read_same [OF read_tag_own [of n get k d opts o1, OF r(1)] read_tags_other [OF r(2) this]] 2(1) [OF r] 2(3)
  show ?case by simp
qed simp

lemma demo_env_reads: "reads_tags demo_env"
proof -
  have "distinct (map fst env_tags)" by code_simp
  then show ?thesis
    using read_tags_own by (auto simp: reads_tags_def demo_env_def)
qed

end
