(* ===== verification/Plugin_Properties.thy ===== *)
theory Plugin_Properties
  imports Demo_Plugin Plugin_Environment
begin

text \<open>
  What is proved of the command: the flags and the options, what the start guarantees, and what the
  process leaves behind. The lemmas are those of the component theories; the witnesses run the
  concrete start of \<open>Demo_Plugin\<close>.
\<close>

section \<open>Options\<close>



text \<open>An environment that sets the transit mount and a login method, which the command line overrides.\<close>

definition demo_environ :: "string \<Rightarrow> string option" where
  "demo_environ = map_of [(''VAULT_KMS_TRANSIT_MOUNT'', ''transit2''), (''VAULT_KMS_AUTH_METHOD'', ''cert'')]"

lemma demo_env_options:
  "demo_env ''VAULT_KMS_'' demo_environ zero_options = Inr (zero_options
     \<lparr>o_Socket := ''unix:///opt/kms/vaultkms.socket'', o_AuthMethod := ''cert'', o_AppRoleMount := ''approle'',
      o_UserPassMount := ''userpass'', o_CertAuthMount := ''cert'', o_JWTMount := ''jwt'',
      o_JWTTokenPath := ''/var/run/secrets/kubernetes.io/serviceaccount/token'',
      o_JWTTokenSource := ''file'', o_TokenRefreshInterval := ''60s'',
      o_TransitKey := ''kms'', o_TransitMount := ''transit2'', o_HealthPort := ''8080''\<rparr>)"
  by code_simp

lemma demo_env_read: "\<exists>opts. read_options demo_env demo_deps demo_environ demo_args = Run opts"
proof -
  let ?o = "demo_options\<lparr>o_TransitMount := ''transit2'', o_TokenRenewalSeconds := 0\<rparr>"
  have "complete_options demo_deps ?o"
    using demo_complete by (simp add: complete_options_def credentials_complete_def demo_options_def zero_options_def)
  then have v: "validateFlags demo_deps ?o = None" by (simp add: validateFlags_None)
  have "\<not> o_Version ?o" by (simp add: demo_options_def zero_options_def)
  moreover have f: "flag_Parse plugin_flags demo_args (case demo_env ''VAULT_KMS_'' demo_environ zero_options of Inr u \<Rightarrow> u) = Inr ?o"
    unfolding demo_env_options sum.case demo_flags by (simp add: demo_options_def zero_options_def)
  ultimately have "read_options demo_env demo_deps demo_environ demo_args = Run ?o"
    using v by (simp add: read_options_def ParseEnvs_def demo_env_options)
  then show ?thesis ..
qed



text \<open>What is secret in the options.\<close>

definition redact :: "options \<Rightarrow> options" where
  "redact opts = opts\<lparr>o_Token := [], o_AppRoleRoleSecretID := [], o_UserPassPassword := []\<rparr>"

text \<open>
  C32. The log line of the start does not depend on the token, the secret id and the password: none of
  its fields does, whichever login method is selected.
\<close>

theorem startup_logs_no_secret:
  "startup_fields (redact opts) = startup_fields opts
   \<and> jwtLogFields (redact opts) = jwtLogFields opts
   \<and> map_sum id (\<lambda>(m, fs, files). fs) (fst (select_auth (redact opts) w))
       = map_sum id (\<lambda>(m, fs, files). fs) (fst (select_auth opts w))"
  by (simp add: redact_def startup_fields_def jwtLogFields_def select_auth_def Let_def jwtAuthOption_def
      on_os_def split: prod.split sum.split)

section \<open>The process\<close>

text \<open>
  C9. A plugin that runs was configured with a complete option set and its token was accepted by
  Vault at the start; whatever then happens, its client stays well-formed: it keeps the transit key
  and the renewal of the options and a login method to fall back on, and the wrappers its
  options leave enabled, at least one, are the services of the gRPC server and the probers of the
  health endpoint.
\<close>

theorem started_plugin_verified:
  assumes "read_options parse D env args = Run opts" "start_plugin D logger opts none w = (Inr run, w1)"
    and "sys_run D run outside w1 as w2"
  shows "config_of (heap w2) = (o_TransitMount opts, o_TransitKey opts, o_TokenRenewalSeconds opts)
    \<and> attached (heap w2) \<and> complete_options D opts
    \<and> run_services run = enabled_versions opts \<and> run_checks run = enabled_versions opts \<and> enabled_versions opts \<noteq> []
    \<and> (\<exists>v s v'. LookupSelf D (api (heap w1)) v = (Inr s, v'))"
proof -
  note c = read_options_complete [OF assms(1)]
  note s = started_client [OF assms(2) c]
  from sys_run_setup [OF assms(3) s(2)] s c show ?thesis
    by (auto simp: same_setup_def attached_def)
qed

theorem started_plugin_verified_witness:
  "start_plugin demo_deps (\<lambda>cfg. None) demo_options demo_client demo_world = (Inr demo_running, demo_started)
   \<and> attached (heap demo_started) \<and> run_checks demo_running = [KMS1, KMS2]"
  using started_plugin_verified [OF demo_read demo_start sys_done] demo_start
  by (simp add: demo_running_def)

lemma demo_process:
  "process_run demo_parse demo_deps (=) demo_args (\<lambda>cfg. None) demo_client demo_world []
     ExitNil (snd (shut_down demo_running None (signal_received ''terminated'' demo_started)))"
  by (rule stopped [OF demo_read demo_start sys_done, where e = None and sig = "''terminated''"])
    (simp add: shut_down_def)

lemma demo_files: "removes (os demo_world)" "reads_only demo_deps"
  by (simp_all add: removes_def reads_only_def demo_world_def demo_os_def demo_deps_def)

text \<open>
  C11. A process that ends with a return (after a shutdown, or with an error at the start) leaves the
  file system as it found it but for the path of its socket, which is free: the key and certificate
  split from a combined PEM file are gone, whatever logins and refreshes it has done.
\<close>

theorem process_restores_files:
  assumes "process_run parse D outside args logger none w as x w'"
    and "removes (os w)" "reads_only D" "exit_code x = 0 \<or> (\<exists>e. x = ExitErr e)"
  shows "os_files (os w') = os_files (os w)
    \<or> (\<exists>opts s. read_options parse D (env_vars w) args = Run opts \<and> NewSocket (o_Socket opts) = Ok s
         \<and> os_files (os w') = (os_files (os w))(Path s := None))"
  using process_files [OF assms] by (auto simp: only_socket_def)

theorem process_restores_files_witness:
  "os_files (os (snd (shut_down demo_running None (signal_received ''terminated'' demo_started)))) = Map.empty"
proof -
  have "exit_code ExitNil = 0 \<or> (\<exists>e. ExitNil = ExitErr e)" by simp
  from process_restores_files [OF demo_process demo_files this] show ?thesis
    by (auto simp: demo_world_def demo_os_def)
qed



text \<open>
  C33. A plugin that cannot log in at Vault ends through the logger's \<open>Fatal\<close>, which runs no deferred
  call: the temporary files that hold the certificate and the private key stay.
\<close>

theorem fatal_leaves_key:
  assumes "to_lower (o_AuthMethod opts) = ''cert''" "o_CertPEM opts \<noteq> []"
    and "propagate_ca opts w = (Inr ca, w1)" "select_auth opts w1 = (Inr (am, fs, files), w2)"
    and "connect D opts am (log_info ''starting kms plugin'' (startup_fields opts @ ca @ fs) w2) = (Err e, w3)"
    and "reads_only D" "removes (os w)"
  shows "fst (start_plugin D (\<lambda>cfg. None) opts none w) = Inl ExitFatal
    \<and> (\<exists>c k certF keyF. fst (parseCombinedPEM (o_CertPEM opts) (os w)) = Inr (c, k)
         \<and> os_files (os w) certF = None \<and> os_files (os w) keyF = None
         \<and> os_files (os (snd (start_plugin D (\<lambda>cfg. None) opts none w)))
             = (os_files (os w))(certF := Some (RegularFile c), keyF := Some (RegularFile k)))"
proof -
  have w1: "os w1 = os w" by (rule propagate_files [OF assms(3)])
  from assms(1,2,4) w1 obtain cert key s
    where p: "ParseCombinedPEMFile (o_CertPEM opts) (os w) = (Inr (cert, key, files), s)" "os w2 = s"
    by (auto simp: select_auth_def option_words on_os_def split: prod.splits sum.splits)
  from PEM_file_created [OF p(1) assms(7)] obtain c k
    where "fst (parseCombinedPEM (o_CertPEM opts) (os w)) = Inr (c, k)" "created (os w) [(key, k), (cert, c)] s"
    by auto
  then have "fst (parseCombinedPEM (o_CertPEM opts) (os w)) = Inr (c, k) \<and> os_files (os w) cert = None
      \<and> os_files (os w) key = None
      \<and> os_files s = (os_files (os w))(cert := Some (RegularFile c), key := Some (RegularFile k))"
    by (auto simp: created_def fun_eq_iff)
  with fatal_keeps_files [OF assms(3-6), of none] p(2) show ?thesis by auto
qed

text \<open>A certificate login that Vault denies.\<close>

definition demo_pem_options :: options where
  "demo_pem_options = zero_options\<lparr>o_AuthMethod := ''cert'', o_CertPEM := ''/pem'', o_CertAuthMount := ''denied'',
     o_CertAuthRole := ''role'', o_VaultAddress := ''https://vault:8200''\<rparr>"

lemma demo_denied:
  "connect demo_deps demo_pem_options (WithCertAuth ''denied'' ''role'' cert key []) w
     = (Err (ErrWrap ''error performing cert auth'' (ErrResponse 403 ''permission denied'')), w)"
  by (simp add: connect_def NewClient_def demo_pem_options_def zero_options_def demo_defs login_defs on_svc_def
      on_os_def certAuthLoginPath_def)

theorem fatal_leaves_key_witness:
  "fst (start_plugin demo_deps (\<lambda>cfg. None) demo_pem_options demo_client demo_pem_world) = Inl ExitFatal
   \<and> (\<exists>keyF. os_files (os (snd (start_plugin demo_deps (\<lambda>cfg. None) demo_pem_options demo_client demo_pem_world))) keyF
        = Some (RegularFile (pem_EncodeToMemory demo_key)))"
proof -
  have o: "o_CertPEM demo_pem_options = ''/pem''" "o_VaultCACert demo_pem_options = []"
    "o_CertAuthMount demo_pem_options = ''denied''" "o_CertAuthRole demo_pem_options = ''role''"
    by (simp_all add: demo_pem_options_def zero_options_def)
  have am: "to_lower (o_AuthMethod demo_pem_options) = ''cert''"
    unfolding demo_pem_options_def by simp code_simp
  have p: "propagate_ca demo_pem_options demo_pem_world = (Inr [], demo_pem_world)"
    by (simp add: propagate_ca_def o)
  have r: "removes (os demo_pem_world)" by (simp add: removes_def demo_pem_world_def demo_os_def)
  obtain cert key s where f: "ParseCombinedPEMFile ''/pem'' (os demo_pem_world) = (Inr (cert, key, [cert, key]), s)"
    using demo_split_file by blast
  have a: "select_auth demo_pem_options demo_pem_world = (Inr (WithCertAuth ''denied'' ''role'' cert key [],
      [FString ''cert-mount'' ''denied'', FString ''cert-role'' ''role''], [cert, key]), demo_pem_world\<lparr>os := s\<rparr>)"
    using f by (simp add: select_auth_def am option_words o on_os_def)
  have "o_CertPEM demo_pem_options \<noteq> []" by (simp add: o)
  from fatal_leaves_key [OF am this p a demo_denied demo_files(2) r, of demo_client] demo_split show ?thesis
    by (auto simp: o)
qed

end
