(* ===== verification/Test_Utils.thy ===== *)
theory Test_Utils
  imports Demo_Vault
begin

text \<open>
  \<open>pkg/testutils\<close>: the Vault containers of the tests, the temporary certificate files of the TLS
  container and the fake Workload API. The container library is the record \<open>docker\<close>; a container is
  a value of the type \<open>'k\<close>, and what reading a command's output to its end gives is a value. The
  lines of the standard logger are recorded as info lines. The decoder of \<open>encoding/json\<close> is an
  argument. The pause before the initialisation of Vault is not modelled. The socket of the fake is in
  Test_Workload_API, the certificates and the tokens of the tests are in Test_Certs.
\<close>

subsection \<open>Containers\<close>

record container_file =
  ContainerFilePath :: string
  Contents :: bytes
  FileMode :: nat

record container_request =
  ctr_Image :: string
  ExposedPorts :: "string list"
  Cmd :: "string list"
  Env :: "(string \<times> string) list"
  Files :: "container_file list"
  WaitPort :: string
  StartupTimeout :: int
  Started :: bool

record ('k, 'v) docker =
  vault_Run :: "string \<Rightarrow> string \<Rightarrow> string list \<Rightarrow> 'v \<Rightarrow> (go_error + 'k) \<times> 'v"
  HttpHostAddress :: "'k \<Rightarrow> 'v \<Rightarrow> (go_error + string) \<times> 'v"
  GenericContainer :: "container_request \<Rightarrow> 'v \<Rightarrow> (go_error + 'k) \<times> 'v"
  Exec :: "'k \<Rightarrow> string list \<Rightarrow> 'v \<Rightarrow> (go_error + (go_error + bytes)) \<times> 'v"
  Terminate :: "'k \<Rightarrow> 'v \<Rightarrow> go_error option \<times> 'v"
  Host :: "'k \<Rightarrow> 'v \<Rightarrow> (go_error + string) \<times> 'v"
  MappedPort :: "'k \<Rightarrow> string \<Rightarrow> 'v \<Rightarrow> (go_error + string) \<times> 'v"

definition dockerMuxHeaderSize :: nat where "dockerMuxHeaderSize = 8"

definition test_image :: string where "test_image = ''hashicorp/vault:1.16.0''"

definition test_token :: string where "test_token = ''root''"

record 'k TestContainer =
  Container :: 'k
  URI :: string
  tc_Token :: string

definition StartTestContainer :: "('k, 'v) docker \<Rightarrow> string list \<Rightarrow> ('h, 'v) world \<Rightarrow>
    (go_error + 'k TestContainer) \<times> ('h, 'v) world" where
  "StartTestContainer K commands w =
     (case on_svc (vault_Run K test_image test_token commands) w of
        (Inl e, w1) \<Rightarrow> (Inl (ErrWrap ''failed to start container'' e), w1)
      | (Inr k, w1) \<Rightarrow>
          (case on_svc (HttpHostAddress K k) w1 of
             (Inl e, w2) \<Rightarrow> (Inl (ErrWrap ''error returning container mapped port'' e), w2)
           | (Inr uri, w2) \<Rightarrow> (Inr \<lparr>Container = k, URI = uri, tc_Token = test_token\<rparr>, w2)))"

definition log_Println :: "string \<Rightarrow> ('h, 'v) world \<Rightarrow> ('h, 'v) world" where
  "log_Println s = log_info s []"

text \<open>\<open>b[8:]\<close> panics when there are fewer bytes.\<close>

definition slice_from :: "nat \<Rightarrow> bytes \<Rightarrow> bytes option" where
  "slice_from n b = (if length b < n then None else Some (drop n b))"

text \<open>\<open>strings.Split(s, " ")\<close>.\<close>

fun split_at :: "char \<Rightarrow> string \<Rightarrow> string list" where
  "split_at c [] = [[]]"
| "split_at c (x # s) =
     (if x = c then [] # split_at c s
      else (case split_at c s of [] \<Rightarrow> [[x]] | f # fs \<Rightarrow> (x # f) # fs))"

definition RunCommand :: "('k, 'v) docker \<Rightarrow> 'k TestContainer \<Rightarrow> string \<Rightarrow> ('h, 'v) world \<Rightarrow>
    string outcome \<times> ('h, 'v) world" where
  "RunCommand K v cmd w =
     (case on_svc (Exec K (Container v) (split_at CHR '' '' cmd))
         (log_Println (''running command:  '' @ cmd) w) of
        (Inl e, w1) \<Rightarrow> (Err (ErrWrap ''error creating root token'' e), w1)
      | (Inr (Inl e), w1) \<Rightarrow> (Err (ErrWrap ''error reading root token'' e), w1)
      | (Inr (Inr rootToken), w1) \<Rightarrow>
          (case slice_from 8 rootToken of
             None \<Rightarrow> (Panic SliceOutOfRange, w1)
           | Some s \<Rightarrow> (Ok s, log_Println (''output:  '' @ s) w1)))"

definition GetToken :: "('k, 'v) docker \<Rightarrow> 'k TestContainer \<Rightarrow> string \<Rightarrow> string \<Rightarrow> ('h, 'v) world \<Rightarrow>
    string outcome \<times> ('h, 'v) world" where
  "GetToken K v policy ttl w =
     RunCommand K v (''vault token create -field=token -policy='' @ policy @ '' -ttl='' @ ttl) w"

definition ExecShell :: "('k, 'v) docker \<Rightarrow> 'k TestContainer \<Rightarrow> string \<Rightarrow> ('h, 'v) world \<Rightarrow>
    string outcome \<times> ('h, 'v) world" where
  "ExecShell K v cmd w =
     (case on_svc (Exec K (Container v)
           [''sh'', ''-c'', ''export VAULT_TOKEN='' @ tc_Token v @ '' && '' @ cmd])
         (log_Println (''running shell command:  '' @ cmd) w) of
        (Inl e, w1) \<Rightarrow> (Err (ErrWrap ''error executing shell command'' e), w1)
      | (Inr (Inl e), w1) \<Rightarrow> (Err (ErrWrap ''error reading shell output'' e), w1)
      | (Inr (Inr out), w1) \<Rightarrow>
          (let out1 = (if dockerMuxHeaderSize < length out then drop dockerMuxHeaderSize out else out)
           in (Ok out1, log_Println (''output:  '' @ out1) w1)))"

definition TestContainer_Terminate :: "('k, 'v) docker \<Rightarrow> 'k TestContainer \<Rightarrow> ('h, 'v) world \<Rightarrow>
    go_error option \<times> ('h, 'v) world" where
  "TestContainer_Terminate K v w = on_svc (Terminate K (Container v)) w"

definition GetApproleCreds :: "('k, 'v) docker \<Rightarrow> 'k TestContainer \<Rightarrow> string \<Rightarrow> string \<Rightarrow> ('h, 'v) world \<Rightarrow>
    (string \<times> string) outcome \<times> ('h, 'v) world" where
  "GetApproleCreds K v mount role w =
     (let role_path = ''auth/'' @ mount @ ''/role/'' @ role in
      case on_svc (Exec K (Container v) [''vault'', ''read'', ''-field=role_id'', role_path @ ''/role-id'']) w of
        (Inl e, w1) \<Rightarrow> (Err (ErrWrap ''error creating role_id'' e), w1)
      | (Inr (Inl e), w1) \<Rightarrow> (Err (ErrWrap ''error reading role_id'' e), w1)
      | (Inr (Inr roleID), w1) \<Rightarrow>
     (case on_svc (Exec K (Container v)
           [''vault'', ''write'', ''-field=secret_id'', ''-force'', role_path @ ''/secret-id'']) w1 of
        (Inl e, w2) \<Rightarrow> (Err (ErrWrap ''error creating secret_id'' e), w2)
      | (Inr (Inl e), w2) \<Rightarrow> (Err (ErrWrap ''error reading secret_id'' e), w2)
      | (Inr (Inr secretID), w2) \<Rightarrow>
          (case (slice_from 8 roleID, slice_from 8 secretID) of
             (Some r, Some s) \<Rightarrow> (Ok (r, s), w2)
           | _ \<Rightarrow> (Panic SliceOutOfRange, w2))))"

text \<open>
  \<open>RunCommand\<close> panics exactly on an output shorter than the frame header it cuts off, \<open>ExecShell\<close> on
  none; both run nothing but their command.
\<close>

lemma short_output_panics:
  "(is_Panic (fst (RunCommand K v cmd w)) \<longleftrightarrow>
      (\<exists>b. fst (Exec K (Container v) (split_at CHR '' '' cmd) (svc w)) = Inr (Inr b) \<and> length b < 8))
   \<and> \<not> is_Panic (fst (ExecShell K v cmd w))
   \<and> os (snd (RunCommand K v cmd w)) = os w \<and> os (snd (ExecShell K v cmd w)) = os w"
  by (auto simp: RunCommand_def ExecShell_def on_svc_def log_Println_def slice_from_def Let_def is_Panic_iff
      split: prod.splits sum.splits option.splits if_splits)

subsection \<open>The TLS container\<close>

definition vaultTLSConfig :: string where
  "vaultTLSConfig = concat (map (\<lambda>l. CHR 0x0A # l)
     ['''',
      ''storage '' @ [CHR 0x22] @ ''inmem'' @ [CHR 0x22] @ '' {}'',
      '''',
      ''listener '' @ [CHR 0x22] @ ''tcp'' @ [CHR 0x22] @ '' {'',
      ''  address       = '' @ [CHR 0x22] @ ''0.0.0.0:8200'' @ [CHR 0x22],
      ''  tls_cert_file = '' @ [CHR 0x22] @ ''/tmp/vault-server.crt'' @ [CHR 0x22],
      ''  tls_key_file  = '' @ [CHR 0x22] @ ''/tmp/vault-server.key'' @ [CHR 0x22],
      ''}'',
      '''',
      ''disable_mlock = true'',
      ''api_addr      = '' @ [CHR 0x22] @ ''https://0.0.0.0:8200'' @ [CHR 0x22]]) @ [CHR 0x0A]"

record TLSCerts =
  CACertPEM :: bytes
  ServerCertPEM :: bytes
  ServerKeyPEM :: bytes
  ClientCertPEM :: bytes
  ClientKeyPEM :: bytes

text \<open>\<open>cleanup\<close> is nil or removes the paths.\<close>

record 'k TLSTestContainer = "'k TestContainer" +
  CACertFile :: string
  ClientCertFile :: string
  ClientKeyFile :: string
  cleanup :: "string list option"

definition TLS_Terminate :: "('k, 'v) docker \<Rightarrow> 'k TLSTestContainer \<Rightarrow> ('h, 'v) world \<Rightarrow>
    go_error option \<times> ('h, 'v) world" where
  "TLS_Terminate K v w =
     on_svc (Terminate K (Container v))
       (case cleanup v of None \<Rightarrow> w | Some files \<Rightarrow> w\<lparr>os := remove_all files (os w)\<rparr>)"

definition tlsExecAndRead :: "('k, 'v) docker \<Rightarrow> 'k \<Rightarrow> string list \<Rightarrow> ('h, 'v) world \<Rightarrow>
    (go_error + string) \<times> ('h, 'v) world" where
  "tlsExecAndRead K c args w =
     (case on_svc (Exec K c args) w of
        (Inl e, w1) \<Rightarrow> (Inl e, w1)
      | (Inr (Inl e), w1) \<Rightarrow> (Inl e, w1)
      | (Inr (Inr out), w1) \<Rightarrow> (Inr (if 8 < length out then drop 8 out else out), w1))"

definition ExecWithToken :: "('k, 'v) docker \<Rightarrow> 'k TLSTestContainer \<Rightarrow> string \<Rightarrow> ('h, 'v) world \<Rightarrow>
    (go_error + string) \<times> ('h, 'v) world" where
  "ExecWithToken K v cmd w =
     tlsExecAndRead K (Container v) [''sh'', ''-c'', ''export VAULT_TOKEN='' @ tc_Token v @ '' && '' @ cmd] w"

definition writeTLSTempFile :: "string \<Rightarrow> string \<Rightarrow> bytes \<Rightarrow> os_state \<Rightarrow> (go_error + string) \<times> os_state" where
  "writeTLSTempFile pre suf d s =
     (let pattern = pre @ ''*'' @ suf in
      case os_CreateTemp pre suf s of
        (Inl e, s1) \<Rightarrow> (Inl (ErrWrap (''create temp file '' @ pattern) e), s1)
      | (Inr f, s1) \<Rightarrow>
          (case os_Write f d s1 of
             (Some e, s2) \<Rightarrow> (Inl (ErrWrap (''write temp file '' @ pattern) e), remove_all [f] s2)
           | (None, s2) \<Rightarrow> (Inr f, s2)))"

text \<open>
  The first unseal key and the root token of the output of \<open>vault operator init\<close>; \<open>unmarshal\<close> is the
  JSON decoder on the struct with the fields \<open>unseal_keys_b64\<close> and \<open>root_token\<close>.
\<close>

definition parseVaultInitOutput :: "(bytes \<Rightarrow> go_error + string list \<times> string) \<Rightarrow> string \<Rightarrow>
    go_error + string \<times> string" where
  "parseVaultInitOutput unmarshal raw =
     (case dropWhile (\<lambda>c. c \<noteq> CHR ''{'') raw of
        [] \<Rightarrow> Inl (ErrNew ''no JSON object found in vault init output'')
      | c # r \<Rightarrow>
          (case unmarshal (c # r) of
             Inl e \<Rightarrow> Inl (ErrWrap ''parse vault init JSON'' e)
           | Inr (unsealKeysB64, rootToken) \<Rightarrow>
               if rootToken = [] then Inl (ErrNew ''root_token is empty'')
               else (case unsealKeysB64 of
                  [] \<Rightarrow> Inl (ErrNew ''unseal_keys_b64 is empty'')
                | k # ks \<Rightarrow> Inr (rootToken, k))))"

text \<open>\<open>net.JoinHostPort\<close>.\<close>

definition JoinHostPort :: "string \<Rightarrow> string \<Rightarrow> string" where
  "JoinHostPort host port =
     (if CHR '':'' \<in> set host then ''['' @ host @ '']:'' @ port else host @ '':'' @ port)"

definition tls_request :: "TLSCerts \<Rightarrow> container_request" where
  "tls_request certs = \<lparr>ctr_Image = test_image, ExposedPorts = [''8200/tcp''],
     Cmd = [''vault'', ''server'', ''-config=/tmp/vault-config.hcl''],
     Env = [(''VAULT_SKIP_VERIFY'', ''true''), (''VAULT_ADDR'', ''https://127.0.0.1:8200'')],
     Files = [\<lparr>ContainerFilePath = ''/tmp/vault-server.crt'', Contents = ServerCertPEM certs, FileMode = 292\<rparr>,
       \<lparr>ContainerFilePath = ''/tmp/vault-server.key'', Contents = ServerKeyPEM certs, FileMode = 292\<rparr>,
       \<lparr>ContainerFilePath = ''/tmp/vault-config.hcl'', Contents = vaultTLSConfig, FileMode = 292\<rparr>],
     WaitPort = ''8200/tcp'', StartupTimeout = seconds 30, Started = True\<rparr>"

text \<open>What the code does on an error once the container runs: terminate it, then remove the files.\<close>

definition abandon :: "('k, 'v) docker \<Rightarrow> 'k \<Rightarrow> string list \<Rightarrow> ('h, 'v) world \<Rightarrow> ('h, 'v) world" where
  "abandon K c files w =
     (let w1 = snd (on_svc (Terminate K c) w) in w1\<lparr>os := remove_all files (os w1)\<rparr>)"

definition boot_vault :: "('k, 'v) docker \<Rightarrow> (bytes \<Rightarrow> go_error + string list \<times> string) \<Rightarrow> 'k \<Rightarrow> ('h, 'v) world \<Rightarrow>
    (go_error + string \<times> string) \<times> ('h, 'v) world" where
  "boot_vault K unmarshal c w =
     (case tlsExecAndRead K c [''vault'', ''operator'', ''init'', ''-key-shares=1'', ''-key-threshold=1'',
         ''-format=json''] w of
        (Inl e, w1) \<Rightarrow> (Inl (ErrWrap ''vault init'' e), w1)
      | (Inr initOutput, w1) \<Rightarrow>
     (case parseVaultInitOutput unmarshal initOutput of
        Inl e \<Rightarrow> (Inl (ErrChain (''parse vault init output: '' @ error_text e @ '' (raw: '' @ go_quote initOutput @ '')'') e), w1)
      | Inr (rootToken, unsealKey) \<Rightarrow>
     (case tlsExecAndRead K c [''vault'', ''operator'', ''unseal'', unsealKey] w1 of
        (Inl e, w2) \<Rightarrow> (Inl (ErrWrap ''vault unseal'' e), w2)
      | (Inr out, w2) \<Rightarrow>
     (case on_svc (Host K c) w2 of
        (Inl e, w3) \<Rightarrow> (Inl (ErrWrap ''get container host'' e), w3)
      | (Inr host, w3) \<Rightarrow>
     (case on_svc (MappedPort K c ''8200/tcp'') w3 of
        (Inl e, w4) \<Rightarrow> (Inl (ErrWrap ''get container port'' e), w4)
      | (Inr port, w4) \<Rightarrow> (Inr (''https://'' @ JoinHostPort host port, rootToken), w4))))))"

text \<open>The host-side files of the SDK client: the CA, the client's certificate and its key.\<close>

definition write_tls_files :: "TLSCerts \<Rightarrow> os_state \<Rightarrow> (go_error + string \<times> string \<times> string) \<times> os_state" where
  "write_tls_files certs s =
     (case writeTLSTempFile ''vault-ca-cert-'' ''.pem'' (CACertPEM certs) s of
        (Inl e, s1) \<Rightarrow> (Inl e, s1)
      | (Inr caCertFile, s1) \<Rightarrow>
     (case writeTLSTempFile ''vault-client-cert-'' ''.pem'' (ClientCertPEM certs) s1 of
        (Inl e, s2) \<Rightarrow> (Inl e, remove_all [caCertFile] s2)
      | (Inr clientCertFile, s2) \<Rightarrow>
     (case writeTLSTempFile ''vault-client-key-'' ''.pem'' (ClientKeyPEM certs) s2 of
        (Inl e, s3) \<Rightarrow> (Inl e, remove_all [caCertFile, clientCertFile] s3)
      | (Inr clientKeyFile, s3) \<Rightarrow> (Inr (caCertFile, clientCertFile, clientKeyFile), s3))))"

definition StartTLSTestContainer :: "('k, 'v) docker \<Rightarrow> (bytes \<Rightarrow> go_error + string list \<times> string) \<Rightarrow> TLSCerts \<Rightarrow>
    ('h, 'v) world \<Rightarrow> (go_error + 'k TLSTestContainer) \<times> ('h, 'v) world" where
  "StartTLSTestContainer K unmarshal certs w =
     (case on_os (write_tls_files certs) w of
        (Inl e, w1) \<Rightarrow> (Inl e, w1)
      | (Inr (caCertFile, clientCertFile, clientKeyFile), w1) \<Rightarrow>
          (let files = [caCertFile, clientCertFile, clientKeyFile] in
           case on_svc (GenericContainer K (tls_request certs)) w1 of
             (Inl e, w2) \<Rightarrow> (Inl (ErrWrap ''start TLS vault container'' e), w2\<lparr>os := remove_all files (os w2)\<rparr>)
           | (Inr c, w2) \<Rightarrow>
               (case boot_vault K unmarshal c w2 of
                  (Inl e, w3) \<Rightarrow> (Inl e, abandon K c files w3)
                | (Inr (uri, rootToken), w3) \<Rightarrow>
                    (Inr \<lparr>Container = c, URI = uri, tc_Token = rootToken, CACertFile = caCertFile,
                       ClientCertFile = clientCertFile, ClientKeyFile = clientKeyFile,
                       cleanup = Some files\<rparr>, w3))))"

subsection \<open>The fake Workload API\<close>

record JWTSVIDRequest =
  req_Audience :: "string list"
  req_SPIFFEID :: string

record FakeJWTWorkloadAPI =
  fake_token :: string
  requests :: "JWTSVIDRequest list"

definition NewFakeJWTWorkloadAPI :: "string \<Rightarrow> FakeJWTWorkloadAPI" where
  "NewFakeJWTWorkloadAPI t = \<lparr>fake_token = t, requests = []\<rparr>"

text \<open>The answer is the list of the SVIDs: identity and token.\<close>

definition fake_FetchJWTSVID :: "string list \<Rightarrow> string \<Rightarrow> FakeJWTWorkloadAPI \<Rightarrow>
    (string \<times> string) list \<times> FakeJWTWorkloadAPI" where
  "fake_FetchJWTSVID audience spiffeID f =
     ([(spiffeID, fake_token f)],
      f\<lparr>requests := requests f @ [\<lparr>req_Audience = audience, req_SPIFFEID = spiffeID\<rparr>]\<rparr>)"

definition fake_SetToken :: "string \<Rightarrow> FakeJWTWorkloadAPI \<Rightarrow> FakeJWTWorkloadAPI" where
  "fake_SetToken t f = f\<lparr>fake_token := t\<rparr>"

definition RecordedRequests :: "FakeJWTWorkloadAPI \<Rightarrow> JWTSVIDRequest list" where
  "RecordedRequests f = requests f"

text \<open>A client's calls on the fake, one after the other: the lock makes each of them atomic.\<close>

datatype fake_call = CallFetch "string list" string | CallSetToken string

fun fake_run :: "fake_call list \<Rightarrow> FakeJWTWorkloadAPI \<Rightarrow> (string \<times> string) list list \<times> FakeJWTWorkloadAPI" where
  "fake_run [] f = ([], f)"
| "fake_run (CallFetch audience spiffeID # cs) f =
     (let (svids, f1) = fake_FetchJWTSVID audience spiffeID f; (r, f2) = fake_run cs f1 in (svids # r, f2))"
| "fake_run (CallSetToken t # cs) f = fake_run cs (fake_SetToken t f)"

lemma fake_run_records:
  "RecordedRequests (snd (fake_run cs f)) = RecordedRequests f
     @ concat (map (\<lambda>c. case c of CallFetch a i \<Rightarrow> [\<lparr>req_Audience = a, req_SPIFFEID = i\<rparr>] | CallSetToken t \<Rightarrow> []) cs)"
  by (induction cs f rule: fake_run.induct)
    (simp_all add: RecordedRequests_def fake_FetchJWTSVID_def fake_SetToken_def case_prod_beta)

lemma fake_run_append:
  "fake_run (cs @ ds) f = (let (r, f1) = fake_run cs f; (r', f2) = fake_run ds f1 in (r @ r', f2))"
  by (induction cs f rule: fake_run.induct) (simp_all add: fake_FetchJWTSVID_def Let_def case_prod_beta)

lemma fake_serves_last_token:
  "fst (fake_run (cs @ [CallSetToken t, CallFetch a i]) f) = fst (fake_run cs f) @ [[(i, t)]]"
  by (simp add: fake_run_append fake_FetchJWTSVID_def fake_SetToken_def case_prod_beta)

subsection \<open>The temporary files\<close>

lemma created_write_temp:
  assumes "created s fs s'" "removes s" "writeTLSTempFile pre suf d s' = (r, s'')"
  shows "case r of Inl e \<Rightarrow> created s fs s'' | Inr p \<Rightarrow> created s ((p, d) # fs) s''"
proof -
  obtain x s1 where c: "os_CreateTemp pre suf s' = (x, s1)" by fastforce
  note 1 = created_temp [OF assms(1) c]
  show ?thesis
  proof (cases x)
    case (Inl e)
    with assms(3) c 1 show ?thesis by (auto simp: writeTLSTempFile_def)
  next
    case (Inr p)
    obtain y s2 where wr: "os_Write p d s1 = (y, s2)" by fastforce
    from 1 Inr have p: "created s ((p, []) # fs) s1" by simp
    from created_write [OF this wr] obtain b where b: "created s ((p, b) # fs) s2" "y = None \<Longrightarrow> b = d" by auto
    have "created s (filter (\<lambda>f. fst f \<noteq> p) ((p, b) # fs)) (snd (os_Remove p s2))"
      by (rule created_remove [OF b(1) assms(2)]) simp
    moreover have "filter (\<lambda>f. fst f \<noteq> p) fs = fs"
      using b(1) by (force simp: created_def intro: filter_True)
    ultimately show ?thesis
      using assms(3) c Inr wr b by (cases y) (auto simp: writeTLSTempFile_def)
  qed
qed

lemma created_remove_all:
  "created s fs s' \<Longrightarrow> removes s \<Longrightarrow> set ps = fst ` set fs \<Longrightarrow> distinct ps \<Longrightarrow> created s [] (remove_all ps s')"
proof (induction ps arbitrary: fs s')
  case (Cons p ps)
  let ?fs = "filter (\<lambda>f. fst f \<noteq> p) fs"
  have "created s ?fs (snd (os_Remove p s'))"
    by (rule created_remove [OF Cons.prems(1,2)]) (use Cons.prems(3) in auto)
  moreover have "set ps = fst ` set ?fs"
    using Cons.prems(3,4) by (auto simp: image_iff)
  ultimately show ?case using Cons.IH [of ?fs] Cons.prems(2,4) by simp
qed simp

lemma tlsExecAndRead_os: "tlsExecAndRead K c args w = (r, w') \<Longrightarrow> os w' = os w"
  by (auto simp: tlsExecAndRead_def on_svc_def split: prod.splits sum.splits)

lemma boot_vault_os: "boot_vault K um c w = (r, w') \<Longrightarrow> os w' = os w"
  by (auto simp: boot_vault_def on_svc_def dest!: tlsExecAndRead_os split: prod.splits sum.splits)

lemma on_svc_os: "on_svc f w = (r, w') \<Longrightarrow> os w' = os w"
  by (auto simp: on_svc_def split: prod.splits)

text \<open>The files of the certificates, newest first.\<close>

fun tls_files :: "TLSCerts \<Rightarrow> string \<times> string \<times> string \<Rightarrow> (string \<times> bytes) list" where
  "tls_files certs (ca, cc, ck) = [(ck, ClientKeyPEM certs), (cc, ClientCertPEM certs), (ca, CACertPEM certs)]"

lemma write_tls_files_created:
  assumes "write_tls_files certs s = (r, s')" "removes s"
  shows "case r of Inl e \<Rightarrow> created s [] s' | Inr fs \<Rightarrow> created s (tls_files certs fs) s'"
proof -
  have c0: "created s [] s" by (simp add: created_def)
  obtain x1 s1 where 1: "writeTLSTempFile ''vault-ca-cert-'' ''.pem'' (CACertPEM certs) s = (x1, s1)" by fastforce
  note c1 = created_write_temp [OF c0 assms(2) 1]
  show ?thesis
  proof (cases x1)
    case (Inl e)
    with assms(1) 1 c1 show ?thesis by (auto simp: write_tls_files_def)
  next
    case ca: (Inr ca)
    obtain x2 s2 where 2: "writeTLSTempFile ''vault-client-cert-'' ''.pem'' (ClientCertPEM certs) s1 = (x2, s2)"
      by fastforce
    from c1 ca have "created s [(ca, CACertPEM certs)] s1" by simp
    note c2 = created_write_temp [OF this assms(2) 2]
    show ?thesis
    proof (cases x2)
      case (Inl e)
      with c2 have "created s [] (remove_all [ca] s2)"
        by (intro created_remove_all [OF _ assms(2)]) auto
      with assms(1) 1 ca 2 Inl show ?thesis by (auto simp: write_tls_files_def simp del: remove_all.simps)
    next
      case cc: (Inr cc)
      obtain x3 s3 where 3: "writeTLSTempFile ''vault-client-key-'' ''.pem'' (ClientKeyPEM certs) s2 = (x3, s3)"
        by fastforce
      from c2 cc have cr: "created s [(cc, ClientCertPEM certs), (ca, CACertPEM certs)] s2" by simp
      note c3 = created_write_temp [OF cr assms(2) 3]
      have "created s [] (remove_all [ca, cc] s3)" if "x3 = Inl e" for e
        by (rule created_remove_all [OF _ assms(2), of "[(cc, ClientCertPEM certs), (ca, CACertPEM certs)]"])
          (use c3 that cr in \<open>auto simp: created_def\<close>)
      with assms(1) 1 ca 2 cc 3 c3 show ?thesis
        by (cases x3) (auto simp: write_tls_files_def simp del: remove_all.simps)
    qed
  qed
qed

lemma tls_files_removed:
  "created s (tls_files certs (ca, cc, ck)) s' \<Longrightarrow> removes s \<Longrightarrow> created s [] (remove_all [ca, cc, ck] s')"
  by (rule created_remove_all [of s "tls_files certs (ca, cc, ck)"]) (auto simp: created_def)

lemma StartTLS_files:
  assumes "StartTLSTestContainer K um certs w = (r, w')" "removes (os w)"
  shows "case r of Inl e \<Rightarrow> created (os w) [] (os w')
    | Inr v \<Rightarrow> cleanup v = Some [CACertFile v, ClientCertFile v, ClientKeyFile v]
        \<and> created (os w) (tls_files certs (CACertFile v, ClientCertFile v, ClientKeyFile v)) (os w')"
proof -
  obtain x w1 where 1: "on_os (write_tls_files certs) w = (x, w1)" by fastforce
  then have c: "case x of Inl e \<Rightarrow> created (os w) [] (os w1) | Inr fs \<Rightarrow> created (os w) (tls_files certs fs) (os w1)"
    using write_tls_files_created [OF _ assms(2)] by (auto simp: on_os_def split: prod.splits)
  show ?thesis
  proof (cases x)
    case (Inl e)
    with assms(1) 1 c show ?thesis by (auto simp: StartTLSTestContainer_def)
  next
    case (Inr fs)
    obtain ca cc ck where fs: "fs = (ca, cc, ck)" by (cases fs) simp
    with c Inr have c: "created (os w) (tls_files certs (ca, cc, ck)) (os w1)" by simp
    note rm = tls_files_removed [OF c assms(2)]
    obtain g w2 where 2: "on_svc (GenericContainer K (tls_request certs)) w1 = (g, w2)" by fastforce
    note o2 = on_svc_os [OF 2]
    show ?thesis
    proof (cases g)
      case (Inl e)
      with assms(1) 1 Inr fs 2 o2 rm show ?thesis
        by (auto simp: StartTLSTestContainer_def Let_def simp del: remove_all.simps)
    next
      case (Inr k)
      obtain b w3 where 3: "boot_vault K um k w2 = (b, w3)" by fastforce
      have "os w3 = os w1" using boot_vault_os [OF 3] o2 by simp
      with assms(1) 1 \<open>x = Inr fs\<close> fs 2 Inr 3 rm c show ?thesis
        by (cases b) (auto simp: StartTLSTestContainer_def Let_def abandon_def
            simp del: remove_all.simps tls_files.simps)
    qed
  qed
qed

subsection \<open>Properties\<close>

text \<open>
  C40. Starting the TLS container leaves the three certificate files on the host, which \<open>Terminate\<close>
  removes, or, when any step fails (writing a file, the container, the initialisation of Vault, its
  address), no file at all.
\<close>

theorem tls_container_files:
  assumes "StartTLSTestContainer K um certs w = (r, w')" "removes (os w)"
  shows "case r of Inl e \<Rightarrow> os_files (os w') = os_files (os w)
    | Inr v \<Rightarrow> os_files (os w') = (os_files (os w))(CACertFile v := Some (RegularFile (CACertPEM certs)),
          ClientCertFile v := Some (RegularFile (ClientCertPEM certs)),
          ClientKeyFile v := Some (RegularFile (ClientKeyPEM certs)))
        \<and> os_files (os (snd (TLS_Terminate K v w'))) = os_files (os w)"
proof (cases r)
  case (Inl e)
  with StartTLS_files [OF assms] show ?thesis by (simp add: created_files)
next
  case (Inr v)
  with StartTLS_files [OF assms] have c: "cleanup v = Some [CACertFile v, ClientCertFile v, ClientKeyFile v]"
    "created (os w) (tls_files certs (CACertFile v, ClientCertFile v, ClientKeyFile v)) (os w')"
    by simp_all
  have "os_files (os w') = (os_files (os w))(CACertFile v := Some (RegularFile (CACertPEM certs)),
          ClientCertFile v := Some (RegularFile (ClientCertPEM certs)),
          ClientKeyFile v := Some (RegularFile (ClientKeyPEM certs)))"
    using c(2) by (auto simp: created_def fun_eq_iff)
  moreover have "os_files (os (snd (TLS_Terminate K v w'))) = os_files (os w)"
    using created_files [OF tls_files_removed [OF c(2) assms(2)]] c(1)
    by (simp add: TLS_Terminate_def del: remove_all.simps)
  ultimately show ?thesis using Inr by simp
qed

text \<open>A container library whose container answers every command with a frame header and one JSON object.\<close>

definition demo_docker :: "(unit, unit) docker" where
  "demo_docker = \<lparr>vault_Run = (\<lambda>i t cs v. (Inr (), v)), HttpHostAddress = (\<lambda>k v. (Inr ''http://127.0.0.1'', v)),
     GenericContainer = (\<lambda>r v. (Inr (), v)), Exec = (\<lambda>k args v. (Inr (Inr ''HHHHHHHH{}''), v)),
     Terminate = (\<lambda>k v. (None, v)), Host = (\<lambda>k v. (Inr ''127.0.0.1'', v)), MappedPort = (\<lambda>k p v. (Inr ''32768'', v))\<rparr>"

definition demo_test_world :: "(unit, unit) world" where
  "demo_test_world = \<lparr>heap = (), svc = (), os = demo_os, env_vars = Map.empty, events = []\<rparr>"

definition demo_tls_certs :: TLSCerts where
  "demo_tls_certs = \<lparr>CACertPEM = ''ca'', ServerCertPEM = ''sc'', ServerKeyPEM = ''sk'', ClientCertPEM = ''cc'',
     ClientKeyPEM = ''ck''\<rparr>"

lemma demo_tls_container:
  "\<exists>v w'. StartTLSTestContainer demo_docker (\<lambda>b. Inr ([''key''], ''root'')) demo_tls_certs demo_test_world = (Inr v, w')"
  by (simp add: StartTLSTestContainer_def write_tls_files_def writeTLSTempFile_def CreateTemp_first os_Write_def
      call_fault_def next_call_def temp_name_def demo_test_world_def demo_os_def on_os_def on_svc_def Let_def
      boot_vault_def tlsExecAndRead_def parseVaultInitOutput_def demo_docker_def)

theorem tls_container_files_witness:
  "\<exists>v w'. StartTLSTestContainer demo_docker (\<lambda>b. Inr ([''key''], ''root'')) demo_tls_certs demo_test_world = (Inr v, w')
     \<and> os_files (os w') (ClientKeyFile v) = Some (RegularFile ''ck'')
     \<and> os_files (os (snd (TLS_Terminate demo_docker v w'))) = Map.empty"
proof -
  obtain v w' where s: "StartTLSTestContainer demo_docker (\<lambda>b. Inr ([''key''], ''root'')) demo_tls_certs demo_test_world
      = (Inr v, w')"
    using demo_tls_container by blast
  have "removes (os demo_test_world)" by (simp add: removes_def demo_test_world_def demo_os_def)
  from tls_container_files [OF s this] s show ?thesis
    by (auto simp: demo_test_world_def demo_os_def demo_tls_certs_def)
qed

end
