(* ===== verification/Test_Certs.thy ===== *)
theory Test_Certs
  imports Test_Utils
begin

text \<open>
  The keys, certificates and tokens of the tests: \<open>GenerateTestCerts\<close> of \<open>testutils_tls.go\<close> and
  \<open>testutils_jwt.go\<close>. The cryptography of Go's standard library and its random source are the record
  \<open>crypto\<close>; the clock is in nanoseconds. PEM and base64 are Go_PEM and Go_Base64.
\<close>

subsection \<open>Certificates\<close>

text \<open>The fields of \<open>x509.Certificate\<close> the templates set; the usages are bit sets.\<close>

record x509_certificate =
  SerialNumber :: int
  CommonName :: string
  DNSNames :: "string list"
  IPAddresses :: "nat list list"
  NotBefore :: int
  NotAfter :: int
  IsCA :: bool
  BasicConstraintsValid :: bool
  KeyUsage :: nat
  ExtKeyUsage :: "string list"

definition KeyUsageDigitalSignature :: nat where "KeyUsageDigitalSignature = 1"

definition KeyUsageCertSign :: nat where "KeyUsageCertSign = 32"

definition KeyUsageCRLSign :: nat where "KeyUsageCRLSign = 64"

record ('sk, 'pk, 'v) crypto =
  GenerateKey :: "'v \<Rightarrow> (go_error + 'sk) \<times> 'v"
  PublicKey :: "'sk \<Rightarrow> 'pk"
  CreateCertificate :: "x509_certificate \<Rightarrow> x509_certificate \<Rightarrow> 'pk \<Rightarrow> 'sk \<Rightarrow> 'v \<Rightarrow> (go_error + bytes) \<times> 'v"
  ParseCertificate :: "bytes \<Rightarrow> go_error + x509_certificate"
  MarshalECPrivateKey :: "'sk \<Rightarrow> go_error + bytes"
  MarshalPKIXPublicKey :: "'pk \<Rightarrow> go_error + bytes"
  Sum256 :: "bytes \<Rightarrow> bytes"
  Sign :: "'sk \<Rightarrow> bytes \<Rightarrow> 'v \<Rightarrow> (go_error + nat \<times> nat) \<times> 'v"
  time_Now :: "'v \<Rightarrow> int \<times> 'v"

definition hours :: "int \<Rightarrow> int" where "hours n = n * seconds 3600"

text \<open>The three templates; both bounds of the validity are read from the clock.\<close>

definition ca_template :: "int \<Rightarrow> int \<Rightarrow> x509_certificate" where
  "ca_template t1 t2 = \<lparr>SerialNumber = 1, CommonName = ''Vault Test CA'', DNSNames = [], IPAddresses = [],
     NotBefore = t1 - hours 1, NotAfter = t2 + hours 24, IsCA = True, BasicConstraintsValid = True,
     KeyUsage = or KeyUsageCertSign KeyUsageCRLSign, ExtKeyUsage = []\<rparr>"

definition server_template :: "int \<Rightarrow> int \<Rightarrow> x509_certificate" where
  "server_template t1 t2 = \<lparr>SerialNumber = 2, CommonName = ''vault-server'', DNSNames = [''localhost''],
     IPAddresses = [[127, 0, 0, 1]], NotBefore = t1 - hours 1, NotAfter = t2 + hours 24, IsCA = False,
     BasicConstraintsValid = False, KeyUsage = KeyUsageDigitalSignature, ExtKeyUsage = [''ServerAuth'']\<rparr>"

definition client_template :: "int \<Rightarrow> int \<Rightarrow> x509_certificate" where
  "client_template t1 t2 = \<lparr>SerialNumber = 3, CommonName = ''vault-client'', DNSNames = [], IPAddresses = [],
     NotBefore = t1 - hours 1, NotAfter = t2 + hours 24, IsCA = False,
     BasicConstraintsValid = False, KeyUsage = KeyUsageDigitalSignature, ExtKeyUsage = [''ClientAuth'']\<rparr>"

definition cert_block :: "bytes \<Rightarrow> pem_block" where
  "cert_block der = \<lparr>pem_Type = ''CERTIFICATE'', pem_Headers = [], pem_Bytes = der\<rparr>"

definition ec_key_block :: "bytes \<Rightarrow> pem_block" where
  "ec_key_block der = \<lparr>pem_Type = ''EC PRIVATE KEY'', pem_Headers = [], pem_Bytes = der\<rparr>"

text \<open>
  A key and a certificate for it: the parent is the template itself for the CA (\<open>None\<close>), otherwise
  the CA's certificate with the CA's key.
\<close>

definition issue :: "('sk, 'pk, 'v) crypto \<Rightarrow> string \<Rightarrow> (int \<Rightarrow> int \<Rightarrow> x509_certificate) \<Rightarrow>
    (x509_certificate \<times> 'sk) option \<Rightarrow> 'v \<Rightarrow> (go_error + 'sk \<times> bytes) \<times> 'v" where
  "issue C what template parent v =
     (case GenerateKey C v of
        (Inl e, v1) \<Rightarrow> (Inl (ErrWrap (''generate '' @ what @ '' key'') e), v1)
      | (Inr key, v1) \<Rightarrow>
          (let (t1, v2) = time_Now C v1; (t2, v3) = time_Now C v2; tmpl = template t1 t2;
               (issuer, signer) = (case parent of None \<Rightarrow> (tmpl, key) | Some p \<Rightarrow> p)
           in case CreateCertificate C tmpl issuer (PublicKey C key) signer v3 of
                (Inl e, v4) \<Rightarrow> (Inl (ErrWrap (''create '' @ what @ '' cert'') e), v4)
              | (Inr der, v4) \<Rightarrow> (Inr (key, der), v4)))"

definition GenerateTestCerts :: "('sk, 'pk, 'v) crypto \<Rightarrow> 'v \<Rightarrow> (go_error + TLSCerts) \<times> 'v" where
  "GenerateTestCerts C v =
     (case issue C ''CA'' ca_template None v of
        (Inl e, v1) \<Rightarrow> (Inl e, v1)
      | (Inr (caKey, caCertDER), v1) \<Rightarrow>
     (case ParseCertificate C caCertDER of
        Inl e \<Rightarrow> (Inl (ErrWrap ''parse CA cert'' e), v1)
      | Inr caCert \<Rightarrow>
     (case issue C ''server'' server_template (Some (caCert, caKey)) v1 of
        (Inl e, v2) \<Rightarrow> (Inl e, v2)
      | (Inr (serverKey, serverCertDER), v2) \<Rightarrow>
     (case issue C ''client'' client_template (Some (caCert, caKey)) v2 of
        (Inl e, v3) \<Rightarrow> (Inl e, v3)
      | (Inr (clientKey, clientCertDER), v3) \<Rightarrow>
     (case MarshalECPrivateKey C serverKey of
        Inl e \<Rightarrow> (Inl (ErrWrap ''marshal server key'' e), v3)
      | Inr serverKeyBytes \<Rightarrow>
     (case MarshalECPrivateKey C clientKey of
        Inl e \<Rightarrow> (Inl (ErrWrap ''marshal client key'' e), v3)
      | Inr clientKeyBytes \<Rightarrow>
          (Inr \<lparr>CACertPEM = pem_EncodeToMemory (cert_block caCertDER),
                ServerCertPEM = pem_EncodeToMemory (cert_block serverCertDER),
                ServerKeyPEM = pem_EncodeToMemory (ec_key_block serverKeyBytes),
                ClientCertPEM = pem_EncodeToMemory (cert_block clientCertDER),
                ClientKeyPEM = pem_EncodeToMemory (ec_key_block clientKeyBytes)\<rparr>, v3)))))))"

subsection \<open>Tokens\<close>

definition GenerateJWTSigningKey :: "('sk, 'pk, 'v) crypto \<Rightarrow> 'v \<Rightarrow> (go_error + 'sk \<times> string) \<times> 'v" where
  "GenerateJWTSigningKey C v =
     (case GenerateKey C v of
        (Inl e, v1) \<Rightarrow> (Inl (ErrWrap ''generate ecdsa key'' e), v1)
      | (Inr privKey, v1) \<Rightarrow>
          (case MarshalPKIXPublicKey C (PublicKey C privKey) of
             Inl e \<Rightarrow> (Inl (ErrWrap ''marshal public key'' e), v1)
           | Inr pubKeyDER \<Rightarrow>
               (Inr (privKey, pem_EncodeToMemory
                  \<lparr>pem_Type = ''PUBLIC KEY'', pem_Headers = [], pem_Bytes = pubKeyDER\<rparr>), v1)))"

definition RawURLEncoding :: b64_encoding where
  "RawURLEncoding = \<lparr>b64_alphabet =
      ''ABCDEFGHIJKLMNOPQRSTUVWXYZabcdefghijklmnopqrstuvwxyz0123456789-_'',
    b64_padding = None\<rparr>"

text \<open>
  A JSON string as \<open>encoding/json\<close> writes it, with its escapes of HTML, for texts in ASCII: larger
  bytes are kept, as the package does for the valid UTF-8 of any character but U+2028 and U+2029.
\<close>

definition json_char :: "char \<Rightarrow> string" where
  "json_char c =
     (if c = CHR 0x22 \<or> c = CHR 0x5C then [CHR 0x5C, c]
      else if c = CHR 0x08 then [CHR 0x5C, CHR ''b'']
      else if c = CHR 0x0C then [CHR 0x5C, CHR ''f'']
      else if c = CHR 0x0A then [CHR 0x5C, CHR ''n'']
      else if c = CHR 0x0D then [CHR 0x5C, CHR ''r'']
      else if c = CHR 0x09 then [CHR 0x5C, CHR ''t'']
      else if (of_char c :: nat) < 32 \<or> c \<in> {CHR ''<'', CHR ''>'', CHR ''&''}
        then [CHR 0x5C, CHR ''u'', CHR ''0'', CHR ''0'',
              ''0123456789abcdef'' ! (of_char c div 16), ''0123456789abcdef'' ! (of_char c mod 16)]
      else [c])"

definition json_string :: "string \<Rightarrow> string" where
  "json_string s = CHR 0x22 # concat (map json_char s) @ [CHR 0x22]"

text \<open>An object whose members are given in the order of their names, in which \<open>encoding/json\<close> writes a map.\<close>

fun json_members :: "(string \<times> string) list \<Rightarrow> string" where
  "json_members [] = []"
| "json_members [(k, t)] = json_string k @ CHR '':'' # t"
| "json_members ((k, t) # ms) = json_string k @ CHR '':'' # t @ CHR '','' # json_members ms"

definition json_object :: "(string \<times> string) list \<Rightarrow> string" where
  "json_object ms = CHR ''{'' # json_members ms @ ''}''"

definition jwt_header :: string where
  "jwt_header = json_object [(''alg'', json_string ''ES256''), (''typ'', json_string ''JWT'')]"

text \<open>\<open>Unix\<close> counts whole seconds, rounded down.\<close>

definition time_Unix :: "int \<Rightarrow> int" where "time_Unix t = t div seconds 1"

definition jwt_payload :: "string \<Rightarrow> string \<Rightarrow> int \<Rightarrow> string" where
  "jwt_payload subject audience now = json_object
     [(''aud'', json_string audience), (''exp'', show_int (time_Unix (now + hours 1))),
      (''iat'', show_int (time_Unix now)), (''sub'', json_string subject)]"

definition es256SigSize :: nat where "es256SigSize = 64"

text \<open>\<open>x.FillBytes(buf)\<close> for a buffer of \<open>n\<close> bytes: big-endian; it panics when \<open>x\<close> does not fit.\<close>

fun FillBytes :: "nat \<Rightarrow> nat \<Rightarrow> bytes option" where
  "FillBytes 0 x = (if x = 0 then Some [] else None)"
| "FillBytes (Suc n) x = map_option (\<lambda>b. b @ [byte_of (x mod 256)]) (FillBytes n (x div 256))"

definition SignTestJWT :: "('sk, 'pk, 'v) crypto \<Rightarrow> 'sk \<Rightarrow> string \<Rightarrow> string \<Rightarrow> 'v \<Rightarrow> string outcome \<times> 'v" where
  "SignTestJWT C privKey subject audience v =
     (let header = b64_encode RawURLEncoding jwt_header;
          (now, v1) = time_Now C v;
          payload = b64_encode RawURLEncoding (jwt_payload subject audience now);
          signingInput = header @ ''.'' @ payload;
          digest = Sum256 C signingInput
      in case Sign C privKey digest v1 of
           (Inl e, v2) \<Rightarrow> (Err (ErrWrap ''ecdsa sign'' e), v2)
         | (Inr (r, s), v2) \<Rightarrow>
             (case (FillBytes 32 r, FillBytes (es256SigSize - 32) s) of
                (Some rb, Some sb) \<Rightarrow>
                  (Ok (signingInput @ ''.'' @ b64_encode RawURLEncoding (rb @ sb)), v2)
              | _ \<Rightarrow> (Panic BufferTooSmall, v2)))"

subsection \<open>Properties\<close>

text \<open>A library whose keys are numbers and whose certificates are their names, for the witnesses.\<close>

definition demo_crypto :: "(nat, nat, nat) crypto" where
  "demo_crypto = \<lparr>GenerateKey = (\<lambda>v. (Inr v, Suc v)), PublicKey = (\<lambda>k. k + 100),
     CreateCertificate = (\<lambda>t p pub signer v. (Inr (CommonName t), v)),
     ParseCertificate = (\<lambda>b. Inr (ca_template 0 0)), MarshalECPrivateKey = (\<lambda>k. Inr (show_nat k)),
     MarshalPKIXPublicKey = (\<lambda>k. Inr (show_nat k)), Sum256 = take 32, Sign = (\<lambda>k d v. (Inr (1, 2), v)),
     time_Now = (\<lambda>v. (0, v))\<rparr>"

lemma demo_certs: "\<exists>certs. GenerateTestCerts demo_crypto 0 = (Inr certs, 3)"
  by (simp add: GenerateTestCerts_def issue_def demo_crypto_def Let_def numeral_3_eq_3)

lemma FillBytes_fits: "(\<exists>b. FillBytes n x = Some b) \<longleftrightarrow> x < 256 ^ n"
proof (induction n arbitrary: x)
  case (Suc n)
  have "(\<exists>b. FillBytes (Suc n) x = Some b) \<longleftrightarrow> (\<exists>b. FillBytes n (x div 256) = Some b)"
    by (auto simp: map_option_case split: option.splits)
  also have "\<dots> \<longleftrightarrow> x div 256 < 256 ^ n" by (rule Suc.IH)
  also have "\<dots> \<longleftrightarrow> x < 256 ^ Suc n" by (simp add: div_less_iff_less_mult mult.commute)
  finally show ?case .
qed simp

lemma demo_token: "\<exists>token. SignTestJWT demo_crypto 0 ''sub'' ''aud'' 0 = (Ok token, 0)"
proof -
  obtain a b where "FillBytes 32 1 = Some a" "FillBytes 32 2 = Some b"
    using FillBytes_fits [of 32 1] FillBytes_fits [of 32 2] by auto
  then show ?thesis
    by (simp add: SignTestJWT_def demo_crypto_def Let_def es256SigSize_def del: FillBytes.simps)
qed

definition issued :: "('sk, 'pk, 'v) crypto \<Rightarrow> x509_certificate \<Rightarrow> x509_certificate \<Rightarrow> 'pk \<Rightarrow> 'sk \<Rightarrow> bytes \<Rightarrow> bool" where
  "issued C template parent pub signer der \<longleftrightarrow>
     (\<exists>v v'. CreateCertificate C template parent pub signer v = (Inr der, v'))"

lemma issue_Inr:
  assumes "issue C what template parent v = (Inr (key, der), v')"
  shows "\<exists>t1 t2. case parent of
      None \<Rightarrow> issued C (template t1 t2) (template t1 t2) (PublicKey C key) key der
    | Some (cert, signer) \<Rightarrow> issued C (template t1 t2) cert (PublicKey C key) signer der"
  using assms by (fastforce simp: issue_def issued_def Let_def split: prod.splits sum.splits option.splits)

lemma cert_block_simps [simp]:
  "pem_Type (cert_block d) = ''CERTIFICATE''" "pem_Type (ec_key_block d) = ''EC PRIVATE KEY''"
  "pem_Bytes (cert_block d) = d" "pem_Bytes (ec_key_block d) = d"
  "plain_block (cert_block d)" "plain_block (ec_key_block d)"
  by (simp_all add: cert_block_def ec_key_block_def plain_block_def)

lemma GenerateTestCerts_Inr:
  assumes "GenerateTestCerts C v = (Inr certs, v')"
  obtains caKey caDER caCert serverKey serverDER serverKeyDER clientKey clientDER clientKeyDER v1 v2
  where "issue C ''CA'' ca_template None v = (Inr (caKey, caDER), v1)"
    "ParseCertificate C caDER = Inr caCert"
    "issue C ''server'' server_template (Some (caCert, caKey)) v1 = (Inr (serverKey, serverDER), v2)"
    "issue C ''client'' client_template (Some (caCert, caKey)) v2 = (Inr (clientKey, clientDER), v')"
    "MarshalECPrivateKey C serverKey = Inr serverKeyDER" "MarshalECPrivateKey C clientKey = Inr clientKeyDER"
    "certs = \<lparr>CACertPEM = pem_EncodeToMemory (cert_block caDER),
       ServerCertPEM = pem_EncodeToMemory (cert_block serverDER),
       ServerKeyPEM = pem_EncodeToMemory (ec_key_block serverKeyDER),
       ClientCertPEM = pem_EncodeToMemory (cert_block clientDER),
       ClientKeyPEM = pem_EncodeToMemory (ec_key_block clientKeyDER)\<rparr>"
  using assms by (auto simp: GenerateTestCerts_def split: prod.splits sum.splits)

lemma b64_wf_RawURL: "b64_wf RawURLEncoding"
  by (simp add: b64_wf_def RawURLEncoding_def)

lemma RawURL_no_dot: "CHR ''.'' \<notin> set (b64_encode RawURLEncoding s)"
  using b64_encode_set [OF b64_wf_RawURL, of s] by (auto simp: RawURLEncoding_def)

definition big_endian :: "bytes \<Rightarrow> nat" where
  "big_endian b = foldl (\<lambda>n c. 256 * n + of_char c) 0 b"

lemma FillBytes_value: "FillBytes n x = Some b \<Longrightarrow> length b = n \<and> big_endian b = x"
  by (induction n x arbitrary: b rule: FillBytes.induct)
    (auto simp: big_endian_def byte_of_def split: if_splits)

text \<open>
  \<open>GenerateTestCerts\<close> makes one chain: a CA that signed itself, and a server and a client certificate
  for two other keys, both issued with the CA's key under the certificate the CA's encoding is read
  back to; each PEM text decodes to the certificate or the key it was made from.
\<close>

theorem test_certs_chain:
  assumes "GenerateTestCerts C v = (Inr certs, v')"
  shows "\<exists>caKey caDER caCert serverKey serverDER serverKeyDER clientKey clientDER clientKeyDER t1 t2 t3 t4 t5 t6.
    issued C (ca_template t1 t2) (ca_template t1 t2) (PublicKey C caKey) caKey caDER
    \<and> ParseCertificate C caDER = Inr caCert
    \<and> issued C (server_template t3 t4) caCert (PublicKey C serverKey) caKey serverDER
    \<and> issued C (client_template t5 t6) caCert (PublicKey C clientKey) caKey clientDER
    \<and> MarshalECPrivateKey C serverKey = Inr serverKeyDER \<and> MarshalECPrivateKey C clientKey = Inr clientKeyDER
    \<and> pem_Decode (CACertPEM certs) = Some (cert_block caDER, [])
    \<and> pem_Decode (ServerCertPEM certs) = Some (cert_block serverDER, [])
    \<and> pem_Decode (ServerKeyPEM certs) = Some (ec_key_block serverKeyDER, [])
    \<and> pem_Decode (ClientCertPEM certs) = Some (cert_block clientDER, [])
    \<and> pem_Decode (ClientKeyPEM certs) = Some (ec_key_block clientKeyDER, [])"
proof -
  have dec: "\<And>b. plain_block b \<Longrightarrow> pem_Decode (pem_EncodeToMemory b) = Some (b, [])"
    using pem_Decode_Encode [of _ "[]"] by simp
  obtain caKey caDER caCert serverKey serverDER serverKeyDER clientKey clientDER clientKeyDER v1 v2
    where i: "issue C ''CA'' ca_template None v = (Inr (caKey, caDER), v1)"
      "issue C ''server'' server_template (Some (caCert, caKey)) v1 = (Inr (serverKey, serverDER), v2)"
      "issue C ''client'' client_template (Some (caCert, caKey)) v2 = (Inr (clientKey, clientDER), v')"
    and p: "ParseCertificate C caDER = Inr caCert"
      "MarshalECPrivateKey C serverKey = Inr serverKeyDER" "MarshalECPrivateKey C clientKey = Inr clientKeyDER"
    and certs: "certs = \<lparr>CACertPEM = pem_EncodeToMemory (cert_block caDER),
       ServerCertPEM = pem_EncodeToMemory (cert_block serverDER),
       ServerKeyPEM = pem_EncodeToMemory (ec_key_block serverKeyDER),
       ClientCertPEM = pem_EncodeToMemory (cert_block clientDER),
       ClientKeyPEM = pem_EncodeToMemory (ec_key_block clientKeyDER)\<rparr>"
    by (rule GenerateTestCerts_Inr [OF assms])
  obtain t1 t2 t3 t4 t5 t6
    where "issued C (ca_template t1 t2) (ca_template t1 t2) (PublicKey C caKey) caKey caDER"
      "issued C (server_template t3 t4) caCert (PublicKey C serverKey) caKey serverDER"
      "issued C (client_template t5 t6) caCert (PublicKey C clientKey) caKey clientDER"
    using issue_Inr [OF i(1)] issue_Inr [OF i(2)] issue_Inr [OF i(3)] by auto
  with p show ?thesis by (intro exI conjI) (assumption | simp add: certs dec)+
qed

theorem test_certs_chain_witness:
  "\<exists>certs der. GenerateTestCerts demo_crypto 0 = (Inr certs, 3)
     \<and> pem_Decode (ClientCertPEM certs) = Some (cert_block der, [])"
proof -
  obtain certs where g: "GenerateTestCerts demo_crypto 0 = (Inr certs, 3)"
    using demo_certs by blast
  from test_certs_chain [OF this] g show ?thesis by blast
qed

text \<open>
  The plugin's reader of combined PEM files splits the client's certificate followed by its key
  back into exactly these two texts.
\<close>

theorem test_certs_split:
  assumes "GenerateTestCerts C v = (Inr certs, v')"
    and "os_ReadFile path s = (Inr (ClientCertPEM certs @ ClientKeyPEM certs), s')"
  shows "parseCombinedPEM path s = (Inr (ClientCertPEM certs, ClientKeyPEM certs), s')"
proof (rule GenerateTestCerts_Inr [OF assms(1)])
  fix clientDER clientKeyDER caDER serverDER serverKeyDER
  assume certs: "certs = \<lparr>CACertPEM = pem_EncodeToMemory (cert_block caDER),
       ServerCertPEM = pem_EncodeToMemory (cert_block serverDER),
       ServerKeyPEM = pem_EncodeToMemory (ec_key_block serverKeyDER),
       ClientCertPEM = pem_EncodeToMemory (cert_block clientDER),
       ClientKeyPEM = pem_EncodeToMemory (ec_key_block clientKeyDER)\<rparr>"
  have "pem_loop (concat (map pem_EncodeToMemory [cert_block clientDER, ec_key_block clientKeyDER])) None None
    = (Some (ClientCertPEM certs), Some (ClientKeyPEM certs))"
    by (subst pem_split) (simp_all add: certs pem_file_def)
  with assms(2) show ?thesis by (simp add: parseCombinedPEM_def certs)
qed

theorem test_certs_split_witness:
  "\<exists>certs. GenerateTestCerts demo_crypto 0 = (Inr certs, 3)
     \<and> fst (parseCombinedPEM ''/pem'' (demo_os\<lparr>os_files :=
         [''/pem'' \<mapsto> RegularFile (ClientCertPEM certs @ ClientKeyPEM certs)]\<rparr>))
       = Inr (ClientCertPEM certs, ClientKeyPEM certs)"
proof -
  obtain certs where g: "GenerateTestCerts demo_crypto 0 = (Inr certs, 3)"
    using demo_certs by blast
  let ?s = "demo_os\<lparr>os_files := [''/pem'' \<mapsto> RegularFile (ClientCertPEM certs @ ClientKeyPEM certs)]\<rparr>"
  have "os_ReadFile ''/pem'' ?s = (Inr (ClientCertPEM certs @ ClientKeyPEM certs), next_call ?s)"
    by (simp add: os_ReadFile_def call_fault_def demo_os_def)
  from test_certs_split [OF g this] g show ?thesis by auto
qed

text \<open>
  A token \<open>SignTestJWT\<close> returns has three segments separated by its two dots: the header, the claims
  with the subject and audience asked for, and 64 bytes that are the two numbers of a signature of
  the digest of everything before the last dot.
\<close>

theorem jwt_segments:
  assumes "SignTestJWT C privKey subject audience v = (Ok token, v')"
  shows "\<exists>h p g sig now v1. cut ''.'' token = Some (h, p @ ''.'' @ g) \<and> cut ''.'' (p @ ''.'' @ g) = Some (p, g)
    \<and> cut ''.'' g = None
    \<and> time_Now C v = (now, v1)
    \<and> b64_decode RawURLEncoding h = Inr jwt_header
    \<and> b64_decode RawURLEncoding p = Inr (jwt_payload subject audience now)
    \<and> b64_decode RawURLEncoding g = Inr sig \<and> length sig = es256SigSize
    \<and> Sign C privKey (Sum256 C (h @ ''.'' @ p)) v1 = (Inr (big_endian (take 32 sig), big_endian (drop 32 sig)), v')"
proof -
  let ?h = "b64_encode RawURLEncoding jwt_header"
  obtain now v1 where n: "time_Now C v = (now, v1)" by fastforce
  let ?p = "b64_encode RawURLEncoding (jwt_payload subject audience now)"
  from assms n obtain r s rb sb where s: "Sign C privKey (Sum256 C (?h @ ''.'' @ ?p)) v1 = (Inr (r, s), v')"
    and b: "FillBytes 32 r = Some rb" "FillBytes (es256SigSize - 32) s = Some sb"
    and t: "token = ?h @ ''.'' @ ?p @ ''.'' @ b64_encode RawURLEncoding (rb @ sb)"
    by (auto simp: SignTestJWT_def Let_def split: prod.splits sum.splits option.splits)
  note v = FillBytes_value [OF b(1)] FillBytes_value [OF b(2)]
  let ?g = "b64_encode RawURLEncoding (rb @ sb)"
  have "cut ''.'' token = Some (?h, ?p @ ''.'' @ ?g)" "cut ''.'' (?p @ ''.'' @ ?g) = Some (?p, ?g)"
    unfolding t by (rule cut_first, rule RawURL_no_dot)+
  moreover have "cut ''.'' ?g = None"
    using RawURL_no_dot [of "rb @ sb"] by (auto simp: cut_None in_set_conv_decomp)
  moreover have "length (rb @ sb) = es256SigSize" using v by (simp add: es256SigSize_def)
  ultimately show ?thesis
    using n s v b64_decode_encode [OF b64_wf_RawURL] by (intro exI conjI) auto
qed

theorem jwt_segments_witness:
  "\<exists>token h r. SignTestJWT demo_crypto 0 ''sub'' ''aud'' 0 = (Ok token, 0) \<and> cut ''.'' token = Some (h, r)
     \<and> b64_decode RawURLEncoding h = Inr jwt_header"
proof -
  obtain token where s: "SignTestJWT demo_crypto 0 ''sub'' ''aud'' 0 = (Ok token, 0)"
    using demo_token by blast
  from jwt_segments [OF this] s show ?thesis by blast
qed

end
