(* ===== verification/Programs.thy ===== *)
theory Programs
  imports Plugin_Service
begin

text \<open>
  What a goroutine does, cut at the points where others can run: a program is a tree of atomic
  actions on the world (one call to Vault, one write to the shared client, one line of the log, one
  observation). \<open>exec\<close> runs a program alone. The two predicates say what a program keeps up among
  others: \<open>upholds\<close> for an invariant with the interference a relation allows, \<open>pays\<close> for the metrics.
\<close>

datatype ('w, 'r) prog = Return 'r | Atom "'w \<Rightarrow> ('w, 'r) prog" "'w \<Rightarrow> 'w"

primrec exec :: "('w, 'r) prog \<Rightarrow> 'w \<Rightarrow> 'r \<times> 'w" where
  "exec (Return r) = (\<lambda>w. (r, w))"
| "exec (Atom k f) = (\<lambda>w. exec (k w) (f w))"

primrec bind_prog :: "('w, 'a) prog \<Rightarrow> ('a \<Rightarrow> ('w, 'b) prog) \<Rightarrow> ('w, 'b) prog" where
  "bind_prog (Return r) g = g r"
| "bind_prog (Atom k f) g = Atom (\<lambda>w. bind_prog (k w) g) f"

definition act :: "('w \<Rightarrow> 'r \<times> 'w) \<Rightarrow> ('w, 'r) prog" where
  "act f = Atom (\<lambda>w. Return (fst (f w))) (\<lambda>w. snd (f w))"

lemma exec_act [simp]: "exec (act f) w = f w"
  by (simp add: act_def)

lemma exec_bind [simp]: "exec (bind_prog p g) w = (case exec p w of (r, w1) \<Rightarrow> exec (g r) w1)"
  by (induction p arbitrary: w) simp_all

text \<open>An error or a panic of the first program is the result of both.\<close>

definition bind_ok :: "('w, 'a outcome) prog \<Rightarrow> ('a \<Rightarrow> ('w, 'b outcome) prog) \<Rightarrow> ('w, 'b outcome) prog" where
  "bind_ok p g = bind_prog p (\<lambda>r. case r of Ok x \<Rightarrow> g x | Err e \<Rightarrow> Return (Err e) | Panic k \<Rightarrow> Return (Panic k))"

definition tell :: "event \<Rightarrow> (('h, 'v) world, unit) prog" where
  "tell e = act (\<lambda>w. ((), emit e w))"

definition tell_if :: "bool \<Rightarrow> event \<Rightarrow> (('h, 'v) world, unit) prog" where
  "tell_if b e = (if b then tell e else Return ())"

definition modify :: "('h \<Rightarrow> 'h) \<Rightarrow> (('h, 'v) world, unit) prog" where
  "modify f = act (\<lambda>w. ((), w\<lparr>heap := f (heap w)\<rparr>))"

text \<open>\<open>p\<close> and then \<open>q\<close>, without the value of \<open>p\<close>.\<close>

definition andthen :: "('w, unit) prog \<Rightarrow> ('w, 'b) prog \<Rightarrow> ('w, 'b) prog" where
  "andthen p q = bind_prog p (\<lambda>u. q)"

lemma exec_tell [simp]:
  "exec (tell e) w = ((), emit e w)" "exec (tell_if b e) w = ((), emit_if b e w)"
  "exec (modify g) w = ((), w\<lparr>heap := g (heap w)\<rparr>)" "exec (andthen p q) w = exec q (snd (exec p w))"
  by (simp_all add: tell_def tell_if_def emit_if_def modify_def andthen_def split: prod.split)

lemma exec_bind_ok:
  "exec (bind_ok p g) w = (case exec p w of
      (Ok x, w1) \<Rightarrow> exec (g x) w1 | (Err e, w1) \<Rightarrow> (Err e, w1) | (Panic k, w1) \<Rightarrow> (Panic k, w1))"
  by (simp add: bind_ok_def split: prod.split outcome.split)

definition reply_prog :: "('a \<Rightarrow> 'b) \<Rightarrow> ('w, 'a) prog \<Rightarrow> ('w, 'b) prog" where
  "reply_prog f p = bind_prog p (\<lambda>r. Return (f r))"

subsection \<open>Invariants under interference\<close>

text \<open>
  \<open>rel\<close> is what any action of any goroutine may do to the world, however often. \<open>upholds p Q w\<close>: started
  in \<open>w\<close>, every action of \<open>p\<close> stays in \<open>rel\<close>, whatever the others did before it, and the result has \<open>Q\<close>
  in every later world.
\<close>

locale interference =
  fixes rel :: "'w \<Rightarrow> 'w \<Rightarrow> bool"
  assumes rel_refl: "rel w w"
    and rel_trans: "rel u v \<Longrightarrow> rel v w \<Longrightarrow> rel u w"

primrec upholds :: "('w \<Rightarrow> 'w \<Rightarrow> bool) \<Rightarrow> ('w, 'r) prog \<Rightarrow> ('r \<Rightarrow> 'w \<Rightarrow> bool) \<Rightarrow> 'w \<Rightarrow> bool" where
  "upholds rel (Return r) = (\<lambda>Q w. \<forall>w'. rel w w' \<longrightarrow> Q r w')"
| "upholds rel (Atom k f) = (\<lambda>Q w. \<forall>w'. rel w w' \<longrightarrow> rel w' (f w') \<and> upholds rel (k w') Q (f w'))"

context interference
begin

lemma upholds_mono: "upholds rel p Q w \<Longrightarrow> (\<And>r w. Q r w \<Longrightarrow> R r w) \<Longrightarrow> upholds rel p R w"
  by (induction p arbitrary: w) auto

lemma upholds_rel: "upholds rel p Q w \<Longrightarrow> rel w w' \<Longrightarrow> upholds rel p Q w'"
  using rel_trans by (cases p) auto

lemma upholds_Return: "upholds rel (Return r) Q w \<Longrightarrow> Q r w"
  using rel_refl by simp

lemma upholds_Atom: "upholds rel (Atom k f) Q w \<Longrightarrow> rel w (f w) \<and> upholds rel (k w) Q (f w)"
  using rel_refl by simp

lemma upholds_bind: "upholds rel p (\<lambda>r. upholds rel (g r) Q) w \<Longrightarrow> upholds rel (bind_prog p g) Q w"
  by (induction p arbitrary: w) (auto dest: upholds_Return simp: rel_refl)

lemma upholds_act:
  assumes "\<And>w' r w''. rel w w' \<Longrightarrow> f w' = (r, w'') \<Longrightarrow> rel w' w'' \<and> (\<forall>u. rel w'' u \<longrightarrow> Q r u)"
  shows "upholds rel (act f) Q w"
  using assms by (auto simp: act_def) (metis prod.collapse)+

lemma upholds_inv:
  "upholds rel p Q w \<Longrightarrow> P w \<Longrightarrow> (\<And>u v. P u \<Longrightarrow> rel u v \<Longrightarrow> P v) \<Longrightarrow> upholds rel p (\<lambda>r u. P u \<and> Q r u) w"
proof (induction p arbitrary: w)
  case (Atom k f)
  show ?case
  proof (simp, intro allI impI)
    fix w' assume r: "rel w w'"
    with Atom.prems(1) have u: "rel w' (f w')" "upholds rel (k w') Q (f w')" by simp_all
    have "P (f w')" using Atom.prems(2,3) r u(1) by blast
    with u Atom.IH [of "k w'" "f w'"] Atom.prems(3)
    show "rel w' (f w') \<and> upholds rel (k w') (\<lambda>r u. P u \<and> Q r u) (f w')" by blast
  qed
qed auto

text \<open>A program that upholds the relation does so when it runs alone.\<close>

lemma upholds_exec: "upholds rel p Q w \<Longrightarrow> exec p w = (r, w') \<Longrightarrow> rel w w' \<and> Q r w'"
proof (induction p arbitrary: w)
  case (Atom k f)
  from upholds_Atom [OF Atom.prems(1)] Atom.IH [of "k w" "f w"] Atom.prems(2)
  show ?case by (auto intro: rel_trans)
qed (auto simp: rel_refl)

end

lemma upholds_reply: "upholds rel (reply_prog f p) Q w \<longleftrightarrow> upholds rel p (\<lambda>r. Q (f r)) w"
  unfolding reply_prog_def by (induction p arbitrary: w) simp_all

text \<open>With a condition the relation keeps: the rules for one construct each.\<close>

locale steady_interference = interference +
  fixes ok :: "'w \<Rightarrow> bool"
  assumes ok_rel: "ok w \<Longrightarrow> rel w w' \<Longrightarrow> ok w'"
begin

lemma upholds_ok: "upholds rel p Q w \<Longrightarrow> ok w \<Longrightarrow> upholds rel p (\<lambda>r w. ok w \<and> Q r w) w"
  by (rule upholds_inv) (blast intro: ok_rel)+

text \<open>What the relation keeps besides holds at the end of a program too.\<close>

lemma steady_keeps:
  assumes "upholds rel p Q w" "ok w" "P w" "\<And>u v. ok u \<Longrightarrow> P u \<Longrightarrow> rel u v \<Longrightarrow> P v"
  shows "upholds rel p (\<lambda>r u. P u \<and> Q r u) w"
proof -
  have "upholds rel p (\<lambda>r u. (ok u \<and> P u) \<and> Q r u) w"
    by (rule upholds_inv [OF assms(1)]) (use assms(2-4) ok_rel in blast)+
  then show ?thesis by (rule upholds_mono) simp
qed

lemma steady_Return: "ok w \<Longrightarrow> (\<And>u. ok u \<Longrightarrow> rel w u \<Longrightarrow> Q r u) \<Longrightarrow> upholds rel (Return r) Q w"
  using ok_rel by simp

lemma steady_bind:
  assumes "ok w" "upholds rel p Q w" "\<And>r u. ok u \<Longrightarrow> Q r u \<Longrightarrow> upholds rel (g r) R u"
  shows "upholds rel (bind_prog p g) R w"
  by (rule upholds_bind, rule upholds_mono [OF upholds_ok [OF assms(2,1)]]) (use assms(3) in simp)

lemma steady_act:
  assumes "ok w" "\<And>u r u'. ok u \<Longrightarrow> rel w u \<Longrightarrow> f u = (r, u') \<Longrightarrow> rel u u'"
    and "\<And>u r u' v. ok u \<Longrightarrow> rel w u \<Longrightarrow> f u = (r, u') \<Longrightarrow> ok v \<Longrightarrow> rel u' v \<Longrightarrow> Q r v"
  shows "upholds rel (act f) Q w"
proof (rule upholds_act)
  fix u r u' assume u: "rel w u" "f u = (r, u')"
  have o: "ok u" using ok_rel [OF assms(1) u(1)] .
  have r: "rel u u'" by (rule assms(2) [OF o u])
  have "Q r v" if "rel u' v" for v
    by (rule assms(3) [OF o u _ that]) (use ok_rel [OF ok_rel [OF o r] that] in simp)
  with r show "rel u u' \<and> (\<forall>v. rel u' v \<longrightarrow> Q r v)" by simp
qed

lemma steady_bind_ok:
  assumes "ok w" "upholds rel p (\<lambda>r w. \<exists>x. r = Ok x \<and> Q x w) w" "\<And>x u. ok u \<Longrightarrow> Q x u \<Longrightarrow> upholds rel (g x) R u"
  shows "upholds rel (bind_ok p g) R w"
  unfolding bind_ok_def by (rule steady_bind [OF assms(1,2)]) (use assms(3) in auto)

lemma steady_andthen:
  assumes "ok w" "upholds rel p (\<lambda>r w. True) w" "P w" "\<And>u v. ok u \<Longrightarrow> P u \<Longrightarrow> rel u v \<Longrightarrow> P v"
    and "\<And>u. ok u \<Longrightarrow> P u \<Longrightarrow> upholds rel q Q u"
  shows "upholds rel (andthen p q) Q w"
  unfolding andthen_def
proof (rule steady_bind [OF assms(1)])
  show "upholds rel p (\<lambda>r u. P u \<and> True) w"
    by (rule steady_keeps [where P = P and Q = "\<lambda>r u. True"]) (use assms in blast)+
qed (use assms(5) in auto)

end

subsection \<open>Accounts\<close>

text \<open>
  \<open>pays c p Q\<close>: if \<open>p\<close> has put \<open>c\<close> on the operation metrics so far, what it puts on them from now on is
  its own, whatever the others put there, and \<open>Q\<close> relates the total to its result.
\<close>

primrec pays :: "(('h, 'v) world, 'r) prog \<Rightarrow> ('r \<Rightarrow> nat \<times> nat \<times> nat \<times> nat \<Rightarrow> bool) \<Rightarrow>
    nat \<times> nat \<times> nat \<times> nat \<Rightarrow> bool" where
  "pays (Return r) = (\<lambda>Q c. Q r c)"
| "pays (Atom k f) = (\<lambda>Q c. \<forall>w. \<exists>d. op_meter (events (f w)) = add4 (op_meter (events w)) d \<and> pays (k w) Q (add4 c d))"

lemma pays_mono: "pays p Q c \<Longrightarrow> (\<And>r c. Q r c \<Longrightarrow> R r c) \<Longrightarrow> pays p R c"
  by (induction p arbitrary: c) (simp, fastforce)

lemma pays_bind: "pays p (\<lambda>r. pays (g r) Q) c \<Longrightarrow> pays (bind_prog p g) Q c"
  by (induction p arbitrary: c) (simp, fastforce)

lemma pays_bind_ok:
  assumes "pays p (\<lambda>r c. case r of Ok x \<Rightarrow> pays (g x) Q c | Err e \<Rightarrow> Q (Err e) c | Panic k \<Rightarrow> Q (Panic k) c) c"
  shows "pays (bind_ok p g) Q c"
  unfolding bind_ok_def
  by (rule pays_bind, rule pays_mono [OF assms]) (auto split: outcome.splits)

lemma pays_act:
  assumes "\<And>w r w'. f w = (r, w') \<Longrightarrow> op_meter (events w') = add4 (op_meter (events w)) d \<and> Q r (add4 c d)"
  shows "pays (act f) Q c"
  unfolding act_def pays.simps
proof (intro allI exI [of _ d])
  fix w
  show "op_meter (events (snd (f w))) = add4 (op_meter (events w)) d \<and> Q (fst (f w)) (add4 c d)"
    using assms [of w "fst (f w)" "snd (f w)"] by simp
qed

text \<open>An action that leaves the metrics alone.\<close>

lemma pays_quiet:
  "(\<And>w r w'. f w = (r, w') \<Longrightarrow> op_meter (events w') = op_meter (events w) \<and> Q r c) \<Longrightarrow> pays (act f) Q c"
  by (rule pays_act [where d = "(0, 0, 0, 0)"]) simp

lemma op_meter_event: "op_meter (es @ [e]) = add4 (op_meter es) (op_meter [e])"
  by (simp add: op_meter_def)

lemma pays_tell: "Q () (add4 c (op_meter [e])) \<Longrightarrow> pays (tell e) Q c"
  unfolding tell_def by (rule pays_act [where d = "op_meter [e]"]) (auto simp: op_meter_event)

lemma pays_tell_if: "Q () (if b then add4 c (op_meter [e]) else c) \<Longrightarrow> pays (tell_if b e) Q c"
  by (cases b) (simp_all add: tell_if_def pays_tell)

lemma pays_andthen: "pays p (\<lambda>u. pays q Q) c \<Longrightarrow> pays (andthen p q) Q c"
  by (simp add: andthen_def pays_bind)

lemma pays_reply: "pays (reply_prog f p) Q c \<longleftrightarrow> pays p (\<lambda>r. Q (f r)) c"
  unfolding reply_prog_def by (induction p arbitrary: c) simp_all

end
