(* ===== verification/Client_Programs.thy ===== *)
theory Client_Programs
  imports Programs Vault_Transit Vault_Lease
begin

text \<open>
  The Vault client's operations as programs: \<open>transit.go\<close>, the logins of \<open>client.go\<close> and \<open>jwt.go\<close>, and a
  turn of \<open>lease.go\<close>. Each call to Vault and each write to the client is an action of its own, and
  reads the shared client when it runs; run alone, a program is the operation of Vault_Transit,
  Vault_Client or Vault_Lease.
\<close>

subsection \<open>Transit operations\<close>

text \<open>\<open>Decrypt\<close> and \<open>GetKeyVersion\<close> make one call, \<open>Encrypt\<close> two: this is the first.\<close>

definition encrypt_write :: "('c, 't, 'v) deps \<Rightarrow> 'c client \<Rightarrow> go_context \<Rightarrow> bytes \<Rightarrow> ('h, 'v) world \<Rightarrow>
    bytes outcome \<times> ('h, 'v) world" where
  "encrypt_write D c ctx d w =
     (case on_svc (Write D (api c) ctx (encryptDataPath (TransitEngine c) (TransitKey c))
          [(''plaintext'', JString (b64_encode StdEncoding d))]) w of
        (Inl e, w1) \<Rightarrow> (Err e, w1)
      | (Inr None, w1) \<Rightarrow> (Panic NilDereference, w1)
      | (Inr (Some resp), w1) \<Rightarrow>
          (case assert_string (Data resp ''ciphertext'') of
             None \<Rightarrow> (Err (ErrNew ''invalid response''), w1)
           | Some res \<Rightarrow> (Ok res, w1)))"

definition GetKeyVersion_prog :: "('c, 't, 'v) deps \<Rightarrow> go_context \<Rightarrow> (('c client, 'v) world, string outcome) prog" where
  "GetKeyVersion_prog D ctx = act (\<lambda>w. client_GetKeyVersion D (heap w) ctx w)"

definition Decrypt_prog :: "('c, 't, 'v) deps \<Rightarrow> go_context \<Rightarrow> bytes \<Rightarrow>
    (('c client, 'v) world, bytes outcome) prog" where
  "Decrypt_prog D ctx d = act (\<lambda>w. client_Decrypt D (heap w) ctx d w)"

definition Encrypt_prog :: "('c, 't, 'v) deps \<Rightarrow> go_context \<Rightarrow> bytes \<Rightarrow>
    (('c client, 'v) world, (bytes \<times> string) outcome) prog" where
  "Encrypt_prog D ctx d =
     bind_ok (act (\<lambda>w. encrypt_write D (heap w) ctx d w)) (\<lambda>res.
     bind_ok (GetKeyVersion_prog D ctx) (\<lambda>kv. Return (Ok (res, kv))))"

lemma client_Encrypt_split:
  "client_Encrypt D c ctx d w = (case encrypt_write D c ctx d w of
      (Ok res, w1) \<Rightarrow> (case client_GetKeyVersion D c ctx w1 of
          (Ok kv, w2) \<Rightarrow> (Ok (res, kv), w2) | (Err e, w2) \<Rightarrow> (Err e, w2) | (Panic k, w2) \<Rightarrow> (Panic k, w2))
    | (Err e, w1) \<Rightarrow> (Err e, w1) | (Panic k, w1) \<Rightarrow> (Panic k, w1))"
  by (auto simp: client_Encrypt_def encrypt_write_def Let_def split: prod.splits sum.splits option.splits)

lemma encrypt_write_svc_only: "encrypt_write D c ctx d w = (r, w') \<Longrightarrow> svc_only w w'"
  by (auto simp: encrypt_write_def dest: svc_only_on_svc split: prod.splits sum.splits option.splits)

lemma exec_transit [simp]:
  "exec (GetKeyVersion_prog D ctx) w = GetKeyVersion (vault_plugin D) ctx w"
  "exec (Decrypt_prog D ctx d) w = Decrypt (vault_plugin D) ctx d w"
  "exec (Encrypt_prog D ctx d) w = Encrypt (vault_plugin D) ctx d w"
proof -
  show "exec (Encrypt_prog D ctx d) w = Encrypt (vault_plugin D) ctx d w"
    by (auto simp: Encrypt_prog_def GetKeyVersion_prog_def exec_bind_ok client_Encrypt_split
        dest!: encrypt_write_svc_only svc_only_fields split: prod.splits outcome.splits)
qed (simp_all add: GetKeyVersion_prog_def Decrypt_prog_def)

subsection \<open>Logins\<close>

text \<open>The token of the answer goes to the API client, then the method is remembered.\<close>

definition adopt_token :: "('c, 't, 'v) deps \<Rightarrow> client_option \<Rightarrow> string \<Rightarrow>
    (('c client, 'v) world, unit outcome) prog" where
  "adopt_token D m t =
     andthen (modify (\<lambda>c. c\<lparr>api := SetToken D (api c) t\<rparr>)) (andthen (modify (remember m)) (Return (Ok ())))"

definition use_login_prog :: "('c, 't, 'v) deps \<Rightarrow> string \<Rightarrow> client_option \<Rightarrow> (go_error + secret option) \<Rightarrow>
    (('c client, 'v) world, unit outcome) prog" where
  "use_login_prog D what m answer =
     (case answer of
        Inl e \<Rightarrow> Return (Err (ErrWrap (''error performing '' @ what @ '' auth'') e))
      | Inr s \<Rightarrow> (case client_token s of None \<Rightarrow> Return (Panic NilDereference) | Some t \<Rightarrow> adopt_token D m t))"

definition login_write :: "('c, 't, 'v) deps \<Rightarrow> string \<Rightarrow> (string \<times> json) list \<Rightarrow>
    (('c client, 'v) world, go_error + secret option) prog" where
  "login_write D path opts = act (\<lambda>w. on_svc (Write D (api (heap w)) Background path opts) w)"

definition cert_login_prog :: "('c, 't, 'v) deps \<Rightarrow> string \<Rightarrow> string \<Rightarrow> string \<Rightarrow> string \<Rightarrow> string \<Rightarrow>
    (('c client, 'v) world, unit outcome) prog" where
  "cert_login_prog D mount role certFile keyFile caFile =
     andthen (modify (\<lambda>c. c\<lparr>CertAuthMount := mount, CertRole := role,
       CertFile := certFile, CertKey := keyFile\<rparr>))
     (bind_prog (act (\<lambda>w. on_os (ConfigureTLS D
           ((DefaultConfig D (env_vars w))\<lparr>cfg_Address := Address D (api (heap w))\<rparr>)
           \<lparr>ClientCert = certFile, ClientKey = keyFile, CACert = caFile\<rparr>) w))
       (\<lambda>x. case x of
          Inl e \<Rightarrow> Return (Err (ErrWrap ''error configuring TLS for cert auth'' e))
        | Inr cfg \<Rightarrow>
            bind_prog (act (\<lambda>w. (api_NewClient D cfg (env_vars w), w))) (\<lambda>y. case y of
               Inl e \<Rightarrow> Return (Err (ErrWrap ''error creating cert auth client'' e))
             | Inr tmpClient \<Rightarrow>
                 bind_prog (act (on_svc (Write D tmpClient Background (certAuthLoginPath mount)
                     [(''name'', JString role)])))
                   (use_login_prog D ''cert'' (WithCertAuth mount role certFile keyFile caFile)))))"

definition jwt_login_prog :: "('c, 't, 'v) deps \<Rightarrow> jwt_token_source \<Rightarrow> string \<Rightarrow> string \<Rightarrow>
    (('c client, 'v) world, unit outcome) prog" where
  "jwt_login_prog D src mount role =
     andthen (modify (\<lambda>c. c\<lparr>JWTMount := mount, JWTRole := role\<rparr>))
     (bind_prog (act (source_Token D src Background)) (\<lambda>x. case x of
        Inl e \<Rightarrow> Return (Err e)
      | Inr jwtToken \<Rightarrow>
          bind_prog (login_write D (certAuthLoginPath mount) [(''role'', JString role), (''jwt'', JString jwtToken)])
            (\<lambda>answer. case answer of
               Inl e \<Rightarrow> Return (Err (ErrWrap ''error performing jwt auth'' e))
             | Inr s \<Rightarrow>
                 (case client_token s of
                    None \<Rightarrow> Return (Err (ErrNew ''jwt auth: empty auth response from vault''))
                  | Some t \<Rightarrow> adopt_token D (WithJWTTokenSource mount role src) t))))"

text \<open>An option that does not log in is one write to the client.\<close>

fun option_prog :: "('c, 't, 'v) deps \<Rightarrow> client_option \<Rightarrow> (('c client, 'v) world, unit outcome) prog" where
  "option_prog D (WithTokenAuth token) =
     andthen (modify (\<lambda>c. c\<lparr>Token := token\<rparr>))
     (andthen (if token \<noteq> '''' then modify (\<lambda>c. c\<lparr>api := SetToken D (api c) token\<rparr>) else Return ())
     (andthen (modify (remember (WithTokenAuth token))) (Return (Ok ()))))"
| "option_prog D (WithAppRoleAuth mount roleID secretID) =
     andthen (modify (\<lambda>c. c\<lparr>AppRoleID := roleID, AppRoleMount := mount, AppRoleSecretID := secretID\<rparr>))
     (bind_prog (login_write D (appRoleAuthLoginPath mount)
         [(''role_id'', JString roleID), (''secret_id'', JString secretID)])
       (use_login_prog D ''approle'' (WithAppRoleAuth mount roleID secretID)))"
| "option_prog D (WithUserPassAuth mount username password) =
     andthen (modify (\<lambda>c. c\<lparr>UserPassMount := mount, Username := username, Password := password\<rparr>))
     (bind_prog (login_write D (userPassAuthLoginPath mount (path_escape username)) [(''password'', JString password)])
       (use_login_prog D ''userpass'' (WithUserPassAuth mount username password)))"
| "option_prog D (WithCertAuth mount role certFile keyFile caFile) =
     cert_login_prog D mount role certFile keyFile caFile"
| "option_prog D (WithSPIFFEJWTAuth mount role endpoint audience subject) =
     (case spiffeid_FromString D subject of
        Inl e \<Rightarrow> Return (Err (ErrWrap (''invalid SPIFFE ID '' @ go_quote subject) e))
      | Inr subjectID \<Rightarrow> jwt_login_prog D (SpiffeJWTTokenSource
            \<lparr>src_endpoint = endpoint, src_audience = audience, src_subject = subjectID\<rparr>) mount role)"
| "option_prog D (WithJWTTokenSource mount role src) = jwt_login_prog D src mount role"
| "option_prog D m = act (\<lambda>w. case apply_option D m (heap w) w of (r, c, w1) \<Rightarrow> (r, w1\<lparr>heap := c\<rparr>))"

text \<open>The calls of a login do not look at the client.\<close>

lemma on_svc_heap_update: "on_svc f (w\<lparr>heap := h\<rparr>) = (case on_svc f w of (r, w1) \<Rightarrow> (r, w1\<lparr>heap := h\<rparr>))"
  by (simp add: on_svc_def split: prod.split)

lemma on_os_heap_update: "on_os f (w\<lparr>heap := h\<rparr>) = (case on_os f w of (r, w1) \<Rightarrow> (r, w1\<lparr>heap := h\<rparr>))"
  by (simp add: on_os_def split: prod.split)

lemma source_Token_heap_update:
  "source_Token D src ctx (w\<lparr>heap := h\<rparr>) = (case source_Token D src ctx w of (r, w1) \<Rightarrow> (r, w1\<lparr>heap := h\<rparr>))"
  by (cases src) (auto simp: file_Token_def spiffe_Token_def Let_def on_svc_heap_update on_os_heap_update
      split: prod.splits sum.splits)

lemmas heap_updates = on_svc_heap_update on_os_heap_update source_Token_heap_update

definition with_client :: "unit outcome \<times> 'c client \<times> ('c client, 'v) world \<Rightarrow> unit outcome \<times> ('c client, 'v) world" where
  "with_client x = (case x of (r, c, w) \<Rightarrow> (r, w\<lparr>heap := c\<rparr>))"

lemma with_client_simp [simp]: "with_client (r, c, w) = (r, w\<lparr>heap := c\<rparr>)"
  by (simp add: with_client_def)

lemma exec_adopt_token: "exec (adopt_token D m t) w = (Ok (), w\<lparr>heap := remember m ((heap w)\<lparr>api := SetToken D (api (heap w)) t\<rparr>)\<rparr>)"
  by (simp add: adopt_token_def)

lemma exec_use_login:
  "exec (use_login_prog D what m answer) (w\<lparr>heap := c\<rparr>) = with_client (use_login D what m c (answer, w))"
  by (auto simp: use_login_prog_def use_login_def with_client_def exec_adopt_token split: sum.splits option.splits)

lemma exec_jwt_login:
  "exec (jwt_login_prog D src mount role) w
     = with_client (jwt_login D (source_Token D src) mount role (WithJWTTokenSource mount role src) (heap w) w)"
  by (auto simp: jwt_login_prog_def jwt_login_def with_client_def login_write_def exec_adopt_token heap_updates Let_def
      split: prod.splits sum.splits option.splits)

lemma exec_cert_login:
  "exec (cert_login_prog D mount role cf kf ca) w = with_client (cert_login D mount role cf kf ca (heap w) w)"
  by (auto simp: cert_login_prog_def cert_login_def heap_updates Let_def exec_use_login split: prod.splits sum.splits)

lemma exec_option [simp]: "exec (option_prog D m) w = with_client (apply_option D m (heap w) w)"
  by (cases m)
    (auto simp: exec_jwt_login exec_cert_login approle_login_def userpass_login_def login_write_def heap_updates
      exec_use_login Let_def split: prod.splits sum.splits option.splits)

subsection \<open>The lease refresher\<close>

definition AuthMethod_prog :: "('c, 't, 'v) deps \<Rightarrow> (('c client, 'v) world, unit outcome) prog" where
  "AuthMethod_prog D = bind_prog (act (\<lambda>w. (AuthMethodFunc (heap w), w)))
     (\<lambda>f. case f of None \<Rightarrow> Return (Panic NilFunctionCall) | Some m \<Rightarrow> option_prog D m)"

definition LookupSelf_prog :: "('c, 't, 'v) deps \<Rightarrow> (('c client, 'v) world, go_error + secret option) prog" where
  "LookupSelf_prog D = act (\<lambda>w. on_svc (LookupSelf D (api (heap w))) w)"

definition authenticateAndVerify_prog :: "('c, 't, 'v) deps \<Rightarrow> (('c client, 'v) world, unit outcome) prog" where
  "authenticateAndVerify_prog D = bind_ok (AuthMethod_prog D) (\<lambda>u.
     bind_prog (LookupSelf_prog D) (\<lambda>x. Return (case x of Inl e \<Rightarrow> Err e | Inr s \<Rightarrow> Ok ())))"

definition info_line :: "string \<Rightarrow> log_field list \<Rightarrow> (('h, 'v) world, unit outcome) prog" where
  "info_line m fs = andthen (tell (Log InfoLevel m fs)) (Return (Ok ()))"

definition error_line :: "string \<Rightarrow> log_field list \<Rightarrow> (('h, 'v) world, unit outcome) prog" where
  "error_line m fs = andthen (tell (Log ErrorLevel m fs)) (Return (Ok ()))"

text \<open>A login whose result is only logged; a panic goes on.\<close>

definition log_result :: "string \<Rightarrow> (('h, 'v) world, unit outcome) prog \<Rightarrow> (('h, 'v) world, unit outcome) prog" where
  "log_result m p = bind_prog p (\<lambda>r. case r of
      Err e \<Rightarrow> error_line m [FError e] | Panic k \<Rightarrow> Return (Panic k) | Ok u \<Rightarrow> info_line ''successfully re-authenticated'' [])"

definition lookup_failed_prog :: "('c, 't, 'v) deps \<Rightarrow> go_error \<Rightarrow> (('c client, 'v) world, unit outcome) prog" where
  "lookup_failed_prog D err =
     (if isAuthError err then
        bind_ok (error_line ''failed to lookup token, performing new authentication'' [FError err]) (\<lambda>u.
          log_result ''failed to authenticate or verify token'' (authenticateAndVerify_prog D))
      else error_line ''failed to lookup token'' [FError err])"

definition renew_token_prog :: "('c, 't, 'v) deps \<Rightarrow> (('c client, 'v) world, unit outcome) prog" where
  "renew_token_prog D =
     bind_prog (act (\<lambda>w. (TokenRenewalSeconds (heap w), w))) (\<lambda>n.
     bind_ok (info_line ''attempting token renewal'' [FInt ''renewal_seconds'' n]) (\<lambda>u.
     bind_prog (act (\<lambda>w. on_svc (RenewSelf D (api (heap w)) n) w)) (\<lambda>x.
     bind_ok (case x of
          Inr s \<Rightarrow> info_line ''successfully refreshed token'' []
        | Inl e \<Rightarrow> bind_ok (error_line ''failed to renew token, performing new authentication'' [FError e]) (\<lambda>u.
            log_result ''failed to authenticate'' (AuthMethod_prog D)))
       (\<lambda>u. andthen (tell (CounterInc VaultTokenRenewalTotal)) (Return (Ok ()))))))"

definition check_ttl_prog :: "('c, 't, 'v) deps \<Rightarrow> rat \<Rightarrow> rat \<Rightarrow> (('c client, 'v) world, unit outcome) prog" where
  "check_ttl_prog D creationTTLFloat ttlFloat =
     andthen (tell (GaugeSet VaultTokenExpirySeconds ttlFloat))
     (bind_ok (info_line ''checking token renewal'' [FFloat ''creation_ttl'' creationTTLFloat, FFloat ''ttl'' ttlFloat]) (\<lambda>u.
        if ttlFloat < half_f64 creationTTLFloat then renew_token_prog D else info_line ''skipping token renewal'' []))"

definition lease_tick_prog :: "('c, 't, 'v) deps \<Rightarrow> (('c client, 'v) world, unit outcome) prog" where
  "lease_tick_prog D = bind_prog (LookupSelf_prog D) (\<lambda>x. case x of
      Inl err \<Rightarrow> lookup_failed_prog D err
    | Inr None \<Rightarrow> Return (Panic NilDereference)
    | Inr (Some token) \<Rightarrow>
        (case assert_number (Data token ''creation_ttl'') of
           None \<Rightarrow> error_line ''failed to assert creation_ttl type'' []
         | Some creationTTL \<Rightarrow>
        (case assert_number (Data token ''ttl'') of
           None \<Rightarrow> error_line ''failed to assert ttl type'' []
         | Some ttl \<Rightarrow>
        (case Float64 creationTTL of
           Inl e \<Rightarrow> error_line ''failed to parse creation_ttl'' [FError e]
         | Inr creationTTLFloat \<Rightarrow>
        (case Float64 ttl of
           Inl e \<Rightarrow> error_line ''failed to parse ttl'' [FError e]
         | Inr ttlFloat \<Rightarrow> check_ttl_prog D creationTTLFloat ttlFloat)))))"

lemma exec_logs [simp]:
  "exec (info_line m fs) w = (Ok (), log_info m fs w)" "exec (error_line m fs) w = (Ok (), log_error m fs w)"
  by (simp_all add: info_line_def error_line_def log_defs)

lemma exec_AuthMethod [simp]: "exec (AuthMethod_prog D) w = call_AuthMethodFunc D w"
  by (simp add: AuthMethod_prog_def call_AuthMethodFunc_def with_client_def split: option.split)

lemma exec_authenticateAndVerify [simp]: "exec (authenticateAndVerify_prog D) w = authenticateAndVerify D w"
  by (auto simp: authenticateAndVerify_prog_def authenticateAndVerify_def exec_bind_ok LookupSelf_prog_def
      split: prod.splits outcome.splits sum.splits)

lemma exec_lookup_failed: "exec (lookup_failed_prog D e) w = lookup_failed D e w"
  by (auto simp: lookup_failed_prog_def lookup_failed_def exec_bind_ok log_result_def split: prod.splits outcome.splits)

lemma exec_renew_token: "exec (renew_token_prog D) w = renew_token D w"
  by (auto simp: renew_token_prog_def renew_token_def exec_bind_ok log_result_def Let_def log_info_def
      split: prod.splits outcome.splits sum.splits)

lemma exec_check_ttl: "exec (check_ttl_prog D a b) w = check_ttl D a b w"
  by (simp add: check_ttl_prog_def check_ttl_def exec_bind_ok exec_renew_token Let_def)

lemma exec_lease_tick: "exec (lease_tick_prog D) w = lease_tick D w"
  by (auto simp: lease_tick_prog_def lease_tick_def LookupSelf_prog_def exec_lookup_failed exec_check_ttl
      split: prod.splits sum.splits option.splits)

end
