(* ===== verification/Plugin_Programs.thy ===== *)
theory Plugin_Programs
  imports Client_Programs Plugin_System
begin

text \<open>
  The handlers of the plugin as programs over the client's: the wrappers of both APIs, their probes,
  the health endpoint. A metric and a log line are actions of their own.
\<close>

subsection \<open>Requests\<close>

text \<open>
  The frame all four operations share: count the error or write the line of the log, then observe the
  duration, on every way out; a probe (\<open>rec\<close> is false) does none of it.
\<close>

definition measured :: "bool \<Rightarrow> string \<Rightarrow> string \<Rightarrow> event \<Rightarrow> ('a \<Rightarrow> 'b) \<Rightarrow> (('h, 'v) world, 'a outcome) prog \<Rightarrow>
    (('h, 'v) world, 'b outcome) prog" where
  "measured rec errors durations line f p =
     (let observe = tell_if rec (Observe durations []) in
      bind_prog p (\<lambda>r. case r of
        Err e \<Rightarrow> andthen (tell_if rec (CounterInc errors)) (andthen observe (Return (Err e)))
      | Panic k \<Rightarrow> andthen observe (Return (Panic k))
      | Ok x \<Rightarrow> andthen (tell_if rec line) (andthen observe (Return (Ok (f x))))))"

definition v1_encrypt_prog :: "('c, 't, 'v) deps \<Rightarrow> go_context \<Rightarrow> bytes \<Rightarrow> bool \<Rightarrow>
    (('c client, 'v) world, v1_EncryptResponse outcome) prog" where
  "v1_encrypt_prog D ctx plain rec =
     measured rec EncryptionErrorsTotal EncryptionOperationDurationSeconds
       (Log InfoLevel ''v1 encryption request'' []) (\<lambda>(resp, kid). \<lparr>v1_Cipher = resp\<rparr>) (Encrypt_prog D ctx plain)"

definition v1_decrypt_prog :: "('c, 't, 'v) deps \<Rightarrow> go_context \<Rightarrow> bytes \<Rightarrow> bool \<Rightarrow>
    (('c client, 'v) world, v1_DecryptResponse outcome) prog" where
  "v1_decrypt_prog D ctx cipher rec =
     measured rec DecryptionErrorsTotal DecryptionOperationDurationSeconds
       (Log InfoLevel ''v1 decryption request'' []) (\<lambda>resp. \<lparr>v1_Plain = resp\<rparr>) (Decrypt_prog D ctx cipher)"

definition v2_encrypt_prog :: "('c, 't, 'v) deps \<Rightarrow> go_context \<Rightarrow> bytes \<Rightarrow> string \<Rightarrow> bool \<Rightarrow>
    (('c client, 'v) world, v2_EncryptResponse outcome) prog" where
  "v2_encrypt_prog D ctx plain requestID rec =
     measured rec EncryptionErrorsTotal EncryptionOperationDurationSeconds
       (Log InfoLevel ''v2 encryption request'' [FString ''request_id'' requestID])
       (\<lambda>(resp, kid). \<lparr>v2_Ciphertext = resp, v2_enc_KeyId = kid\<rparr>) (Encrypt_prog D ctx plain)"

definition v2_decrypt_prog :: "('c, 't, 'v) deps \<Rightarrow> go_context \<Rightarrow> bytes \<Rightarrow> string \<Rightarrow> bool \<Rightarrow>
    (('c client, 'v) world, v2_DecryptResponse outcome) prog" where
  "v2_decrypt_prog D ctx cipher requestID rec =
     measured rec DecryptionErrorsTotal DecryptionOperationDurationSeconds
       (Log InfoLevel ''v2 decryption request'' [FString ''request_id'' requestID])
       (\<lambda>resp. \<lparr>v2_Plaintext = resp\<rparr>) (Decrypt_prog D ctx cipher)"

definition v1_Health_prog :: "('c, 't, 'v) deps \<Rightarrow> go_context \<Rightarrow> (('c client, 'v) world, unit outcome) prog" where
  "v1_Health_prog D ctx =
     bind_ok (v1_encrypt_prog D ctx ''health'' False) (\<lambda>enc.
     bind_ok (v1_decrypt_prog D ctx (v1_Cipher enc) False) (\<lambda>dec.
       if ''health'' \<noteq> v1_Plain dec
       then andthen (tell (Log InfoLevel ''v1 health status failed'' []))
              (Return (Err (ErrNew ''v1 health check failed'')))
       else Return (Ok ())))"

definition v2_Health_prog :: "('c, 't, 'v) deps \<Rightarrow> int \<Rightarrow> go_context \<Rightarrow> (('c client, 'v) world, unit outcome) prog" where
  "v2_Health_prog D now ctx =
     bind_ok (v2_encrypt_prog D ctx ''health'' (show_int now) False) (\<lambda>enc.
     bind_ok (v2_decrypt_prog D ctx (v2_Ciphertext enc) (show_int now) False) (\<lambda>dec.
       if ''health'' \<noteq> v2_Plaintext dec
       then andthen (tell (Log InfoLevel ''v2 health status failed'' []))
              (Return (Err (ErrNew ''v2 health check failed'')))
       else Return (Ok ())))"

definition v2_Status_prog :: "('c, 't, 'v) deps \<Rightarrow> int \<Rightarrow> go_context \<Rightarrow>
    (('c client, 'v) world, v2_StatusResponse outcome) prog" where
  "v2_Status_prog D now ctx =
     bind_ok (GetKeyVersion_prog D ctx) (\<lambda>kv.
       let report = (\<lambda>health. andthen (tell (Log InfoLevel ''health status''
             [FString ''key_id'' kv, FString ''healthz'' health, FString ''version'' ''v2'']))
             (Return (Ok \<lparr>v2_Version = ''v2'', v2_Healthz = health, v2_KeyId = kv\<rparr>)))
       in bind_prog (v2_Health_prog D now ctx) (\<lambda>r. case r of
            Ok u \<Rightarrow> report ''ok''
          | Err e \<Rightarrow> andthen (tell (Log InfoLevel ''v2 health check failed'' [FError e])) (report ''err'')
          | Panic k \<Rightarrow> Return (Panic k)))"

fun kms_prog :: "('c, 't, 'v) deps \<Rightarrow> go_context \<Rightarrow> kms_request \<Rightarrow> (('c client, 'v) world, kms_reply) prog" where
  "kms_prog D ctx (V1EncryptRequest x) = reply_prog V1Encrypted (v1_encrypt_prog D ctx x True)"
| "kms_prog D ctx (V1DecryptRequest c) = reply_prog V1Decrypted (v1_decrypt_prog D ctx c True)"
| "kms_prog D ctx V1HealthProbe = reply_prog Probed (v1_Health_prog D ctx)"
| "kms_prog D ctx (V2EncryptRequest x uid) = reply_prog V2Encrypted (v2_encrypt_prog D ctx x uid True)"
| "kms_prog D ctx (V2DecryptRequest c uid) = reply_prog V2Decrypted (v2_decrypt_prog D ctx c uid True)"
| "kms_prog D ctx (V2HealthProbe now) = reply_prog Probed (v2_Health_prog D now ctx)"
| "kms_prog D ctx (V2StatusRequest now) = reply_prog StatusReport (v2_Status_prog D now ctx)"

lemma exec_measured:
  "exec (measured rec errors durations line f p) w =
     (let observe = emit_if rec (Observe durations []) in
      case exec p w of
        (Err e, w1) \<Rightarrow> (Err e, observe (emit_if rec (CounterInc errors) w1))
      | (Panic k, w1) \<Rightarrow> (Panic k, observe w1)
      | (Ok x, w1) \<Rightarrow> (Ok (f x), observe (emit_if rec line w1)))"
  by (auto simp: measured_def Let_def split: prod.splits outcome.splits)

lemma exec_wrappers [simp]:
  "exec (v1_encrypt_prog D ctx x rec) w = v1_encrypt (NewPluginV1 (vault_plugin D)) ctx x rec w"
  "exec (v1_decrypt_prog D ctx c rec) w = v1_decrypt (NewPluginV1 (vault_plugin D)) ctx c rec w"
  "exec (v2_encrypt_prog D ctx x uid rec) w = v2_encrypt (NewPluginV2 (vault_plugin D)) ctx x uid rec w"
  "exec (v2_decrypt_prog D ctx c uid rec) w = v2_decrypt (NewPluginV2 (vault_plugin D)) ctx c uid rec w"
  by (auto simp: v1_encrypt_prog_def v1_decrypt_prog_def v2_encrypt_prog_def v2_decrypt_prog_def exec_measured
      v1_encrypt_def v1_decrypt_def v2_encrypt_def v2_decrypt_def NewPluginV1_def NewPluginV2_def Let_def
      split: prod.splits outcome.splits)

lemma exec_probes [simp]:
  "exec (v1_Health_prog D ctx) w = v1_Health (NewPluginV1 (vault_plugin D)) ctx w"
  "exec (v2_Health_prog D now ctx) w = v2_Health now (NewPluginV2 (vault_plugin D)) ctx w"
  by (simp_all add: v1_Health_prog_def v1_Health_def v2_Health_prog_def v2_Health_def exec_bind_ok log_info_def
      split: prod.split outcome.split)

lemma exec_Status [simp]: "exec (v2_Status_prog D now ctx) w = v2_Status now (NewPluginV2 (vault_plugin D)) ctx w"
  by (simp add: v2_Status_prog_def v2_Status_def exec_bind_ok NewPluginV2_def Let_def log_info_def
      split: prod.split outcome.split)

lemma exec_kms: "exec (kms_prog D ctx q) w = kms_serve (vault_plugin D) ctx q w"
  by (cases q) (simp_all add: reply_prog_def v1_Encrypt_def v1_Decrypt_def v2_Encrypt_def v2_Decrypt_def
      split: prod.split)

subsection \<open>The health endpoint\<close>

fun HealthZ_prog :: "('c, 't, 'v) deps \<Rightarrow> kms_api list \<Rightarrow> http_request \<Rightarrow> http_reply \<Rightarrow>
    (('c client, 'v) world, unit outcome \<times> http_reply) prog" where
  "HealthZ_prog D [] req rp =
     andthen (tell (Log DebugLevel ''health checks succeeded'' [])) (Return (Ok (), write_body ''OK'' (WriteHeader 200 rp)))"
| "HealthZ_prog D (k # ks) req rp =
     bind_prog (case k of KMSv1_API \<Rightarrow> v1_Health_prog D (Context req) | KMSv2_API now \<Rightarrow> v2_Health_prog D now (Context req))
       (\<lambda>r. case r of
          Ok u \<Rightarrow> HealthZ_prog D ks req rp
        | Err e \<Rightarrow> andthen (tell (Log ErrorLevel ''health check failed'' [FError e]))
            (Return (Ok (), write_body (error_text e) (WriteHeader 500 rp)))
        | Panic k \<Rightarrow> Return (Panic k, rp))"

definition health_prog :: "('c, 't, 'v) deps \<Rightarrow> running \<Rightarrow> int \<Rightarrow> string \<Rightarrow> http_request \<Rightarrow>
    (('c client, 'v) world, unit outcome \<times> http_reply) prog" where
  "health_prog D run now duration req =
     bind_prog (HealthZ_prog D (map (\<lambda>k. case k of KMS1 \<Rightarrow> KMSv1_API | KMS2 \<Rightarrow> KMSv2_API now) (run_checks run)) req empty_reply)
       (\<lambda>(r, rp). case r of
          Ok u \<Rightarrow> andthen (tell (Log DebugLevel ''received request''
              [FString ''method'' (Method req), FString ''path'' (RequestURI req),
               FString ''duration'' duration, FString ''client'' (RemoteAddr req)])) (Return (Ok (), rp))
        | Err e \<Rightarrow> Return (Err e, rp)
        | Panic k \<Rightarrow> Return (Panic k, rp))"

lemma exec_HealthZ:
  "exec (HealthZ_prog D ks req rp) w =
     (case HealthZ (map (\<lambda>k. Some (kms_health vault_plugin k D)) ks) req rp w of (r, rp1, w1) \<Rightarrow> ((r, rp1), w1))"
proof (induction ks arbitrary: rp w)
  case (Cons k ks)
  then show ?case
    by (cases k) (auto simp: log_defs split: prod.splits outcome.splits)
qed (simp add: log_defs)

lemma exec_health:
  "exec (health_prog D run now duration req) w =
     (case health_handler D run now duration req empty_reply w of (r, rp, w1) \<Rightarrow> ((r, rp), w1))"
  by (auto simp: health_prog_def health_handler_def LoggingMiddleware_def exec_HealthZ comp_def log_defs
      split: prod.splits outcome.splits)

end
