(* ===== verification/Plugin_Threads.thy ===== *)
theory Plugin_Threads
  imports Plugin_Programs
begin

text \<open>
  The running plugin as a pool of goroutines: the handlers of gRPC requests, the handlers of the
  health endpoint and the turns of the refresher, interleaved action by action, with changes at Vault
  in between. A state is the pool, in the order its goroutines were started, and the world. Requests
  and probes start at any time; the refresher runs one turn at a time.
\<close>

datatype job =
    ServeRequest go_context kms_request
  | AnswerHealth int string http_request
  | RefreshTick

datatype job_result =
    Replied kms_reply
  | Answered "unit outcome \<times> http_reply"
  | Ticked "unit outcome"

fun job_prog :: "('c, 't, 'v) deps \<Rightarrow> running \<Rightarrow> job \<Rightarrow> (('c client, 'v) world, job_result) prog" where
  "job_prog D run (ServeRequest ctx q) = reply_prog Replied (kms_prog D ctx q)"
| "job_prog D run (AnswerHealth now duration req) = reply_prog Answered (health_prog D run now duration req)"
| "job_prog D run RefreshTick = reply_prog Ticked (lease_tick_prog D)"

text \<open>The same job in one piece, as the handlers of the other theories do it.\<close>

fun job_whole :: "('c, 't, 'v) deps \<Rightarrow> running \<Rightarrow> job \<Rightarrow> ('c client, 'v) world \<Rightarrow>
    job_result \<times> ('c client, 'v) world" where
  "job_whole D run (ServeRequest ctx q) w = map_prod Replied id (kms_serve (vault_plugin D) ctx q w)"
| "job_whole D run (AnswerHealth now duration req) w =
     (case health_handler D run now duration req empty_reply w of (r, rp, w1) \<Rightarrow> (Answered (r, rp), w1))"
| "job_whole D run RefreshTick w = map_prod Ticked id (lease_tick D w)"

lemma exec_job: "exec (job_prog D run j) w = job_whole D run j w"
  by (cases j) (simp_all add: reply_prog_def exec_kms exec_health exec_lease_tick split: prod.split)

text \<open>A panic in a gRPC handler or in the refresher ends the process.\<close>

fun ends_process :: "job_result \<Rightarrow> bool" where
  "ends_process (Replied a) = (reply_crash a \<noteq> None)"
| "ends_process (Answered x) = False"
| "ends_process (Ticked r) = is_Panic r"

fun finished :: "('w, job_result) prog \<Rightarrow> job_result option" where
  "finished (Return r) = Some r"
| "finished (Atom k f) = None"

type_synonym ('c, 'v) pool = "(job \<times> (('c client, 'v) world, job_result) prog) list"

definition alive :: "('c, 'v) pool \<Rightarrow> bool" where
  "alive pool \<longleftrightarrow> list_all (\<lambda>(j, p). case finished p of None \<Rightarrow> True | Some r \<Rightarrow> \<not> ends_process r) pool"

definition ticking :: "('c, 'v) pool \<Rightarrow> bool" where
  "ticking pool \<longleftrightarrow> list_ex (\<lambda>(j, p). j = RefreshTick \<and> finished p = None) pool"

datatype 'v choice = Start job | Step nat | OutsideStep 'v

fun thread_step :: "('c, 't, 'v) deps \<Rightarrow> running \<Rightarrow> ('v \<Rightarrow> 'v \<Rightarrow> bool) \<Rightarrow> 'v choice \<Rightarrow>
    ('c, 'v) pool \<times> ('c client, 'v) world \<Rightarrow> (('c, 'v) pool \<times> ('c client, 'v) world) option" where
  "thread_step D run outside (Start j) (pool, w) =
     (if alive pool \<and> (j = RefreshTick \<longrightarrow> \<not> ticking pool) then Some (pool @ [(j, job_prog D run j)], w) else None)"
| "thread_step D run outside (Step i) (pool, w) =
     (if alive pool \<and> i < length pool then
        (case pool ! i of
           (j, Return r) \<Rightarrow> None
         | (j, Atom k f) \<Rightarrow> Some (pool[i := (j, k w)], f w))
      else None)"
| "thread_step D run outside (OutsideStep v) (pool, w) =
     (if outside (svc w) v then Some (pool, w\<lparr>svc := v\<rparr>) else None)"

inductive threads_run :: "('c, 't, 'v) deps \<Rightarrow> running \<Rightarrow> ('v \<Rightarrow> 'v \<Rightarrow> bool) \<Rightarrow>
    ('c, 'v) pool \<times> ('c client, 'v) world \<Rightarrow> ('c, 'v) pool \<times> ('c client, 'v) world \<Rightarrow> bool"
  for D :: "('c, 't, 'v) deps" and run :: running and outside :: "'v \<Rightarrow> 'v \<Rightarrow> bool" where
  threads_refl: "threads_run D run outside s s"
| threads_step: "threads_run D run outside s t \<Longrightarrow> thread_step D run outside c t = Some u \<Longrightarrow>
    threads_run D run outside s u"

lemma threads_trans:
  "threads_run D run outside t u \<Longrightarrow> threads_run D run outside s t \<Longrightarrow> threads_run D run outside s u"
  by (induction rule: threads_run.induct) (auto intro: threads_step)

text \<open>The jobs stay in their places.\<close>

lemma thread_step_pool:
  "thread_step D run outside c (pool, w) = Some (pool', w') \<Longrightarrow>
     length pool \<le> length pool' \<and> (\<forall>i < length pool. fst (pool' ! i) = fst (pool ! i))"
  by (cases c) (auto simp: nth_append nth_list_update split: if_splits prod.splits prog.splits)

lemma threads_run_pool:
  "threads_run D run outside s t \<Longrightarrow>
     length (fst s) \<le> length (fst t) \<and> (\<forall>i < length (fst s). fst (fst t ! i) = fst (fst s ! i))"
proof (induction rule: threads_run.induct)
  case (threads_step s t c u)
  then show ?case
    using thread_step_pool [of D run outside c "fst t" "snd t" "fst u" "snd u"] by fastforce
qed simp

subsection \<open>Invariants of every schedule\<close>

text \<open>
  If every action keeps to a relation whatever the others do, then every goroutine keeps what it
  would uphold, in every schedule: \<open>P i j\<close> is what the \<open>i\<close>-th goroutine, with the job \<open>j\<close>, owes.
\<close>

definition pool_upholds :: "(('c client, 'v) world \<Rightarrow> ('c client, 'v) world \<Rightarrow> bool) \<Rightarrow>
    (nat \<Rightarrow> job \<Rightarrow> job_result \<Rightarrow> ('c client, 'v) world \<Rightarrow> bool) \<Rightarrow>
    ('c, 'v) pool \<times> ('c client, 'v) world \<Rightarrow> bool" where
  "pool_upholds rel P s \<longleftrightarrow>
     (\<forall>i < length (fst s). upholds rel (snd (fst s ! i)) (P i (fst (fst s ! i))) (snd s))"

lemma thread_step_upholds:
  fixes rel :: "('c client, 'v) world \<Rightarrow> ('c client, 'v) world \<Rightarrow> bool"
  assumes "interference rel" "thread_step D run outside c s = Some s'" "pool_upholds rel P s"
    and "\<And>v. outside (svc (snd s)) v \<Longrightarrow> rel (snd s) ((snd s)\<lparr>svc := v\<rparr>)"
    and "\<And>i j. upholds rel (job_prog D run j) (P i j) (snd s)"
  shows "rel (snd s) (snd s') \<and> pool_upholds rel P s'"
proof (cases s)
  case s: (Pair pool w)
  have up: "i < length pool \<Longrightarrow> upholds rel (snd (pool ! i)) (P i (fst (pool ! i))) w" for i
    using assms(3) s by (simp add: pool_upholds_def)
  note moved = interference.upholds_rel [OF assms(1) up]
  show ?thesis
  proof (cases c)
    case (Start j)
    with assms(2) s have "s' = (pool @ [(j, job_prog D run j)], w)" by (auto split: if_splits)
    with up assms(5) s show ?thesis
      by (auto simp: pool_upholds_def nth_append less_Suc_eq interference.rel_refl [OF assms(1)])
  next
    case (Step i)
    with assms(2) s obtain j k f where i: "i < length pool" "pool ! i = (j, Atom k f)"
      and s': "s' = (pool[i := (j, k w)], f w)"
      by (auto split: if_splits prod.splits prog.splits)
    from up [OF i(1)] i(2) have a: "rel w (f w)" "upholds rel (k w) (P i j) (f w)"
      using interference.upholds_Atom [OF assms(1), of k f "P i j" w] by simp_all
    then show ?thesis
      using s s' i moved by (auto simp: pool_upholds_def nth_list_update)
  next
    case (OutsideStep v)
    with assms(2) s have v: "outside (svc w) v" "s' = (pool, w\<lparr>svc := v\<rparr>)" by (auto split: if_splits)
    with assms(4) s have "rel w (w\<lparr>svc := v\<rparr>)" by simp
    with v s moved show ?thesis by (auto simp: pool_upholds_def)
  qed
qed

lemma threads_run_upholds:
  fixes rel :: "('c client, 'v) world \<Rightarrow> ('c client, 'v) world \<Rightarrow> bool"
  assumes "threads_run D run outside s s'" "interference rel" "pool_upholds rel P s" "ok (snd s)"
    and "\<And>w w'. ok w \<Longrightarrow> rel w w' \<Longrightarrow> ok w'"
    and "\<And>w v. ok w \<Longrightarrow> outside (svc w) v \<Longrightarrow> rel w (w\<lparr>svc := v\<rparr>)"
    and "\<And>i j w. ok w \<Longrightarrow> upholds rel (job_prog D run j) (P i j) w"
  shows "rel (snd s) (snd s') \<and> ok (snd s') \<and> pool_upholds rel P s'"
  using assms(1,3,4)
proof (induction rule: threads_run.induct)
  case (threads_refl s)
  then show ?case by (simp add: interference.rel_refl [OF assms(2)])
next
  case (threads_step s t c u)
  then have t: "rel (snd s) (snd t)" "ok (snd t)" "pool_upholds rel P t" by simp_all
  from thread_step_upholds [OF assms(2) threads_step(2) t(3)] assms(6,7) t(2)
  have "rel (snd t) (snd u)" "pool_upholds rel P u" by simp_all
  with t assms(5) show ?case using interference.rel_trans [OF assms(2)] by blast
qed

end
