(* ===== verification/Thread_Quiet.thy ===== *)
theory Thread_Quiet
  imports Plugin_Threads
begin

text \<open>
  Programs each of whose actions keeps to a relation, whatever the others do: what the locale
  \<open>quiet_actions\<close> asks of the relation is met by the calls, the writes to the client and the log lines,
  so all of the client's programs keep to it; \<open>loud_actions\<close> adds the metrics of the handlers. The
  interpretations are in Thread_Metrics (the operation metrics) and Thread_Files (the files).
\<close>

primrec keeps_to :: "('w \<Rightarrow> 'w \<Rightarrow> bool) \<Rightarrow> ('w, 'r) prog \<Rightarrow> bool" where
  "keeps_to R (Return r) \<longleftrightarrow> True"
| "keeps_to R (Atom k f) \<longleftrightarrow> (\<forall>w. R w (f w) \<and> keeps_to R (k w))"

lemma keeps_bind: "keeps_to R p \<Longrightarrow> (\<And>r. keeps_to R (g r)) \<Longrightarrow> keeps_to R (bind_prog p g)"
  by (induction p) simp_all

lemma keeps_act: "(\<And>w r w'. f w = (r, w') \<Longrightarrow> R w w') \<Longrightarrow> keeps_to R (act f)"
  by (simp add: act_def) (metis prod.collapse)

lemma keeps_bind_ok: "keeps_to R p \<Longrightarrow> (\<And>r. keeps_to R (g r)) \<Longrightarrow> keeps_to R (bind_ok p g)"
  unfolding bind_ok_def by (rule keeps_bind) (auto split: outcome.split)

lemma keeps_andthen: "keeps_to R p \<Longrightarrow> keeps_to R q \<Longrightarrow> keeps_to R (andthen p q)"
  unfolding andthen_def by (rule keeps_bind)

lemma keeps_reply: "keeps_to R p \<Longrightarrow> keeps_to R (reply_prog f p)"
  unfolding reply_prog_def by (rule keeps_bind) simp_all

lemmas keeps_rules = keeps_bind keeps_bind_ok keeps_andthen keeps_reply

text \<open>The lines of the log and the two collectors of the refresher.\<close>

locale quiet_actions =
  fixes D :: "('c, 't, 'v) deps" and R :: "('c client, 'v) world \<Rightarrow> ('c client, 'v) world \<Rightarrow> bool"
  assumes R_svc: "svc_only w w' \<Longrightarrow> R w w'"
    and R_heap: "R w (w\<lparr>heap := h\<rparr>)"
    and R_lease: "lease_event e \<Longrightarrow> R w (emit e w)"
    and R_source: "source_Token D src ctx w = (x, w') \<Longrightarrow> R w w'"
    and R_tls: "on_os (ConfigureTLS D cfg tls) w = (y, w') \<Longrightarrow> R w w'"
begin

lemma quiet_tell: "lease_event e \<Longrightarrow> keeps_to R (tell e)"
  unfolding tell_def by (rule keeps_act) (auto intro: R_lease)

lemma quiet_modify: "keeps_to R (modify g)"
  unfolding modify_def by (rule keeps_act) (auto intro: R_heap)

lemma R_refl: "R w w"
  using R_heap [of w "heap w"] by simp

lemma quiet_read: "keeps_to R (act (\<lambda>w. (f w, w)))"
  by (rule keeps_act) (auto intro: R_refl)

lemma quiet_svc: "(\<And>w r w'. f w = (r, w') \<Longrightarrow> svc_only w w') \<Longrightarrow> keeps_to R (act f)"
  by (rule keeps_act) (blast intro: R_svc)

lemma quiet_call: "keeps_to R (act (\<lambda>w. on_svc (f w) w))" "keeps_to R (act (on_svc g))"
  by (auto intro!: quiet_svc dest: svc_only_on_svc)

lemma quiet_source: "keeps_to R (act (source_Token D src ctx))"
  by (rule keeps_act) (rule R_source)

lemma quiet_tls: "keeps_to R (act (\<lambda>w. on_os (ConfigureTLS D (cfg w) tls) w))"
  by (rule keeps_act) (rule R_tls)

lemma quiet_lines: "keeps_to R (info_line m fs)" "keeps_to R (error_line m fs)"
  unfolding info_line_def error_line_def by (auto intro!: keeps_andthen quiet_tell)

lemma quiet_transit:
  "keeps_to R (GetKeyVersion_prog D ctx)" "keeps_to R (Decrypt_prog D ctx ct)" "keeps_to R (Encrypt_prog D ctx x)"
proof -
  show "keeps_to R (GetKeyVersion_prog D ctx)" "keeps_to R (Decrypt_prog D ctx ct)"
    unfolding GetKeyVersion_prog_def Decrypt_prog_def
    by (auto intro: quiet_svc GetKeyVersion_svc_only Decrypt_svc_only)
  then show "keeps_to R (Encrypt_prog D ctx x)"
    unfolding Encrypt_prog_def by (auto intro!: keeps_bind_ok intro: quiet_svc encrypt_write_svc_only)
qed

lemmas quiet_rules = keeps_rules quiet_tell quiet_modify quiet_lines quiet_call quiet_source quiet_tls quiet_read

lemma quiet_adopt: "keeps_to R (adopt_token D m t)"
  unfolding adopt_token_def by (auto intro!: quiet_rules)

lemma quiet_use_login: "keeps_to R (use_login_prog D what m x)"
  by (auto simp: use_login_prog_def intro: quiet_adopt split: sum.split option.split)

lemma quiet_jwt: "keeps_to R (jwt_login_prog D src mount role)"
  unfolding jwt_login_prog_def login_write_def
  by (auto intro!: quiet_rules quiet_adopt split: sum.split option.split)

lemma quiet_cert: "keeps_to R (cert_login_prog D mount role cf kf ca)"
  unfolding cert_login_prog_def by (auto intro!: quiet_rules quiet_use_login split: sum.split)

lemma quiet_option: "keeps_to R (option_prog D m)"
proof (cases "logs_in m")
  case True
  then show ?thesis
    by (cases m) (auto simp: login_write_def intro!: quiet_rules quiet_use_login quiet_jwt quiet_cert split: sum.split)
next
  case False
  then show ?thesis
    by (cases m) (auto intro!: keeps_act R_heap split: prod.splits option.splits)
qed

lemma quiet_AuthMethod: "keeps_to R (AuthMethod_prog D)"
  unfolding AuthMethod_prog_def by (auto intro!: quiet_rules quiet_option split: option.split)

lemma quiet_LookupSelf: "keeps_to R (LookupSelf_prog D)"
  unfolding LookupSelf_prog_def by (rule quiet_call)

lemma quiet_log_result: "keeps_to R p \<Longrightarrow> keeps_to R (log_result m p)"
  unfolding log_result_def by (auto intro!: quiet_rules split: outcome.split)

lemma quiet_lookup_failed: "keeps_to R (lookup_failed_prog D e)"
  unfolding lookup_failed_prog_def authenticateAndVerify_prog_def
  by (auto intro!: quiet_rules quiet_log_result quiet_AuthMethod quiet_LookupSelf)

lemma quiet_check_ttl: "keeps_to R (check_ttl_prog D a b)"
  unfolding check_ttl_prog_def renew_token_prog_def
  by (auto intro!: quiet_rules quiet_log_result quiet_AuthMethod split: sum.split)

lemma quiet_tick: "keeps_to R (lease_tick_prog D)"
  unfolding lease_tick_prog_def
  by (auto intro!: quiet_rules quiet_LookupSelf quiet_lookup_failed quiet_check_ttl split: sum.split option.split)

text \<open>A measured operation that is not recorded.\<close>

lemma quiet_unmeasured: "keeps_to R p \<Longrightarrow> keeps_to R (measured False errors durations line f p)"
  unfolding measured_def by (auto intro!: quiet_rules simp: tell_if_def Let_def split: outcome.split)

lemma quiet_wrappers:
  "keeps_to R (v1_encrypt_prog D ctx x False)" "keeps_to R (v1_decrypt_prog D ctx ct False)"
  "keeps_to R (v2_encrypt_prog D ctx x uid False)" "keeps_to R (v2_decrypt_prog D ctx ct uid False)"
  unfolding v1_encrypt_prog_def v1_decrypt_prog_def v2_encrypt_prog_def v2_decrypt_prog_def
  by (auto intro: quiet_unmeasured quiet_transit)

lemma quiet_probes: "keeps_to R (v1_Health_prog D ctx)" "keeps_to R (v2_Health_prog D now ctx)"
  unfolding v1_Health_prog_def v2_Health_prog_def by (auto intro!: quiet_rules quiet_wrappers)

lemma quiet_Status: "keeps_to R (v2_Status_prog D now ctx)"
  unfolding v2_Status_prog_def Let_def
  by (auto intro!: quiet_rules quiet_transit quiet_probes split: outcome.split)

lemma quiet_HealthZ: "keeps_to R (HealthZ_prog D ks req rp)"
proof (induction ks)
  case (Cons k ks)
  then show ?case by (cases k) (auto intro!: quiet_rules quiet_probes split: outcome.split)
qed (auto intro!: quiet_rules)

lemma quiet_health: "keeps_to R (health_prog D run now duration req)"
  unfolding health_prog_def by (auto intro!: quiet_rules quiet_HealthZ split: outcome.split prod.split)

end

text \<open>With the metrics of the requests as well.\<close>

locale loud_actions = quiet_actions +
  assumes R_emit: "R w (emit e w)"
begin

lemma loud_tell_if: "keeps_to R (tell_if b e)"
  unfolding tell_if_def tell_def by (auto intro!: keeps_act R_emit)

lemma loud_measured: "keeps_to R p \<Longrightarrow> keeps_to R (measured rec errors durations line f p)"
  unfolding measured_def by (auto intro!: keeps_rules loud_tell_if simp: Let_def split: outcome.split)

lemma loud_wrappers:
  "keeps_to R (v1_encrypt_prog D ctx x rec)" "keeps_to R (v1_decrypt_prog D ctx ct rec)"
  "keeps_to R (v2_encrypt_prog D ctx x uid rec)" "keeps_to R (v2_decrypt_prog D ctx ct uid rec)"
  unfolding v1_encrypt_prog_def v1_decrypt_prog_def v2_encrypt_prog_def v2_decrypt_prog_def
  by (auto intro: loud_measured quiet_transit)

lemma loud_job: "keeps_to R (job_prog D run j)"
proof (cases j)
  case (ServeRequest ctx q)
  then show ?thesis by (cases q) (auto intro!: keeps_reply loud_wrappers quiet_probes quiet_Status)
qed (auto intro!: keeps_reply quiet_health quiet_tick)

end

subsection \<open>Pools\<close>

text \<open>A pool whose programs keep to a relation keeps to it.\<close>

definition pool_keeps :: "(('c client, 'v) world \<Rightarrow> ('c client, 'v) world \<Rightarrow> bool) \<Rightarrow> ('c, 'v) pool \<Rightarrow> bool" where
  "pool_keeps R pool \<longleftrightarrow> (\<forall>i < length pool. keeps_to R (snd (pool ! i)))"

lemma thread_step_keeps:
  assumes "thread_step D run outside c (pool, w) = Some (pool', w')" "pool_keeps R pool"
    and "\<And>j. keeps_to R (job_prog D run j)" "\<And>w. R w w" "\<And>w v. R w (w\<lparr>svc := v\<rparr>)"
  shows "pool_keeps R pool' \<and> R w w'"
proof (cases c)
  case (Step i)
  with assms(1) obtain j k f where i: "i < length pool" "pool ! i = (j, Atom k f)"
    and s': "pool' = pool[i := (j, k w)]" "w' = f w"
    by (auto split: if_splits prod.splits prog.splits)
  from assms(2) i have "keeps_to R (Atom k f)" by (auto simp: pool_keeps_def dest: spec [of _ i])
  with assms(2) s' i(1) show ?thesis by (auto simp: pool_keeps_def nth_list_update)
qed (use assms in \<open>auto simp: pool_keeps_def nth_append less_Suc_eq split: if_splits\<close>)

end
