(* ===== verification/Thread_Files.thy ===== *)
theory Thread_Files
  imports Thread_Quiet Plugin_Lifecycle
begin

text \<open>No goroutine changes a file: the logins of the refresher read files only.\<close>

interpretation thread_files: loud_actions D "\<lambda>w w'. reads_only D \<longrightarrow> same_files w w'"
  for D :: "('c, 't, 'v) deps"
proof unfold_locales
  fix w w' :: "('c client, 'v) world" assume "svc_only w w'"
  then show "reads_only D \<longrightarrow> same_files w w'" using svc_only_fields [of w w'] by (simp add: same_files_def)
qed (auto simp: same_files_def dest: same_files_tls source_files [unfolded same_files_def] same_files_tls [unfolded same_files_def])

lemma job_files: "reads_only D \<Longrightarrow> keeps_to same_files (job_prog D run j)"
  using thread_files.loud_job [of D run j] by simp

lemma thread_step_files:
  "thread_step D run outside c (pool, w) = Some (pool', w') \<Longrightarrow> reads_only D \<Longrightarrow> pool_keeps same_files pool \<Longrightarrow>
     pool_keeps same_files pool' \<and> same_files w w'"
  by (erule thread_step_keeps) (simp_all add: job_files, simp add: same_files_def)

end
