(* ===== verification/Thread_Metrics.thy ===== *)
theory Thread_Metrics
  imports Thread_Quiet
begin

text \<open>
  The operation metrics in every schedule: each request pays for itself, probes and the refresher pay
  nothing, so once all goroutines have ended the metrics count the requests, whatever Vault answered.
\<close>

abbreviation pays_zero :: "(('h, 'v) world, 'r) prog \<Rightarrow> bool" where
  "pays_zero p \<equiv> pays p (\<lambda>r c. c = (0, 0, 0, 0)) (0, 0, 0, 0)"

text \<open>The operation metrics do not see the actions of the client, the probes and the refresher.\<close>

interpretation metrics_quiet: quiet_actions D "\<lambda>w w'. op_meter (events w') = op_meter (events w)"
  for D :: "('c, 't, 'v) deps"
proof unfold_locales
  fix e and w :: "('c client, 'v) world" assume "lease_event e"
  then show "op_meter (events (emit e w)) = op_meter (events w)" by (cases e) (auto simp: op_meter_def)
next
  fix src ctx x and w w' :: "('c client, 'v) world" assume "source_Token D src ctx w = (x, w')"
  then show "op_meter (events w') = op_meter (events w)" by (metis any_source.token_frame)
qed (auto dest: svc_only_fields simp: on_os_def split: prod.splits)

lemma keeps_pays: "keeps_to (\<lambda>w w'. op_meter (events w') = op_meter (events w)) p \<Longrightarrow> pays_zero p"
proof (induction p)
  case (Atom k f)
  show ?case
    unfolding pays.simps
  proof (intro allI exI conjI)
    fix w
    show "op_meter (events (f w)) = add4 (op_meter (events w)) (0, 0, 0, 0)" using Atom.prems by simp
    show "pays (k w) (\<lambda>r c. c = (0, 0, 0, 0)) (add4 (0, 0, 0, 0) (0, 0, 0, 0))" using Atom by simp
  qed
qed simp

lemmas zero_transit = metrics_quiet.quiet_transit [THEN keeps_pays]
lemmas zero_tick = metrics_quiet.quiet_tick [THEN keeps_pays]
lemmas zero_probes = metrics_quiet.quiet_probes [THEN keeps_pays]
lemmas zero_Status = metrics_quiet.quiet_Status [THEN keeps_pays]
lemmas zero_health = metrics_quiet.quiet_health [THEN keeps_pays]

subsection \<open>Requests\<close>

lemma pays_measured:
  assumes "pays_zero p" "op_meter [line] = (0, 0, 0, 0)"
  shows "pays (measured rec errors durations line f p)
    (\<lambda>r c. c = (if \<not> rec then (0, 0, 0, 0)
        else if is_Err r then add4 (op_meter [CounterInc errors]) (op_meter [Observe durations []])
        else op_meter [Observe durations []])) (0, 0, 0, 0)"
  unfolding measured_def Let_def
  by (rule pays_bind, rule pays_mono [OF assms(1)])
    (auto intro!: pays_andthen pays_tell_if simp: assms(2) split: outcome.split)

lemma pays_wrappers:
  "pays (v1_encrypt_prog D ctx x rec) (\<lambda>r c. c = (if rec then charge (V1Encrypted r) else (0, 0, 0, 0))) (0, 0, 0, 0)"
  "pays (v1_decrypt_prog D ctx ct rec) (\<lambda>r c. c = (if rec then charge (V1Decrypted r) else (0, 0, 0, 0))) (0, 0, 0, 0)"
  "pays (v2_encrypt_prog D ctx x uid rec) (\<lambda>r c. c = (if rec then charge (V2Encrypted r) else (0, 0, 0, 0))) (0, 0, 0, 0)"
  "pays (v2_decrypt_prog D ctx ct uid rec) (\<lambda>r c. c = (if rec then charge (V2Decrypted r) else (0, 0, 0, 0))) (0, 0, 0, 0)"
  unfolding v1_encrypt_prog_def v1_decrypt_prog_def v2_encrypt_prog_def v2_decrypt_prog_def
  by (rule pays_mono [OF pays_measured [OF zero_transit(3)]]
      pays_mono [OF pays_measured [OF zero_transit(2)]]; simp add: op_meter_def)+

lemma pays_kms: "pays (kms_prog D ctx q) (\<lambda>a c. c = charge a) (0, 0, 0, 0)"
  using pays_wrappers [where rec = True] zero_probes zero_Status
  by (cases q) (simp_all add: pays_reply)

fun job_charge :: "job_result \<Rightarrow> nat \<times> nat \<times> nat \<times> nat" where
  "job_charge (Replied a) = charge a"
| "job_charge (Answered x) = (0, 0, 0, 0)"
| "job_charge (Ticked r) = (0, 0, 0, 0)"

text \<open>The result a job can have.\<close>

fun fits :: "job \<Rightarrow> job_result \<Rightarrow> bool" where
  "fits (ServeRequest ctx q) r \<longleftrightarrow> (\<exists>a. r = Replied a)"
| "fits (AnswerHealth now duration req) r \<longleftrightarrow> (\<exists>x. r = Answered x)"
| "fits RefreshTick r \<longleftrightarrow> (\<exists>x. r = Ticked x)"

lemma pays_job: "pays (job_prog D run j) (\<lambda>r c. c = job_charge r \<and> fits j r) (0, 0, 0, 0)"
  using pays_kms zero_health zero_tick by (cases j) (simp_all add: pays_reply)

subsection \<open>Schedules\<close>

fun total :: "(nat \<times> nat \<times> nat \<times> nat) list \<Rightarrow> nat \<times> nat \<times> nat \<times> nat" where
  "total [] = (0, 0, 0, 0)"
| "total (c # cs) = add4 c (total cs)"

lemma add4_commute: "add4 x y = add4 y x"
  by (cases x, cases y) simp

lemma add4_left_commute: "add4 x (add4 y z) = add4 y (add4 x z)"
  by (cases x, cases y, cases z) simp

lemma total_append: "total (cs @ ds) = add4 (total cs) (total ds)"
  by (induction cs) (simp_all add: add4_assoc)

lemma total_update: "i < length cs \<Longrightarrow> total (cs[i := add4 (cs ! i) d]) = add4 (total cs) d"
proof (induction cs arbitrary: i)
  case (Cons c cs)
  then show ?case by (cases i) (simp_all add: add4_assoc add4_commute add4_left_commute)
qed simp

text \<open>\<open>cs\<close>: what each goroutine has paid so far.\<close>

definition accounts :: "nat \<times> nat \<times> nat \<times> nat \<Rightarrow> (nat \<times> nat \<times> nat \<times> nat) list \<Rightarrow>
    ('c, 'v) pool \<times> ('c client, 'v) world \<Rightarrow> bool" where
  "accounts base cs s \<longleftrightarrow> length cs = length (fst s) \<and> op_meter (events (snd s)) = add4 base (total cs)
     \<and> (\<forall>i < length (fst s). pays (snd (fst s ! i)) (\<lambda>r c. c = job_charge r \<and> fits (fst (fst s ! i)) r) (cs ! i))"

lemma thread_step_accounts:
  assumes "thread_step D run outside c s = Some s'" "accounts base cs s"
  shows "\<exists>cs'. accounts base cs' s'"
proof (cases s)
  case s: (Pair pool w)
  show ?thesis
  proof (cases c)
    case (Start j)
    with assms(1) s have "s' = (pool @ [(j, job_prog D run j)], w)" by (auto split: if_splits)
    with assms(2) s have "accounts base (cs @ [(0, 0, 0, 0)]) s'"
      by (auto simp: accounts_def total_append nth_append less_Suc_eq pays_job)
    then show ?thesis ..
  next
    case (Step i)
    with assms(1) s obtain j k f where i: "i < length pool" "pool ! i = (j, Atom k f)"
      and s': "s' = (pool[i := (j, k w)], f w)"
      by (auto split: if_splits prod.splits prog.splits)
    from assms(2) s i have "pays (Atom k f) (\<lambda>r c. c = job_charge r \<and> fits j r) (cs ! i)"
      by (auto simp: accounts_def dest: spec [of _ i])
    then obtain d where d: "op_meter (events (f w)) = add4 (op_meter (events w)) d"
      "pays (k w) (\<lambda>r c. c = job_charge r \<and> fits j r) (add4 (cs ! i) d)"
      by (meson pays.simps(2))
    with assms(2) s s' i have "accounts base (cs[i := add4 (cs ! i) d]) s'"
      by (auto simp: accounts_def total_update add4_assoc nth_list_update)
    then show ?thesis ..
  next
    case (OutsideStep v)
    with assms s have "accounts base cs s'" by (auto simp: accounts_def split: if_splits)
    then show ?thesis ..
  qed
qed

lemma threads_run_accounts:
  "threads_run D run outside s s' \<Longrightarrow> accounts base cs s \<Longrightarrow> \<exists>cs'. accounts base cs' s'"
  by (induction arbitrary: cs rule: threads_run.induct) (blast intro: thread_step_accounts)+

text \<open>The results of a pool whose goroutines have all ended.\<close>

fun results :: "('c, 'v) pool \<Rightarrow> job_result list option" where
  "results [] = Some []"
| "results ((j, p) # pool) =
     (case (finished p, results pool) of (Some r, Some rs) \<Rightarrow> Some (r # rs) | _ \<Rightarrow> None)"

lemma accounts_settled:
  "results pool = Some rs \<Longrightarrow> length cs = length pool \<Longrightarrow>
     (\<forall>i < length pool. pays (snd (pool ! i)) (\<lambda>r c. c = job_charge r \<and> fits (fst (pool ! i)) r) (cs ! i)) \<Longrightarrow> cs = map job_charge rs"
proof (induction pool arbitrary: rs cs rule: results.induct)
  case (2 j p pool)
  then obtain r rs' where r: "finished p = Some r" "results pool = Some rs'" "rs = r # rs'"
    by (auto split: option.splits)
  from 2(3) obtain c cs' where cs: "cs = c # cs'" "length cs' = length pool" by (cases cs) auto
  have "p = Return r" using r(1) by (cases p) auto
  with 2(4) cs have "c = job_charge r" by auto
  moreover have "cs' = map job_charge rs'"
    using 2(1) [OF r(2) cs(2)] 2(4) cs by force
  ultimately show ?case using cs r by simp
qed simp

text \<open>The answers to the requests, once all of them have ended.\<close>

fun answered :: "('c, 'v) pool \<Rightarrow> kms_reply list option" where
  "answered [] = Some []"
| "answered ((j, p) # pool) =
     (case j of
        ServeRequest ctx q \<Rightarrow>
          (case (finished p, answered pool) of (Some (Replied a), Some as) \<Rightarrow> Some (a # as) | _ \<Rightarrow> None)
      | _ \<Rightarrow> answered pool)"

lemma pays_nothing: "pays p (\<lambda>r c. c = (0, 0, 0, 0)) c \<Longrightarrow> c = (0, 0, 0, 0)"
proof (induction p arbitrary: c)
  case (Atom k f)
  fix w :: "('a, 'b) world"
  from Atom.prems obtain d where "pays (k w) (\<lambda>r c. c = (0, 0, 0, 0)) (add4 c d)" by (meson pays.simps(2))
  with Atom.IH have "add4 c d = (0, 0, 0, 0)" by blast
  then show ?case by (cases c, cases d) simp
qed simp

lemma accounts_answered:
  "length cs = length pool \<Longrightarrow>
     (\<forall>i < length pool. pays (snd (pool ! i)) (\<lambda>r c. c = job_charge r \<and> fits (fst (pool ! i)) r) (cs ! i)) \<Longrightarrow>
     (\<forall>i < length pool. \<forall>ctx q. fst (pool ! i) = ServeRequest ctx q \<longrightarrow> finished (snd (pool ! i)) \<noteq> None) \<Longrightarrow>
     \<exists>as. answered pool = Some as \<and> total cs = charges as"
proof (induction pool arbitrary: cs)
  case (Cons x pool)
  obtain j p where x: "x = (j, p)" by fastforce
  from Cons(2) obtain c cs' where cs: "cs = c # cs'" "length cs' = length pool" by (cases cs) auto
  have p: "pays p (\<lambda>r c. c = job_charge r \<and> fits j r) c" using Cons(3) cs x by force
  have tl: "\<forall>i < length pool. pays (snd (pool ! i)) (\<lambda>r c. c = job_charge r \<and> fits (fst (pool ! i)) r) (cs' ! i)"
    "\<forall>i < length pool. \<forall>ctx q. fst (pool ! i) = ServeRequest ctx q \<longrightarrow> finished (snd (pool ! i)) \<noteq> None"
    using Cons(3,4) cs by force+
  obtain as where as: "answered pool = Some as" "total cs' = charges as"
    using Cons(1) [OF cs(2) tl] by blast
  show ?case
  proof (cases "\<exists>ctx q. j = ServeRequest ctx q")
    case True
    then obtain r where "p = Return r" using Cons(4) x by (cases p) force+
    with True p obtain a where "p = Return (Replied a)" "c = charge a" by auto
    with True as cs x show ?thesis by auto
  next
    case False
    have "pays p (\<lambda>r c. c = (0, 0, 0, 0)) c"
      by (rule pays_mono [OF p]) (use False in \<open>cases j; auto\<close>)
    from pays_nothing [OF this] False as cs x show ?thesis by (cases j) auto
  qed
qed simp

end
