(* ===== verification/Thread_Coarse.thy ===== *)
theory Thread_Coarse
  imports Thread_Metrics
begin

text \<open>
  The step relation of Plugin_System, whose steps are whole requests, is one way to schedule the
  goroutines: each is started and run to its end before the next.
\<close>

text \<open>No goroutine but the \<open>i\<close>-th has ended with a panic that ends the process.\<close>

definition others_alive :: "nat \<Rightarrow> ('c, 'v) pool \<Rightarrow> bool" where
  "others_alive i pool \<longleftrightarrow> (\<forall>l < length pool. l \<noteq> i \<longrightarrow> (\<forall>r. snd (pool ! l) = Return r \<longrightarrow> \<not> ends_process r))"

lemma finished_Return: "(case finished p of None \<Rightarrow> True | Some r \<Rightarrow> \<not> ends_process r) \<longleftrightarrow> (\<forall>r. p = Return r \<longrightarrow> \<not> ends_process r)"
  by (cases p) simp_all

lemma alive_nth: "alive pool \<longleftrightarrow> (\<forall>l < length pool. \<forall>r. snd (pool ! l) = Return r \<longrightarrow> \<not> ends_process r)"
  by (simp add: alive_def list_all_length case_prod_beta finished_Return)

lemma run_alone:
  "others_alive i pool \<Longrightarrow> i < length pool \<Longrightarrow> pool ! i = (j, p) \<Longrightarrow> exec p w = (r, w') \<Longrightarrow>
     threads_run D run outside (pool, w) (pool[i := (j, Return r)], w')"
proof (induction p arbitrary: pool w)
  case (Return x)
  then have "pool[i := (j, Return r)] = pool" "w' = w" by (metis list_update_id exec.simps(1) fst_conv, simp)
  then show ?case by (simp add: threads_refl)
next
  case (Atom k f)
  have "alive pool"
    unfolding alive_nth
  proof (intro allI impI)
    fix l r assume "l < length pool" "snd (pool ! l) = Return r"
    with Atom.prems(1,3) show "\<not> ends_process r" by (cases "l = i") (auto simp: others_alive_def)
  qed
  with Atom.prems have s: "thread_step D run outside (Step i) (pool, w) = Some (pool[i := (j, k w)], f w)" by simp
  have "threads_run D run outside (pool[i := (j, k w)], f w) ((pool[i := (j, k w)])[i := (j, Return r)], w')"
    by (rule Atom.IH [of "k w"]) (use Atom.prems in \<open>auto simp: others_alive_def\<close>)
  then have "threads_run D run outside (pool[i := (j, k w)], f w) (pool[i := (j, Return r)], w')" by simp
  from threads_trans [OF this threads_step [OF threads_refl s]] show ?case .
qed

text \<open>One more job, run whole while the others wait.\<close>

lemma run_job:
  assumes "alive pool" "j = RefreshTick \<longrightarrow> \<not> ticking pool" "job_whole D run j w = (r, w')"
  shows "threads_run D run outside (pool, w) (pool @ [(j, Return r)], w')"
proof -
  have s: "thread_step D run outside (Start j) (pool, w) = Some (pool @ [(j, job_prog D run j)], w)"
    using assms(1,2) by simp
  have o: "others_alive (length pool) (pool @ [(j, job_prog D run j)])"
    using assms(1) by (auto simp: others_alive_def alive_nth nth_append less_Suc_eq)
  have "threads_run D run outside (pool @ [(j, job_prog D run j)], w)
      ((pool @ [(j, job_prog D run j)])[length pool := (j, Return r)], w')"
    by (rule run_alone [OF o, where p = "job_prog D run j"]) (simp_all add: exec_job assms(3))
  then have "threads_run D run outside (pool @ [(j, job_prog D run j)], w) (pool @ [(j, Return r)], w')" by simp
  from threads_trans [OF this threads_step [OF threads_refl s]] show ?thesis .
qed

fun replies :: "job_result list \<Rightarrow> kms_reply list" where
  "replies [] = []"
| "replies (Replied a # rs) = a # replies rs"
| "replies (r # rs) = replies rs"

lemma replies_append: "replies (rs @ [r]) = replies rs @ (case r of Replied a \<Rightarrow> [a] | _ \<Rightarrow> [])"
  by (induction rs rule: replies.induct) (auto split: job_result.splits)

lemma results_append:
  "results pool = Some rs \<Longrightarrow> results (pool @ [(j, Return r)]) = Some (rs @ [r])"
proof (induction pool arbitrary: rs rule: results.induct)
  case (2 j' p pool)
  then show ?case by (auto split: option.splits)
qed simp

lemma results_ended: "results pool = Some rs \<Longrightarrow> l < length pool \<Longrightarrow> \<exists>r. snd (pool ! l) = Return r \<and> r \<in> set rs"
proof (induction pool arbitrary: rs l rule: results.induct)
  case (2 j p pool)
  then obtain r rs' where r: "p = Return r" "results pool = Some rs'" "rs = r # rs'"
    by (cases p) (auto split: option.splits)
  with 2 show ?case by (cases l) auto
qed simp

lemma results_idle:
  assumes "results pool = Some rs" "list_all (\<lambda>r. \<not> ends_process r) rs"
  shows "alive pool" "\<not> ticking pool"
proof -
  have ended: "\<exists>r. snd (pool ! l) = Return r \<and> \<not> ends_process r" if "l < length pool" for l
    using results_ended [OF assms(1) that] assms(2) by (auto simp: list_all_iff)
  then show "alive pool" by (fastforce simp: alive_nth)
  show "\<not> ticking pool"
    unfolding ticking_def list_ex_length using ended by (auto split: prod.split) fastforce
qed

text \<open>What the health handler does to the world does not depend on the response it writes to.\<close>

lemma HealthZ_world:
  "fst (HealthZ ps req rp w) = fst (HealthZ ps req rp' w)
   \<and> snd (snd (HealthZ ps req rp w)) = snd (snd (HealthZ ps req rp' w))"
proof (induction ps arbitrary: w)
  case (Cons p ps)
  then show ?case by (cases p) (auto split: prod.splits outcome.splits)
qed simp

lemma health_handler_world:
  "snd (snd (health_handler D run now d req rp w)) = snd (snd (health_handler D run now d req rp' w))"
  using HealthZ_world [of _ req rp w rp']
  unfolding health_handler_def LoggingMiddleware_def
  by (auto split: prod.splits outcome.splits) (metis fst_conv snd_conv outcome.distinct outcome.inject)+

lemma sys_run_scheduled:
  "sys_run D run outside w as w' \<Longrightarrow> \<exists>pool rs. threads_run D run outside ([], w) (pool, w')
     \<and> results pool = Some rs \<and> list_all (\<lambda>r. \<not> ends_process r) rs \<and> replies rs = as"
proof (induction rule: sys_run.induct)
  case (sys_done w)
  then show ?case by (auto intro!: exI [of _ "[]"] threads_refl)
next
  case (sys_serve w as w1 ctx q a w2)
  then obtain pool rs where r: "threads_run D run outside ([], w) (pool, w1)" "results pool = Some rs"
    "list_all (\<lambda>r. \<not> ends_process r) rs" "replies rs = as" by blast
  have "threads_run D run outside (pool, w1) (pool @ [(ServeRequest ctx q, Return (Replied a))], w2)"
    by (rule run_job) (simp_all add: results_idle [OF r(2,3)] sys_serve)
  from threads_trans [OF this r(1)] results_append [OF r(2)] r(3,4) sys_serve(3) show ?case
    by (fastforce simp: replies_append)
next
  case (sys_probe w as w1 now d req rp r rp' w2)
  then obtain pool rs where r: "threads_run D run outside ([], w) (pool, w1)" "results pool = Some rs"
    "list_all (\<lambda>r. \<not> ends_process r) rs" "replies rs = as" by blast
  obtain x y where h: "health_handler D run now d req empty_reply w1 = (x, y, w2)"
    using health_handler_world [of D run now d req rp w1 empty_reply] sys_probe(2) by (metis prod.collapse snd_conv)
  have "threads_run D run outside (pool, w1) (pool @ [(AnswerHealth now d req, Return (Answered (x, y)))], w2)"
    by (rule run_job) (simp_all add: results_idle [OF r(2,3)] h)
  from threads_trans [OF this r(1)] results_append [OF r(2)] r(3,4) show ?case
    by (fastforce simp: replies_append)
next
  case (sys_refresh w as w1 w2)
  then obtain pool rs where r: "threads_run D run outside ([], w) (pool, w1)" "results pool = Some rs"
    "list_all (\<lambda>r. \<not> ends_process r) rs" "replies rs = as" by blast
  have "threads_run D run outside (pool, w1) (pool @ [(RefreshTick, Return (Ticked (Ok ())))], w2)"
    by (rule run_job) (simp_all add: results_idle [OF r(2,3)] sys_refresh)
  from threads_trans [OF this r(1)] results_append [OF r(2)] r(3,4) show ?case
    by (fastforce simp: replies_append)
next
  case (sys_outside w as w1 v)
  then obtain pool rs where r: "threads_run D run outside ([], w) (pool, w1)" "results pool = Some rs"
    "list_all (\<lambda>r. \<not> ends_process r) rs" "replies rs = as" by blast
  have "thread_step D run outside (OutsideStep v) (pool, w1) = Some (pool, w1\<lparr>svc := v\<rparr>)"
    using sys_outside by simp
  from threads_step [OF r(1) this] r(2-4) show ?case by blast
qed

end
