(* ===== verification/Plugin_Stopping.thy ===== *)
theory Plugin_Stopping
  imports Thread_Files Thread_Coarse Plugin_Process "HOL-Library.Multiset"
begin

text \<open>
  How the running process ends, with its goroutines: \<open>cmd/plugin.go\<close> from the start of the refresher to
  the return of \<open>NewPlugin\<close>, as a machine over the pool of Plugin_Threads. On a signal the main goroutine
  first shuts the HTTP server down (new connections are refused, the pending probes may end; after
  \<open>shutdownTimeout\<close> it gives up and returns the error), then stops the gRPC server gracefully (new
  requests are refused, the pending ones are waited for, without a limit), and returns. What the two
  servers do then is their documented behaviour, stated by the guards of \<open>HTTPShutdown\<close> and
  \<open>GracefulStop\<close>. The refresher is told through the context but not waited for.
\<close>

subsection \<open>Signals\<close>

datatype go_signal = SIGTERM | SIGINT | OtherSignal string

fun signal_String :: "go_signal \<Rightarrow> string" where
  "signal_String SIGTERM = ''terminated''"
| "signal_String SIGINT = ''interrupt''"
| "signal_String (OtherSignal s) = s"

text \<open>
  The goroutine of \<open>shutDownSignal\<close>: it reads its channel once, cancels the context and logs. The
  signals stay diverted to the channel, so later ones are lost; \<open>os.Interrupt\<close> is \<open>SIGINT\<close>. The result
  says whether the context is done; a signal it is not notified of does not reach it.
\<close>

definition notified :: "go_signal list" where
  "notified = [SIGTERM, SIGINT, SIGINT]"

definition shutDownSignal :: "bool \<Rightarrow> go_signal \<Rightarrow> ('h, 'v) world \<Rightarrow> (bool \<times> ('h, 'v) world) option" where
  "shutDownSignal received sig w =
     (if sig \<notin> set notified then None
      else if received then Some (True, w)
      else Some (True, signal_received (signal_String sig) w))"

subsection \<open>The machine\<close>

datatype phase = Serving | Stopping | Draining | Exited process_exit

datatype ticker = NotStarted | Ticking | Ended

record ('c, 'v) process =
  p_phase :: phase
  p_ticker :: ticker
  p_pool :: "('c, 'v) pool"
  p_world :: "('c client, 'v) world"

text \<open>\<open>errors.Is\<close> with the sentinels of the servers' libraries.\<close>

record sentinels =
  is_ErrServerStopped :: "go_error \<Rightarrow> bool"
  is_net_ErrClosed :: "go_error \<Rightarrow> bool"
  is_http_ErrServerClosed :: "go_error \<Rightarrow> bool"

datatype 'v move =
    Goroutine "'v choice"
  | StartRefresher
  | StopRefresher
  | SignalArrives go_signal
  | HTTPShutdown "go_error option"
  | GracefulStop
  | GoroutinePanics nat
  | GRPCServe go_error
  | HTTPServe go_error

text \<open>The gRPC server knows the methods of the wrappers registered with it; probes are no requests.\<close>

fun registered :: "running \<Rightarrow> kms_request \<Rightarrow> bool" where
  "registered run (V1EncryptRequest x) \<longleftrightarrow> KMS1 \<in> set (run_services run)"
| "registered run (V1DecryptRequest c) \<longleftrightarrow> KMS1 \<in> set (run_services run)"
| "registered run (V2EncryptRequest x uid) \<longleftrightarrow> KMS2 \<in> set (run_services run)"
| "registered run (V2DecryptRequest c uid) \<longleftrightarrow> KMS2 \<in> set (run_services run)"
| "registered run (V2StatusRequest now) \<longleftrightarrow> KMS2 \<in> set (run_services run)"
| "registered run _ \<longleftrightarrow> False"

fun may_start :: "running \<Rightarrow> phase \<Rightarrow> ticker \<Rightarrow> job \<Rightarrow> bool" where
  "may_start run ph tk (ServeRequest ctx q) \<longleftrightarrow> (ph = Serving \<or> ph = Stopping) \<and> registered run q"
| "may_start run ph tk (AnswerHealth now duration req) \<longleftrightarrow> ph = Serving"
| "may_start run ph tk RefreshTick \<longleftrightarrow> tk = Ticking"

fun is_request :: "job \<Rightarrow> bool" where
  "is_request (ServeRequest ctx q) = True"
| "is_request _ = False"

fun is_health :: "job \<Rightarrow> bool" where
  "is_health (AnswerHealth now duration req) = True"
| "is_health _ = False"

definition unfinished :: "(job \<Rightarrow> bool) \<Rightarrow> ('c, 'v) pool \<Rightarrow> bool" where
  "unfinished which pool \<longleftrightarrow> list_ex (\<lambda>(j, p). which j \<and> finished p = None) pool"

fun crash_of :: "job_result \<Rightarrow> crash option" where
  "crash_of (Replied a) = reply_crash a"
| "crash_of (Answered x) = None"
| "crash_of (Ticked r) = panic_of r"

fun exited :: "phase \<Rightarrow> bool" where
  "exited (Exited x) = True"
| "exited _ = False"

definition exit_with :: "process_exit \<times> ('c client, 'v) world \<Rightarrow> ('c, 'v) process \<Rightarrow> ('c, 'v) process" where
  "exit_with r s = s\<lparr>p_phase := Exited (fst r), p_world := snd r\<rparr>"

definition server_ended :: "process_exit option \<times> ('c client, 'v) world \<Rightarrow> ('c, 'v) process \<Rightarrow> ('c, 'v) process" where
  "server_ended r s = (case r of (Some x, w) \<Rightarrow> exit_with (x, w) s | (None, w) \<Rightarrow> s\<lparr>p_world := w\<rparr>)"

text \<open>The moves of a process that has not ended and none of whose goroutines has panicked.\<close>

fun running_step :: "('c, 't, 'v) deps \<Rightarrow> running \<Rightarrow> options \<Rightarrow> sentinels \<Rightarrow> ('v \<Rightarrow> 'v \<Rightarrow> bool) \<Rightarrow> 'v move \<Rightarrow>
    ('c, 'v) process \<Rightarrow> ('c, 'v) process option" where
  "running_step D run opts E outside (Goroutine c) s =
     (if (\<exists>j. c = Start j \<and> \<not> may_start run (p_phase s) (p_ticker s) j) then None
      else (case thread_step D run outside c (p_pool s, p_world s) of
         None \<Rightarrow> None
       | Some (pool, w) \<Rightarrow> Some (s\<lparr>p_pool := pool, p_world := w\<rparr>)))"
| "running_step D run opts E outside StartRefresher s =
     (if p_ticker s \<noteq> NotStarted then None
      else (case token_refresher D opts [] (p_world s) of
         (Crashed k, w) \<Rightarrow> Some (exit_with (ExitPanic k, w) s)
       | (r, w) \<Rightarrow> Some (s\<lparr>p_ticker := Ticking, p_world := w\<rparr>)))"
| "running_step D run opts E outside StopRefresher s =
     (if p_ticker s \<noteq> Ticking \<or> p_phase s = Serving \<or> ticking (p_pool s) then None
      else Some (s\<lparr>p_ticker := Ended, p_world := snd (refresh_loop D [ContextDone] (p_world s))\<rparr>))"
| "running_step D run opts E outside (SignalArrives sig) s =
     (case shutDownSignal (p_phase s \<noteq> Serving) sig (p_world s) of
        None \<Rightarrow> None
      | Some (stop, w) \<Rightarrow> Some (s\<lparr>p_phase := (if p_phase s = Serving then Stopping else p_phase s), p_world := w\<rparr>))"
| "running_step D run opts E outside (HTTPShutdown e) s =
     (if p_phase s \<noteq> Stopping then None
      else (case e of
         Some err \<Rightarrow> Some (exit_with (shut_down run e (p_world s)) s)
       | None \<Rightarrow> if unfinished is_health (p_pool s) then None else Some (s\<lparr>p_phase := Draining\<rparr>)))"
| "running_step D run opts E outside GracefulStop s =
     (if p_phase s \<noteq> Draining \<or> unfinished is_request (p_pool s) then None
      else Some (exit_with (shut_down run None (p_world s)) s))"
| "running_step D run opts E outside (GoroutinePanics i) s = None"
| "running_step D run opts E outside (GRPCServe e) s =
     (if p_phase s = Draining then None
      else Some (server_ended (grpc_served (is_ErrServerStopped E) (is_net_ErrClosed E) (Some e) (p_world s)) s))"
| "running_step D run opts E outside (HTTPServe e) s =
     Some (server_ended (http_served (is_http_ErrServerClosed E) (Some e) (p_world s)) s)"

text \<open>A panic of a goroutine ends the process; it runs no deferred call of another goroutine.\<close>

definition process_step :: "('c, 't, 'v) deps \<Rightarrow> running \<Rightarrow> options \<Rightarrow> sentinels \<Rightarrow> ('v \<Rightarrow> 'v \<Rightarrow> bool) \<Rightarrow> 'v move \<Rightarrow>
    ('c, 'v) process \<Rightarrow> ('c, 'v) process option" where
  "process_step D run opts E outside m s =
     (if exited (p_phase s) then None
      else if alive (p_pool s) then running_step D run opts E outside m s
      else (case m of
         GoroutinePanics i \<Rightarrow>
           (if i < length (p_pool s) then
              (case finished (snd (p_pool s ! i)) of
                 None \<Rightarrow> None
               | Some r \<Rightarrow> (case crash_of r of None \<Rightarrow> None | Some k \<Rightarrow> Some (exit_with (ExitPanic k, p_world s) s)))
            else None)
       | _ \<Rightarrow> None))"

inductive process_moves :: "('c, 't, 'v) deps \<Rightarrow> running \<Rightarrow> options \<Rightarrow> sentinels \<Rightarrow> ('v \<Rightarrow> 'v \<Rightarrow> bool) \<Rightarrow>
    ('c, 'v) process \<Rightarrow> ('c, 'v) process \<Rightarrow> bool"
  for D :: "('c, 't, 'v) deps" and run :: running and opts :: options and E :: sentinels
    and outside :: "'v \<Rightarrow> 'v \<Rightarrow> bool" where
  moves_refl: "process_moves D run opts E outside s s"
| moves_step: "process_moves D run opts E outside s t \<Longrightarrow> process_step D run opts E outside m t = Some u \<Longrightarrow>
    process_moves D run opts E outside s u"

definition launched :: "('c client, 'v) world \<Rightarrow> ('c, 'v) process" where
  "launched w = \<lparr>p_phase = Serving, p_ticker = NotStarted, p_pool = [], p_world = w\<rparr>"

subsection \<open>What every move keeps\<close>

lemma unfinished_nth:
  "unfinished P pool \<longleftrightarrow> (\<exists>i < length pool. P (fst (pool ! i)) \<and> finished (snd (pool ! i)) = None)"
  by (simp add: unfinished_def list_ex_length case_prod_beta)

lemma unfinished_step:
  assumes "thread_step D run outside c (pool, w) = Some (pool', w')" "\<not> unfinished P pool"
    and "\<And>j. c = Start j \<Longrightarrow> \<not> P j"
  shows "\<not> unfinished P pool'"
proof (cases c)
  case (Step i)
  with assms(1) obtain j k f where i: "i < length pool" "pool ! i = (j, Atom k f)" "pool' = pool[i := (j, k w)]"
    by (auto split: if_splits prod.splits prog.splits)
  have "\<not> P j" using assms(2) i(1,2) by (auto simp: unfinished_nth dest: spec [of _ i])
  with assms(2) i show ?thesis by (auto simp: unfinished_nth nth_list_update split: if_splits)
qed (use assms in \<open>auto simp: unfinished_nth nth_append less_Suc_eq split: if_splits\<close>)

lemma accounts_world:
  "accounts base cs (pool, w) \<Longrightarrow> op_meter (events w') = op_meter (events w) \<Longrightarrow> accounts base cs (pool, w')"
  by (simp add: accounts_def)

lemma deferred_meter: "op_meter (events (deferred run w)) = op_meter (events w)"
  by (simp add: deferred_def clean_up_def)

lemma shut_down_meter: "op_meter (events (snd (shut_down run e w))) = op_meter (events w)"
  by (simp add: shut_down_def deferred_meter split: option.split)

lemma server_meter:
  "grpc_served a b e w = (x, w') \<Longrightarrow> op_meter (events w') = op_meter (events w)"
  "http_served b e w = (x, w') \<Longrightarrow> op_meter (events w') = op_meter (events w)"
  by (auto simp: grpc_served_def http_served_def split: option.splits if_splits)

lemma refresher_start:
  "token_refresher D opts [] w = (r, w') \<Longrightarrow> events w' = events w @ [Log InfoLevel ''Starting token refresher''
     [FString ''interval'' (o_TokenRefreshInterval opts), FInt ''renewal-seconds'' (o_TokenRenewalSeconds opts)]]
   \<and> os w' = os w"
  by (auto simp: token_refresher_def LeaseRefresher_def split: if_splits)

text \<open>Only the goroutines move the pool and the metrics.\<close>

lemma other_move:
  assumes "running_step D run opts E outside m s = Some t" "\<nexists>c. m = Goroutine c"
  shows "p_pool t = p_pool s \<and> op_meter (events (p_world t)) = op_meter (events (p_world s))"
proof (cases m)
  case StartRefresher
  with assms(1) show ?thesis
    by (auto simp: exit_with_def dest!: refresher_start split: if_splits prod.splits refresher.splits)
next
  case (SignalArrives sig)
  with assms(1) show ?thesis
    by (auto simp: shutDownSignal_def signal_received_def split: if_splits option.splits)
qed (use assms in \<open>auto simp: exit_with_def server_ended_def shut_down_meter
      dest: server_meter split: if_splits option.splits prod.splits\<close>)

text \<open>Which moves end the process with a return, and which begins the wait for the requests.\<close>

lemma refresher_phase:
  assumes "running_step D run opts E outside StartRefresher s = Some t"
  shows "p_phase t = p_phase s \<or> (\<exists>k. p_phase t = Exited (ExitPanic k))"
  using assms by (auto simp: exit_with_def split: if_splits prod.splits refresher.splits)

lemma signal_phase:
  "running_step D run opts E outside (SignalArrives sig) s = Some t \<Longrightarrow>
     p_phase t = (if p_phase s = Serving then Stopping else p_phase s)"
  by (auto simp: shutDownSignal_def split: if_splits)

lemma shut_down_exit:
  "fst (shut_down run None w) = ExitNil" "\<exists>e'. fst (shut_down run (Some e) w) = ExitErr e'"
  by (simp_all add: shut_down_def)

fun phase_after :: "'v move \<Rightarrow> phase \<Rightarrow> phase \<Rightarrow> bool" where
  "phase_after (Goroutine c) p q \<longleftrightarrow> q = p"
| "phase_after StartRefresher p q \<longleftrightarrow> q = p \<or> (\<exists>k. q = Exited (ExitPanic k))"
| "phase_after StopRefresher p q \<longleftrightarrow> q = p"
| "phase_after (SignalArrives sig) p q \<longleftrightarrow> q = (if p = Serving then Stopping else p)"
| "phase_after (HTTPShutdown None) p q \<longleftrightarrow> p = Stopping \<and> q = Draining"
| "phase_after (HTTPShutdown (Some e)) p q \<longleftrightarrow> p = Stopping \<and> (\<exists>e'. q = Exited (ExitErr e'))"
| "phase_after GracefulStop p q \<longleftrightarrow> p = Draining \<and> q = Exited ExitNil"
| "phase_after (GoroutinePanics i) p q \<longleftrightarrow> False"
| "phase_after (GRPCServe e) p q \<longleftrightarrow> q = p \<or> q = Exited ExitFatal"
| "phase_after (HTTPServe e) p q \<longleftrightarrow> q = p \<or> q = Exited ExitFatal"

lemma step_phase: "running_step D run opts E outside m s = Some t \<Longrightarrow> phase_after m (p_phase s) (p_phase t)"
proof (cases m)
  case (HTTPShutdown e)
  then show "running_step D run opts E outside m s = Some t \<Longrightarrow> ?thesis"
    using shut_down_exit(2) by (cases e) (auto simp: exit_with_def split: if_splits)
next
  case (SignalArrives sig)
  then show "running_step D run opts E outside m s = Some t \<Longrightarrow> ?thesis"
    by (auto simp: shutDownSignal_def split: if_splits)
next
  case (GRPCServe e)
  then show "running_step D run opts E outside m s = Some t \<Longrightarrow> ?thesis"
    by (auto simp: server_ended_def grpc_served_def exit_with_def split: if_splits)
next
  case (HTTPServe e)
  then show "running_step D run opts E outside m s = Some t \<Longrightarrow> ?thesis"
    by (auto simp: server_ended_def http_served_def exit_with_def)
next
  case StartRefresher
  then show "running_step D run opts E outside m s = Some t \<Longrightarrow> ?thesis"
    using refresher_phase by auto
qed (auto simp: exit_with_def shut_down_exit split: if_splits option.splits)

lemma phase_after_exit:
  "phase_after m p q \<Longrightarrow> \<not> exited p \<Longrightarrow> q = Exited ExitNil \<Longrightarrow> m = GracefulStop"
  "phase_after m p q \<Longrightarrow> \<not> exited p \<Longrightarrow> q = Exited (ExitErr e) \<Longrightarrow> \<exists>err. m = HTTPShutdown (Some err)"
  "phase_after m p q \<Longrightarrow> q = Draining \<Longrightarrow> p = Draining \<or> m = HTTPShutdown None"
  by (induction m p q rule: phase_after.induct) (auto split: if_splits)

lemma move_phase:
  assumes "running_step D run opts E outside m s = Some t" "\<not> exited (p_phase s)"
  shows "p_phase t = Exited ExitNil \<Longrightarrow> m = GracefulStop"
    and "p_phase t = Exited (ExitErr e) \<Longrightarrow> \<exists>err. m = HTTPShutdown (Some err)"
    and "p_phase t = Draining \<Longrightarrow> p_phase s = Draining \<or> m = HTTPShutdown None"
  using phase_after_exit [OF step_phase [OF assms(1)]] assms(2) by blast+

subsection \<open>Invariants\<close>

lemma running_alive:
  "process_step D run opts E outside m s = Some t \<Longrightarrow> alive (p_pool s) \<Longrightarrow>
     running_step D run opts E outside m s = Some t \<and> \<not> exited (p_phase s)"
  by (simp add: process_step_def split: if_splits)

lemma panic_step:
  "process_step D run opts E outside m s = Some t \<Longrightarrow> \<not> alive (p_pool s) \<Longrightarrow>
     \<exists>k. t = exit_with (ExitPanic k, p_world s) s"
  by (auto simp: process_step_def split: if_splits move.splits option.splits)

text \<open>
  The metrics count what the requests have put on them so far. Nobody begins a probe after the HTTP
  server was shut down; when the process returns, no request is pending and none has panicked.
\<close>

definition process_ok :: "nat \<times> nat \<times> nat \<times> nat \<Rightarrow> ('c, 'v) process \<Rightarrow> bool" where
  "process_ok base s \<longleftrightarrow> (\<exists>cs. accounts base cs (p_pool s, p_world s))
     \<and> (p_phase s = Draining \<or> p_phase s = Exited ExitNil \<longrightarrow> \<not> unfinished is_health (p_pool s))
     \<and> (p_phase s = Exited ExitNil \<longrightarrow> \<not> unfinished is_request (p_pool s) \<and> alive (p_pool s))"

lemma goroutine_ok:
  assumes "running_step D run opts E outside (Goroutine c) s = Some t" "\<not> exited (p_phase s)" "process_ok base s"
  shows "process_ok base t"
proof -
  from assms(1) obtain pool w
    where st: "thread_step D run outside c (p_pool s, p_world s) = Some (pool, w)" "t = s\<lparr>p_pool := pool, p_world := w\<rparr>"
      and may: "\<And>j. c = Start j \<Longrightarrow> may_start run (p_phase s) (p_ticker s) j"
    by (auto split: if_splits option.splits)
  have "\<exists>cs. accounts base cs (p_pool s, p_world s)" using assms(3) by (simp add: process_ok_def)
  then have "\<exists>cs. accounts base cs (pool, w)" using thread_step_accounts [OF st(1)] by blast
  moreover have "\<not> unfinished is_health pool" if "p_phase s = Draining"
  proof (rule unfinished_step [OF st(1)])
    show "\<not> unfinished is_health (p_pool s)" using assms(3) that by (simp add: process_ok_def)
    show "\<not> is_health j" if "c = Start j" for j
      using may [OF that] \<open>p_phase s = Draining\<close> by (cases j) auto
  qed
  moreover have "p_phase s \<noteq> Exited ExitNil" using assms(2) by auto
  ultimately show ?thesis using st(2) by (simp add: process_ok_def)
qed

lemma process_step_ok:
  assumes "process_step D run opts E outside m s = Some t" "process_ok base s"
  shows "process_ok base t"
proof (cases "alive (p_pool s)")
  case True
  from running_alive [OF assms(1) True] have r: "running_step D run opts E outside m s = Some t"
    "\<not> exited (p_phase s)" by simp_all
  show ?thesis
  proof (cases "\<exists>c. m = Goroutine c")
    case False
    then have o: "p_pool t = p_pool s" "\<exists>cs. accounts base cs (p_pool t, p_world t)"
      using other_move [OF r(1)] accounts_world assms(2) by (fastforce simp: process_ok_def)+
    moreover have "\<not> unfinished is_health (p_pool s)" if "p_phase t = Draining \<or> p_phase t = Exited ExitNil"
      using that move_phase(1,3) [OF r] r(1) assms(2) by (auto simp: process_ok_def split: if_splits)
    moreover have "\<not> unfinished is_request (p_pool s)" if "p_phase t = Exited ExitNil"
      using move_phase(1) [OF r that] r(1) by (auto split: if_splits)
    ultimately show ?thesis using True by (simp add: process_ok_def)
  qed (use goroutine_ok r assms(2) in blast)
next
  case False
  from panic_step [OF assms(1) False] assms(2) show ?thesis
    by (auto simp: process_ok_def exit_with_def)
qed

lemma process_moves_ok:
  "process_moves D run opts E outside s t \<Longrightarrow> process_ok base s \<Longrightarrow> process_ok base t"
  by (induction rule: process_moves.induct) (blast intro: process_step_ok)+

text \<open>Until it ends the process changes no file; a return changes what its deferred calls change.\<close>

definition process_files_ok :: "running \<Rightarrow> ('c client, 'v) world \<Rightarrow> ('c, 'v) process \<Rightarrow> bool" where
  "process_files_ok run w s \<longleftrightarrow>
     (\<not> exited (p_phase s) \<longrightarrow> same_files w (p_world s) \<and> pool_keeps same_files (p_pool s))
     \<and> (p_phase s = Exited ExitNil \<or> (\<exists>e. p_phase s = Exited (ExitErr e)) \<longrightarrow>
          (\<exists>w1 e. same_files w w1 \<and> p_world s = snd (shut_down run e w1)))"

lemma other_files:
  assumes "running_step D run opts E outside m s = Some t" "\<nexists>c. m = Goroutine c" "\<not> exited (p_phase t)"
  shows "os (p_world t) = os (p_world s)"
proof (cases m)
  case StartRefresher
  with assms show ?thesis
    by (auto simp: exit_with_def dest!: refresher_start split: if_splits prod.splits refresher.splits)
next
  case (SignalArrives sig)
  with assms(1) show ?thesis
    by (auto simp: shutDownSignal_def signal_received_def split: if_splits option.splits)
qed (use assms in \<open>auto simp: exit_with_def server_ended_def grpc_served_def http_served_def
      split: if_splits option.splits prod.splits\<close>)

lemma process_step_files:
  assumes "process_step D run opts E outside m s = Some t" "reads_only D" "process_files_ok run w s"
  shows "process_files_ok run w t"
proof (cases "alive (p_pool s)")
  case True
  from running_alive [OF assms(1) True] have r: "running_step D run opts E outside m s = Some t"
    "\<not> exited (p_phase s)" by simp_all
  with assms(3) have s: "same_files w (p_world s)" "pool_keeps same_files (p_pool s)"
    by (simp_all add: process_files_ok_def)
  show ?thesis
  proof (cases "\<exists>c. m = Goroutine c")
    case True
    then obtain c pool u where "thread_step D run outside c (p_pool s, p_world s) = Some (pool, u)"
      "t = s\<lparr>p_pool := pool, p_world := u\<rparr>"
      using r(1) by (auto split: if_splits option.splits)
    with thread_step_files [OF _ assms(2)] s r(2) same_files_trans show ?thesis
      by (fastforce simp: process_files_ok_def)
  next
    case False
    have "p_world t = snd (shut_down run None (p_world s))" if "p_phase t = Exited ExitNil"
      using move_phase(1) [OF r that] r(1) by (auto simp: exit_with_def split: if_splits)
    moreover have "\<exists>e. p_world t = snd (shut_down run e (p_world s))" if "p_phase t = Exited (ExitErr e)" for e
    proof -
      from move_phase(2) [OF r that] obtain err where "m = HTTPShutdown (Some err)" by blast
      with r(1) have "p_world t = snd (shut_down run (Some err) (p_world s))"
        by (auto simp: exit_with_def split: if_splits)
      then show ?thesis ..
    qed
    moreover have "same_files w (p_world t) \<and> pool_keeps same_files (p_pool t)" if "\<not> exited (p_phase t)"
      using other_files [OF r(1) False that] other_move [OF r(1) False] s by (simp add: same_files_def)
    ultimately show ?thesis using s(1) unfolding process_files_ok_def by blast
  qed
next
  case False
  from panic_step [OF assms(1) False] show ?thesis
    by (auto simp: process_files_ok_def exit_with_def)
qed

lemma process_moves_files:
  "process_moves D run opts E outside s t \<Longrightarrow> reads_only D \<Longrightarrow> process_files_ok run w s \<Longrightarrow> process_files_ok run w t"
  by (induction rule: process_moves.induct) (blast intro: process_step_files)+

lemma launched_ok: "process_ok (op_meter (events w)) (launched w)" "process_files_ok run w (launched w)"
  by (auto simp: process_ok_def process_files_ok_def launched_def accounts_def pool_keeps_def unfinished_def
      intro: exI [of _ "[]"])

text \<open>Answers of a pool without a panic.\<close>

lemma answered_alive: "answered pool = Some as \<Longrightarrow> alive pool \<Longrightarrow> a \<in> set as \<Longrightarrow> reply_crash a = None"
  by (induction pool arbitrary: as rule: answered.induct)
    (auto simp: alive_def split: job.splits option.splits job_result.splits)

lemma pool_answered:
  assumes "process_ok base s" "\<not> unfinished is_request (p_pool s)"
  shows "\<exists>as. answered (p_pool s) = Some as \<and> op_meter (events (p_world s)) = add4 base (charges as)"
proof -
  obtain cs where cs: "accounts base cs (p_pool s, p_world s)" using assms(1) by (auto simp: process_ok_def)
  have "\<exists>as. answered (p_pool s) = Some as \<and> total cs = charges as"
  proof (rule accounts_answered)
    show "\<forall>i < length (p_pool s). \<forall>ctx q. fst (p_pool s ! i) = ServeRequest ctx q \<longrightarrow> finished (snd (p_pool s ! i)) \<noteq> None"
      using assms(2) by (metis unfinished_nth is_request.simps(1))
  qed (use cs in \<open>simp_all add: accounts_def\<close>)
  with cs show ?thesis by (auto simp: accounts_def)
qed

end
