(* ===== verification/Thread_Serving.thy ===== *)
theory Thread_Serving
  imports Plugin_Threads KMS_Store
begin

text \<open>
  What the goroutines uphold over a Vault that keeps its contract: the client stays one that may use
  the transit key, the key stays usable and no ciphertext is forgotten; so every encryption, every
  probe and every decryption of a stored ciphertext succeeds, in every schedule.
\<close>

text \<open>
  The contract: the libraries, the API clients that may use the transit key, the login method, the
  transit configuration, the states of Vault in which the key is usable and what it decrypts.
\<close>

record ('c, 't, 'v) contract =
  k_deps :: "('c, 't, 'v) deps"
  k_allowed :: "'c \<Rightarrow> bool"
  k_method :: client_option
  k_mount :: string
  k_key :: string
  k_up :: "'v \<Rightarrow> bool"
  k_known :: "string \<Rightarrow> string \<Rightarrow> 'v \<Rightarrow> bool"

text \<open>
  Vault's side of it, over the documented behaviour of its API: the transit engine works for every
  allowed client, no call makes it forget, and a client that was allowed is allowed with any token a
  login is answered with, or with the fixed token of a token login.
\<close>

definition tokens_allowed :: "('c, 't, 'v) contract \<Rightarrow> bool" where
  "tokens_allowed K \<longleftrightarrow>
     (\<forall>a v ctx p d s v' t b. Write (k_deps K) a ctx p d v = (Inr s, v') \<longrightarrow> client_token s = Some t \<longrightarrow>
        k_allowed K b \<longrightarrow> k_allowed K (SetToken (k_deps K) b t))
     \<and> (\<forall>t b. k_method K = WithTokenAuth t \<longrightarrow> k_allowed K b \<longrightarrow> k_allowed K (SetToken (k_deps K) b t))"

definition vault_contract :: "('c, 't, 'v) contract \<Rightarrow> bool" where
  "vault_contract K \<longleftrightarrow> logs_in (k_method K) \<and> tokens_allowed K
     \<and> vault_keeps (k_deps K) (k_up K) (k_known K)
     \<and> (\<forall>a. k_allowed K a \<longrightarrow> transit_service (k_deps K) a (k_mount K) (k_key K) (k_up K) (k_known K))"

definition k_ok :: "('c, 't, 'v) contract \<Rightarrow> ('c client, 'v) world \<Rightarrow> bool" where
  "k_ok K w \<longleftrightarrow> k_allowed K (api (heap w)) \<and> AuthMethodFunc (heap w) = Some (k_method K)
     \<and> TransitEngine (heap w) = k_mount K \<and> TransitKey (heap w) = k_key K \<and> k_up K (svc w)"

definition k_rel :: "('c, 't, 'v) contract \<Rightarrow> ('c client, 'v) world \<Rightarrow> ('c client, 'v) world \<Rightarrow> bool" where
  "k_rel K w w' \<longleftrightarrow> (k_ok K w \<longrightarrow> k_ok K w' \<and> keeps (k_up K) (k_known K) (svc w) (svc w'))"

definition k_stored :: "('c, 't, 'v) contract \<Rightarrow> bytes \<Rightarrow> bytes \<Rightarrow> ('c client, 'v) world \<Rightarrow> bool" where
  "k_stored K ct x w \<longleftrightarrow> k_known K ct (b64_encode StdEncoding x) (svc w)"

interpretation k_steady: steady_interference "k_rel K" "k_ok K" for K
  by unfold_locales (auto simp: k_rel_def k_ok_def keeps_def)

lemma k_stored_rel: "k_ok K w \<Longrightarrow> k_rel K w w' \<Longrightarrow> k_stored K ct x w \<Longrightarrow> k_stored K ct x w'"
  by (simp add: k_rel_def k_stored_def keeps_def)

text \<open>The ways an action keeps to the relation: it emits, it changes other fields of the client, it calls.\<close>

lemma k_rel_emit [simp]: "k_rel K w (emit e w)"
  by (auto simp: k_rel_def k_ok_def keeps_def)

lemma k_rel_call:
  "(k_ok K w \<Longrightarrow> keeps (k_up K) (k_known K) (svc w) (svc w')) \<Longrightarrow> heap w' = heap w \<Longrightarrow> k_rel K w w'"
  by (auto simp: k_rel_def k_ok_def keeps_def)

lemma k_rel_heap:
  "(k_ok K w \<Longrightarrow> k_ok K (w\<lparr>heap := h\<rparr>)) \<Longrightarrow> k_rel K w (w\<lparr>heap := h\<rparr>)"
  by (auto simp: k_rel_def k_ok_def keeps_def)

lemma k_tell: "k_ok K w \<Longrightarrow> upholds (k_rel K) (tell e) (\<lambda>r w. True) w"
  unfolding tell_def by (rule k_steady.steady_act) auto

lemma k_tell_if: "k_ok K w \<Longrightarrow> upholds (k_rel K) (tell_if b e) (\<lambda>r w. True) w"
  by (cases b) (simp_all add: tell_if_def k_tell)

lemma k_modify:
  "k_ok K w \<Longrightarrow> (\<And>u. k_ok K u \<Longrightarrow> k_ok K (u\<lparr>heap := g (heap u)\<rparr>)) \<Longrightarrow> upholds (k_rel K) (modify g) (\<lambda>r w. True) w"
  unfolding modify_def by (rule k_steady.steady_act) (auto intro: k_rel_heap)

subsection \<open>Transit operations\<close>

lemma k_GetKeyVersion:
  assumes "vault_contract K" "k_ok K w"
  shows "upholds (k_rel K) (GetKeyVersion_prog (k_deps K) ctx) (\<lambda>r w. \<exists>kv. r = Ok kv) w"
  unfolding GetKeyVersion_prog_def
proof (rule k_steady.steady_act [OF assms(2)])
  fix u r u' assume u: "k_ok K u" "client_GetKeyVersion (k_deps K) (heap u) ctx u = (r, u')"
  have s: "transit_service (k_deps K) (api (heap u)) (TransitEngine (heap u)) (TransitKey (heap u)) (k_up K) (k_known K)"
    "k_up K (svc u)"
    using assms(1) u(1) by (simp_all add: vault_contract_def k_ok_def)
  from GetKeyVersion_service [OF this, of ctx] u(2)
  have r: "\<exists>n. r = Ok n" "keeps (k_up K) (k_known K) (svc u) (svc u')" "heap u' = heap u" by auto
  then show "k_rel K u u'" by (simp add: k_rel_call)
  from r(1) show "\<exists>kv. r = Ok kv" .
qed

lemma k_Decrypt:
  assumes "vault_contract K" "k_ok K w"
  shows "upholds (k_rel K) (Decrypt_prog (k_deps K) ctx ct) (\<lambda>r u. \<forall>x. k_stored K ct x w \<longrightarrow> r = Ok x) w"
  unfolding Decrypt_prog_def
proof (rule k_steady.steady_act [OF assms(2)])
  fix u r u' assume u: "k_ok K u" "k_rel K w u" "client_Decrypt (k_deps K) (heap u) ctx ct u = (r, u')"
  have s: "transit_service (k_deps K) (api (heap u)) (TransitEngine (heap u)) (TransitKey (heap u)) (k_up K) (k_known K)"
    "k_up K (svc u)"
    using assms(1) u(1) by (simp_all add: vault_contract_def k_ok_def)
  note d = Decrypt_service [OF s u(3)]
  show "k_rel K u u'"
    using d(1) svc_only_fields [OF Decrypt_svc_only [OF u(3)]] by (simp add: k_rel_call)
  show "\<forall>x. k_stored K ct x w \<longrightarrow> r = Ok x"
    using d(2) k_stored_rel [OF assms(2) u(2)] by (simp add: k_stored_def)
qed

lemma k_Encrypt:
  assumes "vault_contract K" "k_ok K w"
  shows "upholds (k_rel K) (Encrypt_prog (k_deps K) ctx x) (\<lambda>r w. \<exists>y. r = Ok y \<and> k_stored K (fst y) x w) w"
  unfolding Encrypt_prog_def
proof (rule k_steady.steady_bind_ok [OF assms(2)])
  show "upholds (k_rel K) (act (\<lambda>w. encrypt_write (k_deps K) (heap w) ctx x w)) (\<lambda>r w. \<exists>ct. r = Ok ct \<and> k_stored K ct x w) w"
  proof (rule k_steady.steady_act [OF assms(2)])
    fix u r u' assume u: "k_ok K u" "encrypt_write (k_deps K) (heap u) ctx x u = (r, u')"
    have s: "transit_service (k_deps K) (api (heap u)) (k_mount K) (k_key K) (k_up K) (k_known K)"
      "TransitEngine (heap u) = k_mount K" "TransitKey (heap u) = k_key K" "k_up K (svc u)"
      using assms(1) u(1) by (simp_all add: vault_contract_def k_ok_def)
    then obtain s ct v1
      where 1: "Write (k_deps K) (api (heap u)) ctx (encryptDataPath (k_mount K) (k_key K))
          [(''plaintext'', JString (b64_encode StdEncoding x))] (svc u) = (Inr (Some s), v1)"
        "Data s ''ciphertext'' = Some (JString ct)" "k_known K ct (b64_encode StdEncoding x) v1"
        "keeps (k_up K) (k_known K) (svc u) v1"
      unfolding transit_service_def transit_encrypts_def by blast
    with u(2) s have r: "r = Ok ct" "u' = u\<lparr>svc := v1\<rparr>" by (auto simp: encrypt_write_def on_svc_def)
    with 1 show rel: "k_rel K u u'" by (simp add: k_rel_call)
    fix v assume "k_rel K u' v"
    with k_stored_rel [of K u' v ct x] k_steady.ok_rel [OF u(1) rel] r 1(3)
    show "\<exists>ct. r = Ok ct \<and> k_stored K ct x v" by (simp add: k_stored_def)
  qed
next
  fix ct u assume u: "k_ok K u" "k_stored K ct x u"
  note v = k_steady.steady_keeps [OF k_GetKeyVersion [OF assms(1) u(1), of ctx] u(1), where P = "k_stored K ct x"]
  show "upholds (k_rel K) (bind_ok (GetKeyVersion_prog (k_deps K) ctx) (\<lambda>kv. Return (Ok (ct, kv))))
      (\<lambda>r w. \<exists>y. r = Ok y \<and> k_stored K (fst y) x w) u"
  proof (rule k_steady.steady_bind_ok [OF u(1)])
    show "upholds (k_rel K) (GetKeyVersion_prog (k_deps K) ctx) (\<lambda>r w. \<exists>kv. r = Ok kv \<and> k_stored K ct x w) u"
      by (rule k_steady.upholds_mono [OF v]) (use u(2) k_stored_rel in auto)
    fix kv w assume "k_ok K w" "k_stored K ct x w"
    then show "upholds (k_rel K) (Return (Ok (ct, kv))) (\<lambda>r w. \<exists>y. r = Ok y \<and> k_stored K (fst y) x w) w"
      by (intro k_steady.steady_Return) (use k_stored_rel in auto)
  qed
qed

subsection \<open>Requests and probes\<close>

lemma k_measured:
  assumes "k_ok K w" "upholds (k_rel K) p Q w"
    and "\<And>r u v. k_ok K u \<Longrightarrow> Q r u \<Longrightarrow> k_rel K u v \<Longrightarrow> Q r v"
  shows "upholds (k_rel K) (measured rec errors durations line f p) (\<lambda>r u. \<exists>r0. r = map_outcome f r0 \<and> Q r0 u) w"
  unfolding measured_def Let_def
proof (rule k_steady.steady_bind [OF assms(1,2)])
  fix r u assume u: "k_ok K u" "Q r u"
  let ?tail = "\<lambda>e. andthen (tell_if rec e) (andthen (tell_if rec (Observe durations [])) (Return (map_outcome f r)))"
  have "upholds (k_rel K) (?tail e) (\<lambda>r u. \<exists>r0. r = map_outcome f r0 \<and> Q r0 u) u"
    and "upholds (k_rel K) (andthen (tell_if rec (Observe durations [])) (Return (map_outcome f r)))
      (\<lambda>r u. \<exists>r0. r = map_outcome f r0 \<and> Q r0 u) u" for e
    by (intro k_steady.steady_andthen [where P = "Q r"] k_steady.steady_Return k_tell_if u; use u assms(3) in blast)+
  then show "upholds (k_rel K) (case r of
        Ok x \<Rightarrow> andthen (tell_if rec line) (andthen (tell_if rec (Observe durations [])) (Return (Ok (f x))))
      | Err e \<Rightarrow> andthen (tell_if rec (CounterInc errors)) (andthen (tell_if rec (Observe durations [])) (Return (Err e)))
      | Panic k \<Rightarrow> andthen (tell_if rec (Observe durations [])) (Return (Panic k)))
      (\<lambda>r u. \<exists>r0. r = map_outcome f r0 \<and> Q r0 u) u"
    by (cases r) simp_all
qed

text \<open>What each handler's result is worth: a stored ciphertext, the plaintext of a ciphertext stored before.\<close>

lemma k_encrypts:
  assumes "vault_contract K" "k_ok K w"
  shows "upholds (k_rel K) (v1_encrypt_prog (k_deps K) ctx x rec) (\<lambda>r w. \<exists>y. r = Ok y \<and> k_stored K (v1_Cipher y) x w) w"
    and "upholds (k_rel K) (v2_encrypt_prog (k_deps K) ctx x uid rec) (\<lambda>r w. \<exists>y. r = Ok y \<and> k_stored K (v2_Ciphertext y) x w) w"
proof -
  have st: "\<And>r u v. k_ok K u \<Longrightarrow> \<exists>y. r = Ok y \<and> k_stored K (fst y) x u \<Longrightarrow> k_rel K u v \<Longrightarrow>
      \<exists>y :: bytes \<times> string. r = Ok y \<and> k_stored K (fst y) x v"
    using k_stored_rel by blast
  note m = k_measured [OF assms(2) k_Encrypt [OF assms, of ctx x] st]
  show "upholds (k_rel K) (v1_encrypt_prog (k_deps K) ctx x rec) (\<lambda>r w. \<exists>y. r = Ok y \<and> k_stored K (v1_Cipher y) x w) w"
    unfolding v1_encrypt_prog_def by (rule k_steady.upholds_mono [OF m]) auto
  show "upholds (k_rel K) (v2_encrypt_prog (k_deps K) ctx x uid rec) (\<lambda>r w. \<exists>y. r = Ok y \<and> k_stored K (v2_Ciphertext y) x w) w"
    unfolding v2_encrypt_prog_def by (rule k_steady.upholds_mono [OF m]) auto
qed

lemma k_decrypts:
  assumes "vault_contract K" "k_ok K w"
  shows "upholds (k_rel K) (v1_decrypt_prog (k_deps K) ctx ct rec) (\<lambda>r u. k_stored K ct x w \<longrightarrow> r = Ok \<lparr>v1_Plain = x\<rparr>) w"
    and "upholds (k_rel K) (v2_decrypt_prog (k_deps K) ctx ct uid rec) (\<lambda>r u. k_stored K ct x w \<longrightarrow> r = Ok \<lparr>v2_Plaintext = x\<rparr>) w"
proof -
  have d: "upholds (k_rel K) (Decrypt_prog (k_deps K) ctx ct) (\<lambda>r u. k_stored K ct x w \<longrightarrow> r = Ok x) w"
    by (rule k_steady.upholds_mono [OF k_Decrypt [OF assms]]) auto
  note m = k_measured [OF assms(2) d]
  show "upholds (k_rel K) (v1_decrypt_prog (k_deps K) ctx ct rec) (\<lambda>r u. k_stored K ct x w \<longrightarrow> r = Ok \<lparr>v1_Plain = x\<rparr>) w"
    unfolding v1_decrypt_prog_def by (rule k_steady.upholds_mono [OF m]) auto
  show "upholds (k_rel K) (v2_decrypt_prog (k_deps K) ctx ct uid rec) (\<lambda>r u. k_stored K ct x w \<longrightarrow> r = Ok \<lparr>v2_Plaintext = x\<rparr>) w"
    unfolding v2_decrypt_prog_def by (rule k_steady.upholds_mono [OF m]) auto
qed

text \<open>A probe encrypts and decrypts what it encrypted.\<close>

lemma k_probe:
  assumes "k_ok K w" "upholds (k_rel K) p (\<lambda>r w. \<exists>y. r = Ok y \<and> S y w) w"
    and "\<And>y u. k_ok K u \<Longrightarrow> S y u \<Longrightarrow> upholds (k_rel K) (q y) (\<lambda>r w. r = Ok z) u"
    and "\<And>u. k_ok K u \<Longrightarrow> upholds (k_rel K) (g z) R u"
  shows "upholds (k_rel K) (bind_ok p (\<lambda>y. bind_ok (q y) g)) R w"
proof (rule k_steady.steady_bind_ok [OF assms(1,2)])
  fix y u assume u: "k_ok K u" "S y u"
  show "upholds (k_rel K) (bind_ok (q y) g) R u"
  proof (rule k_steady.steady_bind_ok [OF u(1), where Q = "\<lambda>d u. d = z"])
    show "upholds (k_rel K) (q y) (\<lambda>r w. \<exists>x. r = Ok x \<and> x = z) u"
      by (rule k_steady.upholds_mono [OF assms(3) [OF u]]) simp
  qed (use assms(4) in simp)
qed

lemma k_probes:
  assumes "vault_contract K" "k_ok K w"
  shows "upholds (k_rel K) (v1_Health_prog (k_deps K) ctx) (\<lambda>r u. r = Ok ()) w"
    and "upholds (k_rel K) (v2_Health_prog (k_deps K) now ctx) (\<lambda>r u. r = Ok ()) w"
proof -
  have d: "upholds (k_rel K) (v1_decrypt_prog (k_deps K) ctx ct False) (\<lambda>r u. r = Ok \<lparr>v1_Plain = ''health''\<rparr>) u"
      "upholds (k_rel K) (v2_decrypt_prog (k_deps K) ctx ct uid False) (\<lambda>r u. r = Ok \<lparr>v2_Plaintext = ''health''\<rparr>) u"
    if "k_ok K u" "k_stored K ct ''health'' u" for ct u uid
    using k_steady.upholds_mono [OF k_decrypts(1) [OF assms(1) that(1), where x = "''health''"]]
      k_steady.upholds_mono [OF k_decrypts(2) [OF assms(1) that(1), where x = "''health''"]] that(2)
    by simp_all
  show "upholds (k_rel K) (v1_Health_prog (k_deps K) ctx) (\<lambda>r u. r = Ok ()) w"
    unfolding v1_Health_prog_def
    by (rule k_probe [OF assms(2) k_encrypts(1) [OF assms] d(1)]) (auto intro: k_steady.steady_Return)
  show "upholds (k_rel K) (v2_Health_prog (k_deps K) now ctx) (\<lambda>r u. r = Ok ()) w"
    unfolding v2_Health_prog_def
    by (rule k_probe [OF assms(2) k_encrypts(2) [OF assms] d(2)]) (auto intro: k_steady.steady_Return)
qed

lemma k_Status:
  assumes "vault_contract K" "k_ok K w"
  shows "upholds (k_rel K) (v2_Status_prog (k_deps K) now ctx) (\<lambda>r u. \<exists>s. r = Ok s \<and> v2_Healthz s = ''ok'') w"
  unfolding v2_Status_prog_def Let_def
proof (rule k_steady.steady_bind_ok [OF assms(2), where Q = "\<lambda>kv u. True"])
  show "upholds (k_rel K) (GetKeyVersion_prog (k_deps K) ctx) (\<lambda>r u. \<exists>kv. r = Ok kv \<and> True) w"
    using k_GetKeyVersion [OF assms] by simp
  fix kv u assume u: "k_ok K u"
  show "upholds (k_rel K) (bind_prog (v2_Health_prog (k_deps K) now ctx)
      (\<lambda>r. case r of
         Ok u \<Rightarrow> andthen (tell (Log InfoLevel ''health status''
             [FString ''key_id'' kv, FString ''healthz'' ''ok'', FString ''version'' ''v2'']))
             (Return (Ok \<lparr>v2_Version = ''v2'', v2_Healthz = ''ok'', v2_KeyId = kv\<rparr>))
       | Err e \<Rightarrow> andthen (tell (Log InfoLevel ''v2 health check failed'' [FError e]))
           (andthen (tell (Log InfoLevel ''health status''
             [FString ''key_id'' kv, FString ''healthz'' ''err'', FString ''version'' ''v2'']))
             (Return (Ok \<lparr>v2_Version = ''v2'', v2_Healthz = ''err'', v2_KeyId = kv\<rparr>)))
       | Panic k \<Rightarrow> Return (Panic k)))
    (\<lambda>r u. \<exists>s. r = Ok s \<and> v2_Healthz s = ''ok'') u"
    by (rule k_steady.steady_bind [OF u k_probes(2) [OF assms(1) u]])
      (auto intro!: k_steady.steady_andthen [where P = "\<lambda>u. True"] k_steady.steady_Return k_tell)
qed

lemma k_HealthZ:
  assumes "vault_contract K"
  shows "k_ok K w \<Longrightarrow> upholds (k_rel K) (HealthZ_prog (k_deps K) ks req rp)
      (\<lambda>r u. r = (Ok (), write_body ''OK'' (WriteHeader 200 rp))) w"
proof (induction ks arbitrary: w)
  case Nil
  then show ?case
    by (auto intro!: k_steady.steady_andthen [where P = "\<lambda>u. True"] k_steady.steady_Return k_tell)
next
  case (Cons k ks)
  have p: "upholds (k_rel K) (case k of KMSv1_API \<Rightarrow> v1_Health_prog (k_deps K) (Context req)
      | KMSv2_API now \<Rightarrow> v2_Health_prog (k_deps K) now (Context req)) (\<lambda>r u. r = Ok ()) w"
    using k_probes [OF assms Cons.prems] by (cases k) simp_all
  show ?case
    unfolding HealthZ_prog.simps by (rule k_steady.steady_bind [OF Cons.prems p]) (auto intro: Cons.IH)
qed

lemma k_health:
  assumes "vault_contract K" "k_ok K w"
  shows "upholds (k_rel K) (health_prog (k_deps K) run now duration req)
      (\<lambda>r u. r = (Ok (), write_body ''OK'' (WriteHeader 200 empty_reply))) w"
  unfolding health_prog_def
  by (rule k_steady.steady_bind [OF assms(2) k_HealthZ [OF assms]])
    (auto intro!: k_steady.steady_andthen [where P = "\<lambda>u. True"] k_steady.steady_Return k_tell)

subsection \<open>Logins and the refresher\<close>

lemma k_act:
  assumes "k_ok K w" "\<And>u r u'. k_ok K u \<Longrightarrow> f u = (r, u') \<Longrightarrow> k_rel K u u' \<and> T r"
  shows "upholds (k_rel K) (act f) (\<lambda>r u. T r) w"
  by (rule k_steady.steady_act [OF assms(1)]) (use assms(2) in blast)+

lemma k_true: "upholds (k_rel K) p Q w \<Longrightarrow> upholds (k_rel K) p (\<lambda>r u. True) w"
  by (rule k_steady.upholds_mono) simp_all

lemma k_then:
  "k_ok K w \<Longrightarrow> upholds (k_rel K) p (\<lambda>r u. True) w \<Longrightarrow> (\<And>u. k_ok K u \<Longrightarrow> upholds (k_rel K) q R u) \<Longrightarrow>
     upholds (k_rel K) (andthen p q) R w"
  by (rule k_steady.steady_andthen [where P = "\<lambda>u. True"]) (auto intro: k_true)

text \<open>A write to the client that leaves its API client, its method and its transit configuration.\<close>

definition minor :: "('c client \<Rightarrow> 'c client) \<Rightarrow> bool" where
  "minor g \<longleftrightarrow> (\<forall>c. api (g c) = api c \<and> AuthMethodFunc (g c) = AuthMethodFunc c
     \<and> TransitEngine (g c) = TransitEngine c \<and> TransitKey (g c) = TransitKey c)"

lemma k_minor: "k_ok K w \<Longrightarrow> minor g \<Longrightarrow> upholds (k_rel K) (modify g) (\<lambda>r w. True) w"
  by (rule k_modify) (simp_all add: k_ok_def minor_def)

lemma k_remember: "k_ok K w \<Longrightarrow> upholds (k_rel K) (modify (remember m)) (\<lambda>r w. True) w"
  by (rule k_modify) (auto simp: k_ok_def remember_def)

lemma k_SetToken:
  "k_ok K w \<Longrightarrow> (\<And>b. k_allowed K b \<Longrightarrow> k_allowed K (SetToken (k_deps K) b t)) \<Longrightarrow>
     upholds (k_rel K) (modify (\<lambda>c. c\<lparr>api := SetToken (k_deps K) (api c) t\<rparr>)) (\<lambda>r w. True) w"
  by (rule k_modify) (auto simp: k_ok_def)

definition k_token :: "('c, 't, 'v) contract \<Rightarrow> go_error + secret option \<Rightarrow> bool" where
  "k_token K x \<longleftrightarrow> (\<forall>s t b. x = Inr s \<longrightarrow> client_token s = Some t \<longrightarrow> k_allowed K b \<longrightarrow>
     k_allowed K (SetToken (k_deps K) b t))"

lemma k_adopt:
  assumes "k_ok K w" "k_token K (Inr s)" "client_token s = Some t"
  shows "upholds (k_rel K) (adopt_token (k_deps K) m t) (\<lambda>r u. True) w"
  unfolding adopt_token_def
  using assms by (intro k_then k_SetToken k_remember) (auto simp: k_token_def intro: k_steady.steady_Return)

lemma k_use_login:
  "k_ok K w \<Longrightarrow> k_token K x \<Longrightarrow> upholds (k_rel K) (use_login_prog (k_deps K) what m x) (\<lambda>r u. True) w"
  by (auto simp: use_login_prog_def intro: k_steady.steady_Return k_adopt split: sum.split option.split)

lemma k_write:
  assumes "vault_contract K" "k_ok K w"
  shows "upholds (k_rel K) (act (\<lambda>w. on_svc (Write (k_deps K) (a w) ctx p d) w)) (\<lambda>r u. k_token K r) w"
proof (rule k_act [OF assms(2)])
  fix u r u' assume u: "k_ok K u" "on_svc (Write (k_deps K) (a u) ctx p d) u = (r, u')"
  then have "keeps (k_up K) (k_known K) (svc u) (svc u')"
    using assms(1) by (intro write_keeps [OF _ _ u(2)]) (auto simp: vault_contract_def k_ok_def)
  moreover have "k_token K r"
  proof -
    obtain v' where "Write (k_deps K) (a u) ctx p d (svc u) = (r, v')"
      using u(2) by (auto simp: on_svc_def split: prod.splits)
    then show ?thesis
      using assms(1) unfolding vault_contract_def tokens_allowed_def k_token_def by blast
  qed
  ultimately show "k_rel K u u' \<and> k_token K r"
    using on_svc_heap [OF u(2)] by (simp add: k_rel_call)
qed

lemma k_source:
  assumes "vault_contract K" "k_ok K w"
  shows "upholds (k_rel K) (act (source_Token (k_deps K) src ctx)) (\<lambda>r u. True) w"
proof (rule k_act [OF assms(2)])
  fix u r u' assume u: "k_ok K u" "source_Token (k_deps K) src ctx u = (r, u')"
  have "keeps (k_up K) (k_known K) (svc u) (svc u')"
    by (rule source_keeps [OF _ _ u(2)]) (use assms(1) u(1) in \<open>auto simp: vault_contract_def k_ok_def\<close>)
  then show "k_rel K u u' \<and> True"
    using any_source.token_frame [OF u(2)] by (simp add: k_rel_call)
qed

lemma k_read: "k_ok K w \<Longrightarrow> upholds (k_rel K) (act (\<lambda>w. (f w, w))) (\<lambda>r u. True) w"
  by (rule k_act) (auto simp: k_steady.rel_refl)

lemma k_local:
  assumes "k_ok K w" "\<And>u r u'. f u = (r, u') \<Longrightarrow> heap u' = heap u \<and> svc u' = svc u"
  shows "upholds (k_rel K) (act f) (\<lambda>r u. True) w"
proof (rule k_act [OF assms(1)])
  fix u r u' assume u: "k_ok K u" "f u = (r, u')"
  then show "k_rel K u u' \<and> True"
    using assms(2) [OF u(2)] by (simp add: k_rel_call keeps_refl k_ok_def)
qed

lemma k_jwt_login:
  assumes "vault_contract K" "k_ok K w"
  shows "upholds (k_rel K) (jwt_login_prog (k_deps K) src mount role) (\<lambda>r u. True) w"
  unfolding jwt_login_prog_def login_write_def
proof (rule k_then [OF assms(2) k_minor [OF assms(2)]])
  fix u assume u: "k_ok K u"
  show "upholds (k_rel K) (bind_prog (act (source_Token (k_deps K) src Background)) (\<lambda>x. case x of
        Inl e \<Rightarrow> Return (Err e)
      | Inr jwtToken \<Rightarrow>
          bind_prog (act (\<lambda>w. on_svc (Write (k_deps K) (api (heap w)) Background (certAuthLoginPath mount)
              [(''role'', JString role), (''jwt'', JString jwtToken)]) w))
            (\<lambda>answer. case answer of
               Inl e \<Rightarrow> Return (Err (ErrWrap ''error performing jwt auth'' e))
             | Inr s \<Rightarrow>
                 (case client_token s of
                    None \<Rightarrow> Return (Err (ErrNew ''jwt auth: empty auth response from vault''))
                  | Some t \<Rightarrow> adopt_token (k_deps K) (WithJWTTokenSource mount role src) t)))) (\<lambda>r u. True) u"
    by (rule k_steady.steady_bind [OF u k_source [OF assms(1) u]])
      (auto intro!: k_steady.steady_bind k_write [OF assms(1)] k_adopt k_steady.steady_Return
        split: sum.split option.split)
qed (simp add: minor_def)

lemma k_cert_login:
  assumes "vault_contract K" "k_ok K w"
  shows "upholds (k_rel K) (cert_login_prog (k_deps K) mount role cf kf ca) (\<lambda>r u. True) w"
  unfolding cert_login_prog_def
  by (rule k_then [OF assms(2) k_minor [OF assms(2)]], simp add: minor_def)
    (auto intro!: k_steady.steady_bind [where Q = "\<lambda>r u. True"] k_steady.steady_bind [OF _ k_write [OF assms(1)]]
      k_local k_read k_use_login k_steady.steady_Return simp: on_os_def split: sum.split prod.splits)

lemma k_option:
  assumes "vault_contract K" "k_ok K w"
  shows "upholds (k_rel K) (option_prog (k_deps K) (k_method K)) (\<lambda>r u. True) w"
proof -
  have m: "logs_in (k_method K)" "\<And>t b. k_method K = WithTokenAuth t \<Longrightarrow> k_allowed K b \<Longrightarrow> k_allowed K (SetToken (k_deps K) b t)"
    using assms(1) by (auto simp: vault_contract_def tokens_allowed_def)
  show ?thesis
  proof (cases "k_method K")
    case (WithTokenAuth t)
    with m(2) show ?thesis
      by (auto intro!: k_then k_minor k_SetToken k_remember k_steady.steady_Return assms(2) simp: minor_def)
  next
    case (WithAppRoleAuth mount r s)
    then show ?thesis
      by (auto simp: login_write_def minor_def
          intro!: k_then k_minor assms(2) k_steady.steady_bind [OF _ k_write [OF assms(1)]] k_use_login)
  next
    case (WithUserPassAuth mount u p)
    then show ?thesis
      by (auto simp: login_write_def minor_def
          intro!: k_then k_minor assms(2) k_steady.steady_bind [OF _ k_write [OF assms(1)]] k_use_login)
  qed (use m(1) assms in \<open>auto intro: k_cert_login k_jwt_login k_steady.steady_Return split: sum.split\<close>)
qed

lemma k_AuthMethod:
  assumes "vault_contract K" "k_ok K w"
  shows "upholds (k_rel K) (AuthMethod_prog (k_deps K)) (\<lambda>r u. True) w"
  unfolding AuthMethod_prog_def
proof (rule k_steady.steady_bind [OF assms(2), where Q = "\<lambda>f u. f = Some (k_method K)"])
  show "upholds (k_rel K) (act (\<lambda>w. (AuthMethodFunc (heap w), w))) (\<lambda>f u. f = Some (k_method K)) w"
    by (rule k_act [OF assms(2)]) (auto simp: k_steady.rel_refl k_ok_def)
qed (use k_option [OF assms(1)] in simp)

lemma k_lines:
  "k_ok K w \<Longrightarrow> upholds (k_rel K) (info_line m fs) (\<lambda>r u. True) w"
  "k_ok K w \<Longrightarrow> upholds (k_rel K) (error_line m fs) (\<lambda>r u. True) w"
  unfolding info_line_def error_line_def by (auto intro: k_then k_tell k_steady.steady_Return)

lemma k_bind:
  "k_ok K w \<Longrightarrow> upholds (k_rel K) p (\<lambda>r u. True) w \<Longrightarrow> (\<And>r u. k_ok K u \<Longrightarrow> upholds (k_rel K) (g r) (\<lambda>r u. True) u) \<Longrightarrow>
     upholds (k_rel K) (bind_prog p g) (\<lambda>r u. True) w"
  by (rule k_steady.steady_bind)

lemma k_bind_ok:
  "k_ok K w \<Longrightarrow> upholds (k_rel K) p (\<lambda>r u. True) w \<Longrightarrow> (\<And>r u. k_ok K u \<Longrightarrow> upholds (k_rel K) (g r) (\<lambda>r u. True) u) \<Longrightarrow>
     upholds (k_rel K) (bind_ok p g) (\<lambda>r u. True) w"
  unfolding bind_ok_def by (rule k_bind) (auto intro: k_steady.steady_Return split: outcome.split)

lemma k_token_calls:
  assumes "vault_contract K" "k_ok K w"
  shows "upholds (k_rel K) (LookupSelf_prog (k_deps K)) (\<lambda>r u. True) w"
    and "upholds (k_rel K) (act (\<lambda>w. on_svc (RenewSelf (k_deps K) (api (heap w)) n) w)) (\<lambda>r u. True) w"
proof -
  have v: "vault_keeps (k_deps K) (k_up K) (k_known K)"
    using assms(1) by (simp add: vault_contract_def)
  have "keeps (k_up K) (k_known K) (svc u) (snd (LookupSelf (k_deps K) a (svc u)))"
    "keeps (k_up K) (k_known K) (svc u) (snd (RenewSelf (k_deps K) a n (svc u)))" if "k_ok K u" for u a
    using v that unfolding vault_keeps_def k_ok_def by blast+
  then have "on_svc (LookupSelf (k_deps K) a) u = (r, u') \<Longrightarrow> k_rel K u u'"
    "on_svc (RenewSelf (k_deps K) a n) u = (r', u') \<Longrightarrow> k_rel K u u'" for u u' a r r'
    by (metis k_rel_call on_svc_svc on_svc_heap)+
  then show "upholds (k_rel K) (LookupSelf_prog (k_deps K)) (\<lambda>r u. True) w"
    "upholds (k_rel K) (act (\<lambda>w. on_svc (RenewSelf (k_deps K) (api (heap w)) n) w)) (\<lambda>r u. True) w"
    unfolding LookupSelf_prog_def by (auto intro: k_act [OF assms(2)])
qed

lemmas k_rules = k_then k_bind k_bind_ok k_tell k_lines k_token_calls k_AuthMethod k_read k_steady.steady_Return

lemma k_log_result:
  "k_ok K w \<Longrightarrow> upholds (k_rel K) p (\<lambda>r u. True) w \<Longrightarrow> upholds (k_rel K) (log_result m p) (\<lambda>r u. True) w"
  unfolding log_result_def by (rule k_bind) (auto intro: k_lines k_steady.steady_Return split: outcome.split)

lemma k_lookup_failed:
  "vault_contract K \<Longrightarrow> k_ok K w \<Longrightarrow> upholds (k_rel K) (lookup_failed_prog (k_deps K) e) (\<lambda>r u. True) w"
  unfolding lookup_failed_prog_def authenticateAndVerify_prog_def
  by (auto intro!: k_rules k_log_result)

lemma k_renew:
  "vault_contract K \<Longrightarrow> k_ok K w \<Longrightarrow> upholds (k_rel K) (renew_token_prog (k_deps K)) (\<lambda>r u. True) w"
  unfolding renew_token_prog_def
  by (auto intro!: k_rules k_log_result split: sum.split)

lemma k_check_ttl:
  "vault_contract K \<Longrightarrow> k_ok K w \<Longrightarrow> upholds (k_rel K) (check_ttl_prog (k_deps K) a b) (\<lambda>r u. True) w"
  unfolding check_ttl_prog_def by (auto intro!: k_rules k_renew)

lemma k_tick:
  "vault_contract K \<Longrightarrow> k_ok K w \<Longrightarrow> upholds (k_rel K) (lease_tick_prog (k_deps K)) (\<lambda>r u. True) w"
  unfolding lease_tick_prog_def
  by (rule k_bind [OF _ k_token_calls(1)])
    (auto intro!: k_lines k_lookup_failed k_check_ttl k_steady.steady_Return split: sum.split option.split)

subsection \<open>Jobs\<close>

text \<open>
  What a job owes when it ends: an encryption a stored ciphertext, a decryption of the ciphertext of
  \<open>S\<close>, stored when the job was started, its plaintext, a probe success, a status report \<open>ok\<close>.
\<close>

fun serve_post :: "('c, 't, 'v) contract \<Rightarrow> (bytes \<times> bytes) option \<Rightarrow> kms_request \<Rightarrow> kms_reply \<Rightarrow>
    ('c client, 'v) world \<Rightarrow> bool" where
  "serve_post K S (V1EncryptRequest x) a w \<longleftrightarrow> (\<exists>ct. ciphertext_of a = Some ct \<and> k_stored K ct x w)"
| "serve_post K S (V2EncryptRequest x uid) a w \<longleftrightarrow> (\<exists>ct. ciphertext_of a = Some ct \<and> k_stored K ct x w)"
| "serve_post K S (V1DecryptRequest c) a w \<longleftrightarrow> (\<forall>x. S = Some (c, x) \<longrightarrow> plaintext_of a = Some x)"
| "serve_post K S (V2DecryptRequest c uid) a w \<longleftrightarrow> (\<forall>x. S = Some (c, x) \<longrightarrow> plaintext_of a = Some x)"
| "serve_post K S V1HealthProbe a w \<longleftrightarrow> a = Probed (Ok ())"
| "serve_post K S (V2HealthProbe now) a w \<longleftrightarrow> a = Probed (Ok ())"
| "serve_post K S (V2StatusRequest now) a w \<longleftrightarrow> (\<exists>s. a = StatusReport (Ok s) \<and> v2_Healthz s = ''ok'')"

fun job_post :: "('c, 't, 'v) contract \<Rightarrow> (bytes \<times> bytes) option \<Rightarrow> job \<Rightarrow> job_result \<Rightarrow>
    ('c client, 'v) world \<Rightarrow> bool" where
  "job_post K S (ServeRequest ctx q) (Replied a) w \<longleftrightarrow> serve_post K S q a w"
| "job_post K S (AnswerHealth now duration req) (Answered x) w \<longleftrightarrow>
     x = (Ok (), write_body ''OK'' (WriteHeader 200 empty_reply))"
| "job_post K S RefreshTick (Ticked r) w \<longleftrightarrow> True"
| "job_post K S j r w \<longleftrightarrow> False"

definition S_stored :: "('c, 't, 'v) contract \<Rightarrow> (bytes \<times> bytes) option \<Rightarrow> ('c client, 'v) world \<Rightarrow> bool" where
  "S_stored K S w \<longleftrightarrow> (case S of None \<Rightarrow> True | Some (ct, x) \<Rightarrow> k_stored K ct x w)"

lemma S_stored_rel: "k_ok K w \<Longrightarrow> S_stored K S w \<Longrightarrow> k_rel K w w' \<Longrightarrow> S_stored K S w'"
  by (auto simp: S_stored_def intro: k_stored_rel split: option.splits)

lemma k_serve:
  assumes "vault_contract K" "k_ok K w" "S_stored K S w"
  shows "upholds (k_rel K) (kms_prog (k_deps K) ctx q) (serve_post K S q) w"
proof -
  have d1: "upholds (k_rel K) (v1_decrypt_prog (k_deps K) ctx c True)
      (\<lambda>r u. \<forall>x. S = Some (c, x) \<longrightarrow> plaintext_of (V1Decrypted r) = Some x) w" for c
    by (rule k_steady.upholds_mono [OF k_decrypts(1) [OF assms(1,2), where x = "snd (the S)"]])
      (use assms(3) in \<open>auto simp: S_stored_def\<close>)
  have d2: "upholds (k_rel K) (v2_decrypt_prog (k_deps K) ctx c uid True)
      (\<lambda>r u. \<forall>x. S = Some (c, x) \<longrightarrow> plaintext_of (V2Decrypted r) = Some x) w" for c uid
    by (rule k_steady.upholds_mono [OF k_decrypts(2) [OF assms(1,2), where x = "snd (the S)"]])
      (use assms(3) in \<open>auto simp: S_stored_def\<close>)
  show ?thesis
  proof (cases q)
    case (V1EncryptRequest x)
    then show ?thesis
      by (auto simp: upholds_reply intro!: k_steady.upholds_mono [OF k_encrypts(1) [OF assms(1,2)]])
  next
    case (V2EncryptRequest x uid)
    then show ?thesis
      by (auto simp: upholds_reply intro!: k_steady.upholds_mono [OF k_encrypts(2) [OF assms(1,2)]])
  next
    case V1HealthProbe
    then show ?thesis by (auto simp: upholds_reply intro!: k_steady.upholds_mono [OF k_probes(1) [OF assms(1,2)]])
  next
    case (V2HealthProbe now)
    then show ?thesis by (auto simp: upholds_reply intro!: k_steady.upholds_mono [OF k_probes(2) [OF assms(1,2)]])
  next
    case (V2StatusRequest now)
    then show ?thesis by (auto simp: upholds_reply intro!: k_steady.upholds_mono [OF k_Status [OF assms(1,2)]])
  next
    case (V1DecryptRequest c)
    then show ?thesis by (auto simp: upholds_reply intro: k_steady.upholds_mono [OF d1])
  next
    case (V2DecryptRequest c uid)
    then show ?thesis by (auto simp: upholds_reply intro: k_steady.upholds_mono [OF d2])
  qed
qed

lemma k_job:
  assumes "vault_contract K" "k_ok K w" "S_stored K S w"
  shows "upholds (k_rel K) (job_prog (k_deps K) run j) (job_post K S j) w"
proof (cases j)
  case (ServeRequest ctx q)
  then show ?thesis by (auto simp: upholds_reply intro: k_steady.upholds_mono [OF k_serve [OF assms]])
next
  case (AnswerHealth now duration req)
  then show ?thesis by (auto simp: upholds_reply intro: k_steady.upholds_mono [OF k_health [OF assms(1,2)]])
next
  case RefreshTick
  then show ?thesis by (auto simp: upholds_reply intro: k_steady.upholds_mono [OF k_tick [OF assms(1,2)]])
qed

text \<open>Every schedule, from a pool whose goroutines uphold what they owe.\<close>

lemma k_run:
  assumes "vault_contract K" "\<And>v v'. k_up K v \<Longrightarrow> outside v v' \<Longrightarrow> keeps (k_up K) (k_known K) v v'"
    and "threads_run (k_deps K) run outside (pool, w) (pool', w')" "k_ok K w" "S_stored K S w"
    and "pool_upholds (k_rel K) (\<lambda>i. job_post K (T i)) (pool, w)" "\<And>i. T i = S \<or> T i = None"
  shows "k_ok K w'" and "pool_upholds (k_rel K) (\<lambda>i. job_post K (T i)) (pool', w')"
    and "S_stored K S w'"
proof -
  have i: "interference (k_rel K)" by unfold_locales
  have "k_rel K (snd (pool, w)) (snd (pool', w')) \<and> (k_ok K (snd (pool', w')) \<and> S_stored K S (snd (pool', w')))
      \<and> pool_upholds (k_rel K) (\<lambda>i. job_post K (T i)) (pool', w')"
  proof (rule threads_run_upholds [OF assms(3) i assms(6), where ok = "\<lambda>w. k_ok K w \<and> S_stored K S w"])
    show "k_ok K (snd (pool, w)) \<and> S_stored K S (snd (pool, w))" using assms(4,5) by simp
  next
    fix w w' assume "k_ok K w \<and> S_stored K S w" "k_rel K w w'"
    then show "k_ok K w' \<and> S_stored K S w'"
      using S_stored_rel k_steady.ok_rel by blast
  next
    fix w v assume "k_ok K w \<and> S_stored K S w" "outside (svc w) v"
    then show "k_rel K w (w\<lparr>svc := v\<rparr>)"
      using assms(2) [of "svc w" v] by (simp add: k_rel_call k_ok_def)
  next
    fix i j w assume w: "k_ok K w \<and> S_stored K S w"
    then have "S_stored K (T i) w" using assms(7) [of i] by (auto simp: S_stored_def)
    then show "upholds (k_rel K) (job_prog (k_deps K) run j) (job_post K (T i) j) w"
      using k_job [OF assms(1)] w by blast
  qed
  then show "k_ok K w'" "pool_upholds (k_rel K) (\<lambda>i. job_post K (T i)) (pool', w')" "S_stored K S w'" by simp_all
qed

text \<open>What a goroutine that has ended has done.\<close>

lemma ended_post:
  assumes "pool_upholds (k_rel K) (\<lambda>i. job_post K (T i)) (pool, w)" "i < length pool" "pool ! i = (j, Return r)"
  shows "job_post K (T i) j r w"
proof -
  have "upholds (k_rel K) (Return r) (job_post K (T i) j) w"
    using assms(1) [unfolded pool_upholds_def, rule_format, of i] assms(2,3) by simp
  then show ?thesis by (rule k_steady.upholds_Return)
qed

text \<open>What a goroutine owes that was started after a ciphertext was stored.\<close>

lemma later_post:
  assumes "vault_contract K" "\<And>v v'. k_up K v \<Longrightarrow> outside v v' \<Longrightarrow> keeps (k_up K) (k_known K) v v'"
    and "threads_run (k_deps K) run outside (pool, w1) (pool', w2)" "k_ok K w1"
    and "pool_upholds (k_rel K) (\<lambda>i. job_post K None) (pool, w1)" "k_stored K ct x w1"
    and "length pool \<le> n" "n < length pool'" "pool' ! n = (j, Return y)"
  shows "job_post K (Some (ct, x)) j y w2"
proof -
  let ?T = "\<lambda>i. if i < length pool then None else Some (ct, x)"
  have "pool_upholds (k_rel K) (\<lambda>i. job_post K (?T i)) (pool, w1)"
    unfolding pool_upholds_def fst_conv snd_conv
  proof (intro allI impI)
    fix l assume l: "l < length pool"
    then have "?T l = None" by simp
    with assms(5) [unfolded pool_upholds_def fst_conv snd_conv, rule_format, OF l]
    show "upholds (k_rel K) (snd (pool ! l)) (job_post K (?T l) (fst (pool ! l))) w1" by (simp only:)
  qed
  moreover have "S_stored K (Some (ct, x)) w1" using assms(6) by (simp add: S_stored_def)
  ultimately have "pool_upholds (k_rel K) (\<lambda>i. job_post K (?T i)) (pool', w2)"
    by (intro k_run(2) [OF assms(1,2,3,4), where S = "Some (ct, x)" and T = ?T]) auto
  from ended_post [OF this assms(8,9)] assms(7) show ?thesis by simp
qed

text \<open>An encryption over a working key does not panic.\<close>

lemma served_no_crash:
  assumes "transit_service D (api (heap w)) (TransitEngine (heap w)) (TransitKey (heap w)) up known"
    and "up (svc w)" "encrypts x q" "kms_serve (vault_plugin D) ctx q w = (a, w')"
  shows "reply_crash a = None"
proof -
  from served_encrypts [OF assms(1-3), of ctx] assms(4)
  obtain ct where "ciphertext_of a = Some ct" by (auto simp del: kms_serve.simps)
  then show ?thesis by (cases a rule: ciphertext_of.cases) simp_all
qed

end
