(* ===== verification/Stopping_Properties.thy ===== *)
theory Stopping_Properties
  imports Plugin_Stopping Thread_Serving Plugin_Properties
begin

text \<open>
  What is proved of the end of the process with its goroutines: a stop returns, it answers what it has
  accepted, it waits for nothing else, and what happens when the HTTP server cannot be shut down.
\<close>

subsection \<open>Goroutines come to an end\<close>

text \<open>What is left of a program after an action.\<close>

definition rest_of :: "(('w, 'r) prog \<times> ('w, 'r) prog) set" where
  "rest_of = {(k w, Atom k f) | k f w. True}"

lemma wf_rest_of: "wf rest_of"
  unfolding wf_def
proof (intro allI impI)
  fix P :: "('w, 'r) prog \<Rightarrow> bool" and p :: "('w, 'r) prog"
  assume *: "\<forall>x. (\<forall>y. (y, x) \<in> rest_of \<longrightarrow> P y) \<longrightarrow> P x"
  show "P p"
  proof (induction p)
    case (Atom k f)
    then have "\<forall>y. (y, Atom k f) \<in> rest_of \<longrightarrow> P y" by (auto simp: rest_of_def)
    with * show ?case by blast
  qed (use * in \<open>auto simp: rest_of_def\<close>)
qed

definition programs :: "('c, 'v) process \<Rightarrow> (('c client, 'v) world, job_result) prog multiset" where
  "programs s = mset (map snd (p_pool s))"

lemma goroutine_step:
  assumes "process_step D run opts E outside (Goroutine (Step i)) s = Some t"
  obtains j k f where "i < length (p_pool s)" "p_pool s ! i = (j, Atom k f)"
    "p_pool t = (p_pool s)[i := (j, k (p_world s))]"
proof -
  have "alive (p_pool s)" using assms by (auto simp: process_step_def split: if_splits)
  from running_alive [OF assms this] show thesis
    using that by (auto split: if_splits option.splits prod.splits prog.splits)
qed

lemma goroutine_less:
  assumes "process_step D run opts E outside (Goroutine (Step i)) s = Some t"
  shows "(programs t, programs s) \<in> mult1 rest_of"
proof -
  obtain j k f where i: "i < length (p_pool s)" "p_pool s ! i = (j, Atom k f)"
    "p_pool t = (p_pool s)[i := (j, k (p_world s))]"
    by (rule goroutine_step [OF assms])
  let ?ps = "map snd (p_pool s)"
  have a: "?ps ! i = Atom k f" "i < length ?ps" using i(1,2) by simp_all
  have "programs s = add_mset (Atom k f) (mset ?ps - {#Atom k f#})"
    using a by (metis insert_DiffM nth_mem_mset programs_def)
  moreover have "programs t = (mset ?ps - {#Atom k f#}) + {#k (p_world s)#}"
    using a by (simp add: programs_def i(3) map_update mset_update)
  ultimately show ?thesis by (rule mult1I) (auto simp: rest_of_def)
qed

lemma wf_goroutines: "wf {(t, s). \<exists>i. process_step D run opts E outside (Goroutine (Step i)) s = Some t}"
proof (rule wf_subset)
  show "wf (inv_image (mult1 rest_of) programs)" by (intro wf_inv_image wf_mult1 wf_rest_of)
qed (auto simp: goroutine_less)

text \<open>When no goroutine can go on, all have ended, or one has panicked.\<close>

lemma goroutines_stuck:
  assumes "\<forall>i. process_step D run opts E outside (Goroutine (Step i)) s = None"
    and "\<not> exited (p_phase s)" "alive (p_pool s)"
  shows "\<not> unfinished P (p_pool s)"
proof
  assume "unfinished P (p_pool s)"
  then obtain i where i: "i < length (p_pool s)" "finished (snd (p_pool s ! i)) = None"
    by (auto simp: unfinished_nth)
  obtain j p where p: "p_pool s ! i = (j, p)" by fastforce
  then obtain k f where "p = Atom k f" using i(2) by (cases p) auto
  with i p assms(2,3) have "process_step D run opts E outside (Goroutine (Step i)) s \<noteq> None"
    by (simp add: process_step_def)
  with assms(1) show False by simp
qed

lemma ends_process_crash: "ends_process r \<longleftrightarrow> crash_of r \<noteq> None"
proof (cases r)
  case (Ticked x)
  then show ?thesis by (cases x) simp_all
qed simp_all

lemma dead_panics:
  assumes "\<not> alive (p_pool s)" "\<not> exited (p_phase s)"
  shows "\<exists>i k t. process_step D run opts E outside (GoroutinePanics i) s = Some t \<and> p_phase t = Exited (ExitPanic k)"
proof -
  from assms(1) obtain i r where i: "i < length (p_pool s)" "snd (p_pool s ! i) = Return r" "ends_process r"
    by (auto simp: alive_nth)
  then obtain k where "crash_of r = Some k" by (auto simp: ends_process_crash)
  with i assms have "process_step D run opts E outside (GoroutinePanics i) s = Some (exit_with (ExitPanic k, p_world s) s)"
    by (simp add: process_step_def)
  moreover have "p_phase (exit_with (ExitPanic k, p_world s) s) = Exited (ExitPanic k)" by (simp add: exit_with_def)
  ultimately show ?thesis by blast
qed

subsection \<open>Schedules are lives of the process\<close>

definition serves_registered :: "running \<Rightarrow> ('c, 'v) pool \<Rightarrow> bool" where
  "serves_registered run pool \<longleftrightarrow>
     (\<forall>i < length pool. \<forall>ctx q. fst (pool ! i) = ServeRequest ctx q \<longrightarrow> registered run q)"

lemma serves_registered_before:
  assumes "thread_step D run outside c (pool, w) = Some (pool', w')" "serves_registered run pool'"
  shows "serves_registered run pool" and "c = Start j \<Longrightarrow> may_start run Serving Ticking j"
proof -
  note p = thread_step_pool [OF assms(1)]
  show "serves_registered run pool"
    using p assms(2) unfolding serves_registered_def by (metis order_less_le_trans)
  show "may_start run Serving Ticking j" if "c = Start j"
  proof -
    from assms(1) that have "pool' = pool @ [(j, job_prog D run j)]" by (auto split: if_splits)
    then have "pool' ! length pool = (j, job_prog D run j)" "length pool < length pool'" by simp_all
    with assms(2) show ?thesis by (cases j) (auto simp: serves_registered_def)
  qed
qed

lemma thread_step_alive:
  "thread_step D run outside c (pool, w) = Some (pool', w') \<Longrightarrow> alive pool' \<Longrightarrow> alive pool"
  by (cases c) (auto split: if_splits)

lemma schedule_is_life:
  "threads_run D run outside s t \<Longrightarrow> alive (fst t) \<Longrightarrow> serves_registered run (fst t) \<Longrightarrow>
     process_moves D run opts E outside
       \<lparr>p_phase = Serving, p_ticker = Ticking, p_pool = fst s, p_world = snd s\<rparr>
       \<lparr>p_phase = Serving, p_ticker = Ticking, p_pool = fst t, p_world = snd t\<rparr>"
proof (induction rule: threads_run.induct)
  case (threads_step s t c u)
  let ?p = "\<lambda>x :: ('a, 'c) pool \<times> ('a client, 'c) world. \<lparr>p_phase = Serving, p_ticker = Ticking, p_pool = fst x, p_world = snd x\<rparr>"
  have c: "thread_step D run outside c (fst t, snd t) = Some (fst u, snd u)" using threads_step by simp
  have a: "alive (fst t)" by (rule thread_step_alive [OF c threads_step.prems(1)])
  note r = serves_registered_before [OF c threads_step.prems(2)]
  have "process_step D run opts E outside (Goroutine c) (?p t) = Some (?p u)"
    using c a r(2) by (auto simp: process_step_def split: prod.split)
  from moves_step [OF threads_step.IH [OF a r(1)] this] show ?case .
qed (rule moves_refl)

lemma moves_trans:
  "process_moves D run opts E outside t u \<Longrightarrow> process_moves D run opts E outside s t \<Longrightarrow> process_moves D run opts E outside s u"
  by (induction rule: process_moves.induct) (auto intro: moves_step)

lemma exited_moves: "process_moves D run opts E outside s t \<Longrightarrow> exited (p_phase s) \<Longrightarrow> t = s"
  by (induction rule: process_moves.induct) (auto simp: process_step_def)

subsection \<open>A concrete stop\<close>

definition demo_sentinels :: sentinels where
  "demo_sentinels = \<lparr>is_ErrServerStopped = (\<lambda>e. e = ErrNew ''grpc: the server has been stopped''),
     is_net_ErrClosed = (\<lambda>e. e = ErrNew ''use of closed network connection''),
     is_http_ErrServerClosed = (\<lambda>e. e = ErrNew ''http: Server closed'')\<rparr>"

text \<open>The signal comes while an encryption is pending.\<close>

lemma demo_pending:
  obtains k f where "process_moves demo_deps demo_running demo_options demo_sentinels (=) (launched demo_started)
    \<lparr>p_phase = Stopping, p_ticker = NotStarted,
     p_pool = [(ServeRequest Background (V2EncryptRequest ''secret'' ''u''), Atom k f)],
     p_world = signal_received ''terminated'' demo_started\<rparr>"
proof -
  let ?j = "ServeRequest Background (V2EncryptRequest ''secret'' ''u'')"
  obtain k f where j: "job_prog demo_deps demo_running ?j = Atom k f"
    by (simp add: reply_prog_def v2_encrypt_prog_def measured_def Let_def Encrypt_prog_def bind_ok_def act_def)
  let ?s = "(launched demo_started)\<lparr>p_pool := [(?j, Atom k f)]\<rparr>"
  have 1: "process_step demo_deps demo_running demo_options demo_sentinels (=) (Goroutine (Start ?j)) (launched demo_started) = Some ?s"
    using j by (simp add: process_step_def launched_def alive_def demo_running_def)
  have 2: "process_step demo_deps demo_running demo_options demo_sentinels (=) (SignalArrives SIGTERM) ?s
      = Some (?s\<lparr>p_phase := Stopping, p_world := signal_received ''terminated'' demo_started\<rparr>)"
    by (simp add: process_step_def launched_def alive_def shutDownSignal_def notified_def)
  from moves_step [OF moves_step [OF moves_refl 1] 2] that show thesis by (simp add: launched_def)
qed

lemma demo_draining:
  obtains k f where "process_moves demo_deps demo_running demo_options demo_sentinels (=) (launched demo_started)
    \<lparr>p_phase = Draining, p_ticker = NotStarted,
     p_pool = [(ServeRequest Background (V2EncryptRequest ''secret'' ''u''), Atom k f)],
     p_world = signal_received ''terminated'' demo_started\<rparr>"
proof -
  obtain k f where 1: "process_moves demo_deps demo_running demo_options demo_sentinels (=) (launched demo_started)
    \<lparr>p_phase = Stopping, p_ticker = NotStarted,
     p_pool = [(ServeRequest Background (V2EncryptRequest ''secret'' ''u''), Atom k f)],
     p_world = signal_received ''terminated'' demo_started\<rparr>" by (rule demo_pending)
  have "process_step demo_deps demo_running demo_options demo_sentinels (=) (HTTPShutdown None)
    \<lparr>p_phase = Stopping, p_ticker = NotStarted,
     p_pool = [(ServeRequest Background (V2EncryptRequest ''secret'' ''u''), Atom k f)],
     p_world = signal_received ''terminated'' demo_started\<rparr> = Some
    \<lparr>p_phase = Draining, p_ticker = NotStarted,
     p_pool = [(ServeRequest Background (V2EncryptRequest ''secret'' ''u''), Atom k f)],
     p_world = signal_received ''terminated'' demo_started\<rparr>"
    by (simp add: process_step_def alive_def unfinished_def)
  from moves_step [OF 1 this] that show thesis by blast
qed

text \<open>The refresher runs, and an encryption is answered before the signal comes.\<close>

lemma demo_client_started:
  "transit_service demo_deps (api (heap demo_started)) (TransitEngine (heap demo_started))
     (TransitKey (heap demo_started)) (\<lambda>v. True) demo_known"
proof -
  have "config_of (heap demo_started) = (o_TransitMount demo_options, o_TransitKey demo_options, o_TokenRenewalSeconds demo_options)"
    by (rule started_client(1) [OF demo_start demo_complete])
  then have "TransitEngine (heap demo_started) = ''transit''" "TransitKey (heap demo_started) = ''kms''"
    by (simp_all add: config_of_def demo_options_def zero_options_def)
  then show ?thesis using demo_transit_service by simp
qed

lemma demo_ticking:
  obtains w1 where "process_moves demo_deps demo_running demo_options demo_sentinels (=) (launched demo_started)
    \<lparr>p_phase = Serving, p_ticker = Ticking, p_pool = [], p_world = w1\<rparr>" "heap w1 = heap demo_started"
proof -
  have u: "unitMap ''s'' = Some 1000000000" by (simp add: unitMap_def)
  have s: "show_nat 60 @ ''s'' = ''60s''" by code_simp
  have d: "ParseDuration ''60s'' = Inr 60000000000"
    using ParseDuration_whole [OF u, of 60] unfolding s by simp
  have o: "o_TokenRefreshInterval demo_options = ''60s''" by (simp add: demo_options_def zero_options_def)
  let ?w = "log_info ''Starting token refresher''
      [FString ''interval'' (o_TokenRefreshInterval demo_options),
       FInt ''renewal-seconds'' (o_TokenRenewalSeconds demo_options)] demo_started"
  have "token_refresher demo_deps demo_options [] demo_started = (Waiting, ?w)"
    by (simp add: token_refresher_def LeaseRefresher_def d o)
  then have "process_step demo_deps demo_running demo_options demo_sentinels (=) StartRefresher (launched demo_started)
      = Some \<lparr>p_phase = Serving, p_ticker = Ticking, p_pool = [], p_world = ?w\<rparr>"
    by (simp add: process_step_def launched_def alive_def)
  from that [OF moves_step [OF moves_refl this]] show thesis by simp
qed

lemma demo_served:
  assumes "kms_serve (vault_plugin demo_deps) Background q w1 = (b, w2)" "reply_crash b = None"
    and "process_moves demo_deps demo_running demo_options demo_sentinels (=) (launched demo_started)
      \<lparr>p_phase = Serving, p_ticker = Ticking, p_pool = [], p_world = w1\<rparr>" "registered demo_running q"
  shows "process_moves demo_deps demo_running demo_options demo_sentinels (=) (launched demo_started)
      \<lparr>p_phase = Serving, p_ticker = Ticking, p_pool = [(ServeRequest Background q, Return (Replied b))], p_world = w2\<rparr>"
proof -
  let ?pool = "[(ServeRequest Background q, Return (Replied b))] :: (demo_api, demo_state) pool"
  have "threads_run demo_deps demo_running (=) ([], w1) (?pool, w2)"
    using run_job [of "[]" "ServeRequest Background q" demo_deps demo_running w1 "Replied b" w2 "(=)"] assms(1)
    by (simp add: alive_def)
  from schedule_is_life [OF this] assms(2,4)
  have "process_moves demo_deps demo_running demo_options demo_sentinels (=)
      \<lparr>p_phase = Serving, p_ticker = Ticking, p_pool = [], p_world = w1\<rparr>
      \<lparr>p_phase = Serving, p_ticker = Ticking, p_pool = ?pool, p_world = w2\<rparr>"
    by (simp add: alive_def serves_registered_def)
  from moves_trans [OF this assms(3)] show ?thesis .
qed

lemma demo_answered:
  obtains a w where "process_moves demo_deps demo_running demo_options demo_sentinels (=) (launched demo_started)
    \<lparr>p_phase = Draining, p_ticker = Ticking,
     p_pool = [(ServeRequest Background (V2EncryptRequest ''secret'' ''u''), Return (Replied a))], p_world = w\<rparr>"
    "reply_crash a = None"
proof -
  let ?q = "V2EncryptRequest ''secret'' ''u''"
  obtain w1 where w1: "process_moves demo_deps demo_running demo_options demo_sentinels (=) (launched demo_started)
    \<lparr>p_phase = Serving, p_ticker = Ticking, p_pool = [], p_world = w1\<rparr>" "heap w1 = heap demo_started"
    by (rule demo_ticking)
  obtain a w2 where a: "kms_serve (vault_plugin demo_deps) Background ?q w1 = (a, w2)" by fastforce
  have "reply_crash a = None"
    by (rule served_no_crash [OF _ TrueI _ a, of demo_known "''secret''"])
      (use demo_client_started w1(2) in simp_all)
  let ?s = "\<lambda>ph w. \<lparr>p_phase = ph, p_ticker = Ticking, p_pool = [(ServeRequest Background ?q, Return (Replied a))], p_world = w\<rparr>"
  have "registered demo_running ?q" by (simp add: demo_running_def)
  note 1 = demo_served [OF a \<open>reply_crash a = None\<close> w1(1) this]
  let ?w3 = "signal_received ''terminated'' w2"
  have 2: "process_step demo_deps demo_running demo_options demo_sentinels (=) (SignalArrives SIGTERM) (?s Serving w2) = Some (?s Stopping ?w3)"
    "process_step demo_deps demo_running demo_options demo_sentinels (=) (HTTPShutdown None) (?s Stopping ?w3) = Some (?s Draining ?w3)"
    using \<open>reply_crash a = None\<close>
    by (simp_all add: process_step_def alive_def shutDownSignal_def notified_def unfinished_def)
  from that [OF moves_step [OF moves_step [OF 1 2(1)] 2(2)] \<open>reply_crash a = None\<close>] show thesis .
qed

subsection \<open>Properties\<close>

text \<open>
  C7. A process that returns after a signal has answered every request it accepted, none with a panic,
  and no probe is pending; the operation metrics count exactly those answers, and of the files of the
  system only the path of the socket can have changed, in whatever way the goroutines interleaved.
\<close>

theorem graceful_exit:
  assumes "read_options parse D env args = Run opts" "start_plugin D logger opts none w = (Inr run, w1)"
    and "process_moves D run opts E outside (launched w1) s" "p_phase s = Exited ExitNil"
    and "removes (os w)" "reads_only D"
  shows "(\<exists>as. answered (p_pool s) = Some as \<and> list_all (\<lambda>a. reply_crash a = None) as
        \<and> op_meter (events (p_world s)) = add4 (op_meter (events w)) (charges as))
    \<and> \<not> unfinished is_health (p_pool s)
    \<and> os_files (os (p_world s)) = (os_files (os w))(run_listener run := None)"
proof -
  have ok: "process_ok (op_meter (events w1)) s" by (rule process_moves_ok [OF assms(3) launched_ok(1)])
  have st: "\<not> unfinished is_health (p_pool s)" "\<not> unfinished is_request (p_pool s)" "alive (p_pool s)"
    using ok assms(4) by (simp_all add: process_ok_def)
  obtain as where as: "answered (p_pool s) = Some as"
    "op_meter (events (p_world s)) = add4 (op_meter (events w1)) (charges as)"
    using pool_answered [OF ok st(2)] by blast
  have "list_all (\<lambda>a. reply_crash a = None) as"
    using answered_alive [OF as(1) st(3)] by (simp add: list_all_iff)
  moreover have "op_meter (events w1) = op_meter (events w)"
    by (rule only_logs_meter [OF start_events [OF assms(2)]])
  moreover have "process_files_ok run w1 s"
    by (rule process_moves_files [OF assms(3,6) launched_ok(2)])
  then obtain w2 e where "same_files w1 w2" "p_world s = snd (shut_down run e w2)"
    using assms(4) by (auto simp: process_files_ok_def)
  with shut_down_files [OF assms(2,5,6)]
  have "os_files (os (p_world s)) = (os_files (os w))(run_listener run := None)" by simp
  ultimately show ?thesis using as st(1) by auto
qed

theorem graceful_exit_witness:
  "\<exists>s a. process_moves demo_deps demo_running demo_options demo_sentinels (=) (launched demo_started) s
     \<and> p_phase s = Exited ExitNil \<and> answered (p_pool s) = Some [a] \<and> reply_crash a = None
     \<and> op_meter (events (p_world s)) = add4 (op_meter (events demo_world)) (charges [a])"
proof -
  obtain a w where r: "process_moves demo_deps demo_running demo_options demo_sentinels (=) (launched demo_started)
    \<lparr>p_phase = Draining, p_ticker = Ticking,
     p_pool = [(ServeRequest Background (V2EncryptRequest ''secret'' ''u''), Return (Replied a))], p_world = w\<rparr>"
    "reply_crash a = None" by (rule demo_answered)
  let ?s = "\<lparr>p_phase = Draining, p_ticker = Ticking,
     p_pool = [(ServeRequest Background (V2EncryptRequest ''secret'' ''u''), Return (Replied a))], p_world = w\<rparr>"
  let ?t = "exit_with (shut_down demo_running None w) ?s"
  have "process_step demo_deps demo_running demo_options demo_sentinels (=) GracefulStop ?s = Some ?t"
    using r(2) by (simp add: process_step_def alive_def unfinished_def)
  note m = moves_step [OF r(1) this]
  have x: "p_phase ?t = Exited ExitNil" by (simp add: exit_with_def shut_down_exit)
  have p: "answered (p_pool ?t) = Some [a]" by (simp add: exit_with_def)
  from graceful_exit [OF demo_read demo_start m x demo_files] p
  have "op_meter (events (p_world ?t)) = add4 (op_meter (events demo_world)) (charges [a])" by simp
  with m x p r(2) show ?thesis by blast
qed



text \<open>
  C24. The wait for the requests has no limit: while one is pending, nothing but a panic or a failing
  server ends the process, and further signals change nothing.
\<close>

theorem drain_waits:
  assumes "p_phase s = Draining" "unfinished is_request (p_pool s)" "alive (p_pool s)"
  shows "(\<forall>m t. process_step D run opts E outside m s = Some t \<longrightarrow>
       p_phase t = Draining \<or> p_phase t = Exited ExitFatal \<or> (\<exists>k. p_phase t = Exited (ExitPanic k)))
    \<and> list_all (\<lambda>sig. process_step D run opts E outside (SignalArrives sig) s = Some s) notified"
proof
  show "\<forall>m t. process_step D run opts E outside m s = Some t \<longrightarrow>
       p_phase t = Draining \<or> p_phase t = Exited ExitFatal \<or> (\<exists>k. p_phase t = Exited (ExitPanic k))"
  proof (intro allI impI)
    fix m t assume "process_step D run opts E outside m s = Some t"
    from running_alive [OF this assms(3)] have r: "running_step D run opts E outside m s = Some t" by simp
    then have "m \<noteq> GracefulStop" using assms(2) by auto
    with step_phase [OF r] assms(1)
    show "p_phase t = Draining \<or> p_phase t = Exited ExitFatal \<or> (\<exists>k. p_phase t = Exited (ExitPanic k))"
      by (cases "(m, p_phase s, p_phase t)" rule: phase_after.cases) auto
  qed
  show "list_all (\<lambda>sig. process_step D run opts E outside (SignalArrives sig) s = Some s) notified"
    using assms(1,3) by (simp add: notified_def process_step_def shutDownSignal_def)
qed

theorem drain_waits_witness:
  "\<exists>s. process_moves demo_deps demo_running demo_options demo_sentinels (=) (launched demo_started) s \<and> p_phase s = Draining
     \<and> process_step demo_deps demo_running demo_options demo_sentinels (=) (SignalArrives SIGINT) s = Some s"
proof -
  obtain k f where r: "process_moves demo_deps demo_running demo_options demo_sentinels (=) (launched demo_started)
    \<lparr>p_phase = Draining, p_ticker = NotStarted,
     p_pool = [(ServeRequest Background (V2EncryptRequest ''secret'' ''u''), Atom k f)],
     p_world = signal_received ''terminated'' demo_started\<rparr>" (is "process_moves _ _ _ _ _ _ ?s")
    by (rule demo_draining)
  have h: "p_phase ?s = Draining" "unfinished is_request (p_pool ?s)" "alive (p_pool ?s)"
    by (simp_all add: unfinished_def alive_def)
  from drain_waits [OF h, of demo_deps demo_running demo_options demo_sentinels "(=)"] r h(1) show ?thesis
    by (auto simp: notified_def)
qed

text \<open>
  C25. When the HTTP server does not shut down in time, the process returns that error at once: a
  request it has accepted over gRPC is left unanswered for good, although nothing stops it from being
  answered; the gRPC server is not stopped gracefully.
\<close>

theorem failed_shutdown_drops:
  assumes "p_phase s = Stopping" "alive (p_pool s)"
    and "i < length (p_pool s)" "p_pool s ! i = (ServeRequest ctx q, Atom k f)"
  shows "\<exists>t. process_step D run opts E outside (HTTPShutdown (Some e)) s = Some t
    \<and> p_phase t = Exited (ExitErr (ErrWrap ''error while shutting down server'' e))
    \<and> p_pool t ! i = p_pool s ! i \<and> (\<forall>u. process_moves D run opts E outside t u \<longrightarrow> u = t)
    \<and> process_step D run opts E outside (Goroutine (Step i)) s \<noteq> None"
proof (intro exI conjI allI impI)
  let ?t = "exit_with (shut_down run (Some e) (p_world s)) s"
  show "process_step D run opts E outside (HTTPShutdown (Some e)) s = Some ?t"
    using assms(1,2) by (simp add: process_step_def)
  show "p_phase ?t = Exited (ExitErr (ErrWrap ''error while shutting down server'' e))"
    by (simp add: exit_with_def shut_down_def)
  then show "u = ?t" if "process_moves D run opts E outside ?t u" for u
    using exited_moves [OF that] by simp
  show "p_pool ?t ! i = p_pool s ! i" by (simp add: exit_with_def)
  show "process_step D run opts E outside (Goroutine (Step i)) s \<noteq> None"
    using assms by (simp add: process_step_def)
qed

theorem failed_shutdown_drops_witness:
  "\<exists>t. process_moves demo_deps demo_running demo_options demo_sentinels (=) (launched demo_started) t
     \<and> p_phase t = Exited (ExitErr (ErrWrap ''error while shutting down server'' (ErrNew ''context deadline exceeded'')))
     \<and> unfinished is_request (p_pool t)"
proof -
  obtain k f where r: "process_moves demo_deps demo_running demo_options demo_sentinels (=) (launched demo_started)
    \<lparr>p_phase = Stopping, p_ticker = NotStarted,
     p_pool = [(ServeRequest Background (V2EncryptRequest ''secret'' ''u''), Atom k f)],
     p_world = signal_received ''terminated'' demo_started\<rparr>" (is "process_moves _ _ _ _ _ _ ?s")
    by (rule demo_pending)
  have h: "p_phase ?s = Stopping" "alive (p_pool ?s)" "0 < length (p_pool ?s)"
    "p_pool ?s ! 0 = (ServeRequest Background (V2EncryptRequest ''secret'' ''u''), Atom k f)"
    by (simp_all add: alive_def)
  obtain t where t: "process_step demo_deps demo_running demo_options demo_sentinels (=)
        (HTTPShutdown (Some (ErrNew ''context deadline exceeded''))) ?s = Some t"
    "p_phase t = Exited (ExitErr (ErrWrap ''error while shutting down server'' (ErrNew ''context deadline exceeded'')))"
    "p_pool t ! 0 = p_pool ?s ! 0"
    using failed_shutdown_drops [OF h, of demo_deps demo_running demo_options demo_sentinels "(=)" "ErrNew ''context deadline exceeded''"]
    by blast
  have "p_pool t = p_pool ?s" using t(1) by (auto simp: process_step_def exit_with_def split: if_splits)
  then have "unfinished is_request (p_pool t)" by (simp add: unfinished_def)
  with moves_step [OF r t(1)] t(2) show ?thesis by blast
qed

end
