(* ===== verification/Thread_Properties.thy ===== *)
theory Thread_Properties
  imports Thread_Serving Thread_Metrics Thread_Coarse Example_Client Demo_Plugin
begin

text \<open>
  The properties of the plugin under every schedule of its goroutines: the round trip, the health
  endpoint, the metrics, the key version of an answer, and how the coarser model of Plugin_System
  fits in.
\<close>

subsection \<open>A concrete schedule\<close>

text \<open>The demo Vault as a contract.\<close>

definition demo_contract :: "(demo_api, unit, demo_state) contract" where
  "demo_contract = \<lparr>k_deps = demo_deps, k_allowed = (\<lambda>a. True), k_method = WithTokenAuth ''s.demo'',
     k_mount = ''transit'', k_key = ''kms'', k_up = (\<lambda>v. True), k_known = demo_known\<rparr>"

lemma demo_vault_contract: "vault_contract demo_contract"
  using demo_transit_service
  by (simp add: vault_contract_def demo_contract_def tokens_allowed_def vault_keeps_def keeps_def demo_known_def)

lemma demo_k_ok: "k_ok demo_contract demo_world"
  by (simp add: k_ok_def demo_contract_def demo_defs)

definition demo_request :: http_request where
  "demo_request = \<lparr>Method = ''GET'', URLPath = ''/health'', RequestURI = ''/health'',
     RemoteAddr = ''127.0.0.1:1'', Context = Background\<rparr>"

text \<open>A Vault whose key is rotated: its state is the latest version of the key.\<close>

definition rotating_deps :: "(unit, unit, nat) deps" where
  "rotating_deps = \<lparr>
     DefaultConfig = (\<lambda>env. \<lparr>cfg_Address = [], cfg_HttpClient = NewWithTransport (BaseTransport ())\<rparr>),
     ConfigureTLS = (\<lambda>cfg tls s. (Inr cfg, s)), api_NewClient = (\<lambda>cfg env. Inr ()),
     SetAddress = (\<lambda>a s. (None, a)), Address = (\<lambda>a. []), SetNamespace = (\<lambda>a s. a), SetToken = (\<lambda>a s. a),
     Write = (\<lambda>a ctx p d v. (Inr (Some \<lparr>Data = map_of [(''ciphertext'',
         JString (''vault:v'' @ show_nat v @ '':secret''))], Auth = None\<rparr>), v)),
     Read = (\<lambda>a ctx p v. (Inr (Some \<lparr>Data = map_of [(''latest_version'', JNumber (show_nat v))], Auth = None\<rparr>), v)),
     LookupSelf = (\<lambda>a v. (Inr None, v)), RenewSelf = (\<lambda>a n v. (Inr None, v)),
     spiffeid_FromString = (\<lambda>s. Inr (SpiffeID s)), FetchJWTSVID = (\<lambda>ctx ps addr v. (Inl (ErrNew ''no agent''), v))\<rparr>"

definition rotating_world :: "(unit client, nat) world" where
  "rotating_world = \<lparr>heap = fresh_client (), svc = 1, os = demo_os, env_vars = Map.empty, events = []\<rparr>"

subsection \<open>Properties\<close>

text \<open>
  C4. While the goroutines of the plugin interleave action by action (the two calls to Vault of an
  encryption, each log line, each step of a login of the refresher), and Vault changes under them:
  an encryption that has ended has a ciphertext, and every decryption of it that is started later, over
  either API, answers with what was encrypted once it ends.
\<close>

theorem concurrent_round_trip:
  assumes "vault_contract K"
    and "\<And>v v'. k_up K v \<Longrightarrow> outside v v' \<Longrightarrow> keeps (k_up K) (k_known K) v v'"
    and "k_ok K w" "threads_run (k_deps K) run outside ([], w) (pool, w1)"
    and "i < length pool" "pool ! i = (ServeRequest ctx q, Return (Replied a))" "encrypts x q"
  shows "\<exists>ct. ciphertext_of a = Some ct \<and>
    (\<forall>pool' w2 n ctx' q' b. threads_run (k_deps K) run outside (pool, w1) (pool', w2) \<longrightarrow>
       length pool \<le> n \<longrightarrow> n < length pool' \<longrightarrow> pool' ! n = (ServeRequest ctx' q', Return (Replied b)) \<longrightarrow>
       decrypts ct q' \<longrightarrow> plaintext_of b = Some x)"
proof -
  have 0: "pool_upholds (k_rel K) (\<lambda>i. job_post K None) ([], w)" "S_stored K None w"
    by (simp_all add: pool_upholds_def S_stored_def)
  note 1 = k_run [OF assms(1,2,4,3) 0(2) 0(1), simplified]
  from ended_post [OF 1(2) assms(5,6)] have "serve_post K None q a w1" by simp
  then obtain ct where ct: "ciphertext_of a = Some ct" "k_stored K ct x w1"
    using assms(7) by (cases q) auto
  show ?thesis
  proof (intro exI conjI allI impI)
    show "ciphertext_of a = Some ct" by (rule ct(1))
    fix pool' w2 n ctx' q' b
    assume r: "threads_run (k_deps K) run outside (pool, w1) (pool', w2)"
      and n: "length pool \<le> n" "n < length pool'" "pool' ! n = (ServeRequest ctx' q', Return (Replied b))"
      and d: "decrypts ct q'"
    from later_post [OF assms(1,2) r 1(1,2) ct(2) n] have "serve_post K (Some (ct, x)) q' b w2" by simp
    with d show "plaintext_of b = Some x" by (cases q') auto
  qed
qed

text \<open>The witness: the refresher is in the middle of its turn while both requests are served.\<close>

lemma demo_refreshing:
  "\<exists>p. threads_run demo_deps demo_running (=) ([], demo_world) ([(RefreshTick, p)], demo_world) \<and> finished p = None"
proof -
  obtain k f where t: "job_prog demo_deps demo_running RefreshTick = Atom k f"
    by (simp add: reply_prog_def lease_tick_prog_def LookupSelf_prog_def act_def)
  have "thread_step demo_deps demo_running (=) (Start RefreshTick) ([], demo_world)
      = Some ([(RefreshTick, Atom k f)], demo_world)"
    using t by (simp add: alive_def ticking_def)
  from threads_step [OF threads_refl this] show ?thesis by (intro exI [of _ "Atom k f"]) simp
qed

lemma demo_interleaved:
  obtains p pool w1 a where "finished p = None"
    "threads_run demo_deps demo_running (=) ([], demo_world) (pool, w1)"
    "pool = [(RefreshTick, p), (ServeRequest Background (V2EncryptRequest ''secret'' ''u''), Return (Replied a))]"
    "\<not> ends_process (Replied a)"
proof -
  let ?q = "V2EncryptRequest ''secret'' ''u''"
  obtain p where p: "threads_run demo_deps demo_running (=) ([], demo_world) ([(RefreshTick, p)], demo_world)"
    "finished p = None" using demo_refreshing by blast
  obtain a w1 where a: "kms_serve (vault_plugin demo_deps) Background ?q demo_world = (a, w1)" by fastforce
  have "threads_run demo_deps demo_running (=) ([(RefreshTick, p)], demo_world)
      ([(RefreshTick, p)] @ [(ServeRequest Background ?q, Return (Replied a))], w1)"
    by (rule run_job) (use a p(2) in \<open>simp_all add: alive_def\<close>)
  moreover have "\<not> ends_process (Replied a)"
    using served_no_crash [OF demo_ready TrueI _ a, of "''secret''"] by simp
  ultimately show thesis
    using that [OF p(2) threads_trans [OF _ p(1)]] by simp
qed

theorem concurrent_round_trip_witness:
  "\<exists>pool w1 ct b w2 p. threads_run demo_deps demo_running (=) ([], demo_world) (pool, w1)
     \<and> pool ! 0 = (RefreshTick, p) \<and> finished p = None
     \<and> threads_run demo_deps demo_running (=) (pool, w1)
         (pool @ [(ServeRequest Background (V1DecryptRequest ct), Return (Replied b))], w2)
     \<and> plaintext_of b = Some ''secret''"
proof -
  obtain p pool w1 a where r: "finished p = None"
    "threads_run demo_deps demo_running (=) ([], demo_world) (pool, w1)"
    "pool = [(RefreshTick, p), (ServeRequest Background (V2EncryptRequest ''secret'' ''u''), Return (Replied a))]"
    "\<not> ends_process (Replied a)" by (rule demo_interleaved)
  have k: "keeps (k_up demo_contract) (k_known demo_contract) v v'"
    if "k_up demo_contract v" "v = v'" for v v'
    using that by (simp add: keeps_def)
  have d: "k_deps demo_contract = demo_deps" by (simp add: demo_contract_def)
  have i: "1 < length pool" "pool ! 1 = (ServeRequest Background (V2EncryptRequest ''secret'' ''u''), Return (Replied a))"
    using r(3) by simp_all
  have e: "encrypts ''secret'' (V2EncryptRequest ''secret'' ''u'')" by simp
  from concurrent_round_trip [OF demo_vault_contract k demo_k_ok r(2) [folded d] i e, unfolded d]
  obtain ct where ct: "\<forall>pool' w2 n ctx' q' b. threads_run demo_deps demo_running (=) (pool, w1) (pool', w2) \<longrightarrow>
       length pool \<le> n \<longrightarrow> n < length pool' \<longrightarrow> pool' ! n = (ServeRequest ctx' q', Return (Replied b)) \<longrightarrow>
       decrypts ct q' \<longrightarrow> plaintext_of b = Some ''secret''" by blast
  obtain b w2 where b: "kms_serve (vault_plugin demo_deps) Background (V1DecryptRequest ct) w1 = (b, w2)" by fastforce
  let ?pool = "pool @ [(ServeRequest Background (V1DecryptRequest ct), Return (Replied b))]"
  have s: "threads_run demo_deps demo_running (=) (pool, w1) (?pool, w2)"
    by (rule run_job) (use b r in \<open>simp_all add: alive_def\<close>)
  have "plaintext_of b = Some ''secret''"
    using ct [rule_format, OF s, of "length pool" Background "V1DecryptRequest ct" b] by simp
  with r s show ?thesis by (intro exI conjI) (assumption | simp)+
qed

text \<open>
  C14. In every schedule over a Vault that keeps its contract, each health check that ends answers 200
  and \<open>OK\<close>, each probe succeeds, and each status request reports \<open>ok\<close>, whatever the refresher and the
  other handlers do meanwhile.
\<close>

theorem healthy_in_every_schedule:
  assumes "vault_contract K"
    and "\<And>v v'. k_up K v \<Longrightarrow> outside v v' \<Longrightarrow> keeps (k_up K) (k_known K) v v'"
    and "k_ok K w" "threads_run (k_deps K) run outside ([], w) (pool, w1)"
    and "i < length pool" "pool ! i = (j, Return r)"
  shows "(\<forall>now duration req. j = AnswerHealth now duration req \<longrightarrow>
        (\<exists>rp. r = Answered (Ok (), rp) \<and> sent_status rp = 200 \<and> rp_body rp = ''OK''))
    \<and> (\<forall>ctx now. j = ServeRequest ctx (V2StatusRequest now) \<longrightarrow>
        (\<exists>s. r = Replied (StatusReport (Ok s)) \<and> v2_Healthz s = ''ok''))"
proof -
  have 0: "pool_upholds (k_rel K) (\<lambda>i. job_post K None) ([], w)" "S_stored K None w"
    by (simp_all add: pool_upholds_def S_stored_def)
  note 1 = k_run(2) [OF assms(1,2,4,3) 0(2) 0(1), simplified]
  have "job_post K None j r w1" by (rule ended_post [OF 1 assms(5,6)])
  then show ?thesis by (cases j; cases r) auto
qed

theorem healthy_in_every_schedule_witness:
  "\<exists>rp w1. threads_run demo_deps demo_running (=) ([], demo_world)
       ([(AnswerHealth 7 ''1ms'' demo_request, Return (Answered (Ok (), rp)))], w1)
     \<and> sent_status rp = 200 \<and> rp_body rp = ''OK''"
proof -
  obtain r rp w1 where h: "health_handler demo_deps demo_running 7 ''1ms'' demo_request empty_reply demo_world = (r, rp, w1)"
    by (metis prod_cases3)
  let ?pool = "[(AnswerHealth 7 ''1ms'' demo_request, Return (Answered (r, rp)))] :: (demo_api, demo_state) pool"
  have s: "threads_run demo_deps demo_running (=) ([], demo_world) (?pool, w1)"
    using run_job [of "[]" "AnswerHealth 7 ''1ms'' demo_request" demo_deps demo_running demo_world "Answered (r, rp)" w1 "(=)"] h
    by (simp add: alive_def)
  have k: "keeps (k_up demo_contract) (k_known demo_contract) v v'"
    if "k_up demo_contract v" "v = v'" for v v'
    using that by (simp add: keeps_def)
  have d: "k_deps demo_contract = demo_deps" by (simp add: demo_contract_def)
  have i: "0 < length ?pool" "?pool ! 0 = (AnswerHealth 7 ''1ms'' demo_request, Return (Answered (r, rp)))" by simp_all
  from healthy_in_every_schedule [OF demo_vault_contract k demo_k_ok s [folded d] i, unfolded d] s
  show ?thesis by auto
qed

text \<open>
  C15. The operation metrics in every schedule, whatever Vault answers: once every goroutine has ended,
  each encryption and decryption request has been observed once and counted as an error exactly when
  it returned one, and the probes, the status requests and the refresher count for nothing.
\<close>

theorem concurrent_metrics:
  assumes "threads_run D run outside ([], w) (pool, w')" "results pool = Some rs"
  shows "op_meter (events w') = add4 (op_meter (events w)) (charges (replies rs))"
proof -
  have "accounts (op_meter (events w)) [] ([], w)" by (simp add: accounts_def)
  from threads_run_accounts [OF assms(1) this] obtain cs
    where cs: "accounts (op_meter (events w)) cs (pool, w')" by blast
  have "cs = map job_charge rs"
    by (rule accounts_settled [OF assms(2)]) (use cs in \<open>simp_all add: accounts_def\<close>)
  moreover have "total (map job_charge rs) = charges (replies rs)" for rs
    by (induction rs rule: replies.induct) simp_all
  ultimately show ?thesis using cs by (simp add: accounts_def)
qed

theorem concurrent_metrics_witness:
  "\<exists>a pool w'. threads_run demo_deps demo_running (=) ([], demo_world) (pool, w')
     \<and> results pool = Some [Replied a] \<and> op_meter (events w') = charge a"
proof -
  obtain a w' where a: "kms_serve (vault_plugin demo_deps) Background (V1DecryptRequest ''junk'') demo_world = (a, w')"
    by fastforce
  let ?pool = "[(ServeRequest Background (V1DecryptRequest ''junk''), Return (Replied a))] :: (demo_api, demo_state) pool"
  have s: "threads_run demo_deps demo_running (=) ([], demo_world) (?pool, w')"
    using run_job [of "[]" "ServeRequest Background (V1DecryptRequest ''junk'')" demo_deps demo_running demo_world
      "Replied a" w' "(=)"] a by (simp add: alive_def)
  have r: "results ?pool = Some [Replied a]" by simp
  from concurrent_metrics [OF s r] have "op_meter (events w') = charge a"
    by (simp add: demo_world_def op_meter_def)
  with s r show ?thesis by blast
qed

text \<open>
  C16. The key version of an encryption is read in a second call: if Vault changes between the two, the
  v2 answer carries the ciphertext of the old state and the version of the new one, so its key id
  need not be the version that encrypted.
\<close>

theorem key_id_read_later:
  assumes "encrypt_write D (heap w) ctx x w = (Ok ct, w1)" "outside (svc w1) v"
    and "client_GetKeyVersion D (heap w) ctx (w1\<lparr>svc := v\<rparr>) = (Ok kv, w2)"
  shows "\<exists>w'. threads_run D run outside ([], w) ([(ServeRequest ctx (V2EncryptRequest x uid),
      Return (Replied (V2Encrypted (Ok \<lparr>v2_Ciphertext = ct, v2_enc_KeyId = kv\<rparr>))))], w')"
proof -
  let ?j = "ServeRequest ctx (V2EncryptRequest x uid)"
  have h: "heap w1 = heap w" using svc_only_fields [OF encrypt_write_svc_only [OF assms(1)]] by simp
  obtain k1 f1 where 1: "job_prog D run ?j = Atom k1 f1" "f1 w = w1"
    using assms(1) by (simp add: reply_prog_def v2_encrypt_prog_def measured_def Let_def Encrypt_prog_def bind_ok_def act_def)
  obtain p2 where 2: "k1 w = p2" "exec p2 (w1\<lparr>svc := v\<rparr>) = (Replied (V2Encrypted (Ok \<lparr>v2_Ciphertext = ct, v2_enc_KeyId = kv\<rparr>)),
      emit (Observe EncryptionOperationDurationSeconds [])
        (emit (Log InfoLevel ''v2 encryption request'' [FString ''request_id'' uid]) w2))"
    using 1(1) assms(1,3) h
    by (auto simp: reply_prog_def v2_encrypt_prog_def measured_def Let_def Encrypt_prog_def GetKeyVersion_prog_def bind_ok_def
        act_def tell_if_def tell_def andthen_def)
  have "threads_run D run outside ([], w) ([(?j, Atom k1 f1)], w)"
    by (rule threads_step [OF threads_refl, where c = "Start ?j"]) (simp add: alive_def flip: 1(1))
  then have "threads_run D run outside ([], w) ([(?j, p2)], w1)"
    by (rule threads_step [where c = "Step 0"]) (simp add: alive_def 1(2) 2(1))
  then have r: "threads_run D run outside ([], w) ([(?j, p2)], w1\<lparr>svc := v\<rparr>)"
    by (rule threads_step [where c = "OutsideStep v"]) (simp add: assms(2))
  from threads_trans [OF run_alone [OF _ _ _ 2(2), of 0 "[(?j, p2)]" ?j] r] show ?thesis
    by (fastforce simp: others_alive_def)
qed

theorem key_id_read_later_witness:
  "\<exists>w'. threads_run rotating_deps demo_running (\<lambda>v v'. v' = Suc v) ([], rotating_world)
     ([(ServeRequest Background (V2EncryptRequest ''secret'' ''u''),
        Return (Replied (V2Encrypted (Ok \<lparr>v2_Ciphertext = ''vault:v1:secret'', v2_enc_KeyId = ''2''\<rparr>))))], w')"
proof (rule key_id_read_later)
  have s: "show_nat 1 = ''1''" "show_nat (Suc 1) = ''2''" by code_simp+
  show "encrypt_write rotating_deps (heap rotating_world) Background ''secret'' rotating_world
      = (Ok ''vault:v1:secret'', rotating_world)"
    using s by (simp add: encrypt_write_def on_svc_def rotating_deps_def rotating_world_def)
  show "Suc (svc rotating_world) = Suc (svc rotating_world)" ..
  show "client_GetKeyVersion rotating_deps (heap rotating_world) Background
      (rotating_world\<lparr>svc := Suc (svc rotating_world)\<rparr>) = (Ok ''2'', rotating_world\<lparr>svc := Suc (svc rotating_world)\<rparr>)"
    using s by (simp add: client_GetKeyVersion_def on_svc_def rotating_deps_def rotating_world_def)
qed



end
