(* ===== verification/Thread_Fairness.thy ===== *)
theory Thread_Fairness
  imports Thread_Properties
begin

text \<open>
  Runs of the goroutines that go on for ever, and what fairness gives: every goroutine the scheduler
  does not neglect ends, so every request is answered.
\<close>

definition endless_run :: "('c, 't, 'v) deps \<Rightarrow> running \<Rightarrow> ('v \<Rightarrow> 'v \<Rightarrow> bool) \<Rightarrow> (nat \<Rightarrow> 'v choice) \<Rightarrow>
    (nat \<Rightarrow> ('c, 'v) pool \<times> ('c client, 'v) world) \<Rightarrow> bool" where
  "endless_run D run outside c r \<longleftrightarrow> (\<forall>n. thread_step D run outside (c n) (r n) = Some (r (Suc n)))"

text \<open>Weak fairness: again and again the goroutine makes its step, or has none to make.\<close>

definition fair_to :: "('c, 't, 'v) deps \<Rightarrow> running \<Rightarrow> ('v \<Rightarrow> 'v \<Rightarrow> bool) \<Rightarrow> nat \<Rightarrow> (nat \<Rightarrow> 'v choice) \<Rightarrow>
    (nat \<Rightarrow> ('c, 'v) pool \<times> ('c client, 'v) world) \<Rightarrow> bool" where
  "fair_to D run outside i c r \<longleftrightarrow> (\<forall>n. \<exists>k\<ge>n. c k = Step i \<or> thread_step D run outside (Step i) (r k) = None)"

lemma endless_segment:
  assumes "endless_run D run outside c r" "m \<le> n"
  shows "threads_run D run outside (r m) (r n)"
  using assms(2)
proof (induction rule: dec_induct)
  case (step n)
  then show ?case using threads_step assms(1) unfolding endless_run_def by blast
qed (rule threads_refl)

text \<open>A goroutine changes by its own steps only.\<close>

lemma untouched_step:
  "thread_step D run outside c s = Some t \<Longrightarrow> c \<noteq> Step i \<Longrightarrow> i < length (fst s) \<Longrightarrow> fst t ! i = fst s ! i"
  by (cases s; cases c) (auto simp: nth_append split: if_splits prod.splits prog.splits)

lemma untouched:
  assumes "endless_run D run outside c r" "i < length (fst (r m))" "m \<le> n" "\<forall>k. m \<le> k \<and> k < n \<longrightarrow> c k \<noteq> Step i"
  shows "fst (r n) ! i = fst (r m) ! i"
  using assms(3,4)
proof (induction rule: dec_induct)
  case (step n)
  have "i < length (fst (r n))"
    using threads_run_pool [OF endless_segment [OF assms(1) step(1)]] assms(2) by simp
  with untouched_step [of D run outside "c n" "r n" "r (Suc n)" i] assms(1) step
  show ?case by (simp add: endless_run_def)
qed simp

text \<open>While no goroutine panics, each one that is scheduled fairly ends.\<close>

lemma fair_goroutine_ends:
  assumes "endless_run D run outside c r" "fair_to D run outside i c r" "\<And>n. alive (fst (r n))"
  shows "i < length (fst (r m)) \<Longrightarrow> fst (r m) ! i = (j, p) \<Longrightarrow> \<exists>n\<ge>m. \<exists>x. fst (r n) ! i = (j, Return x)"
proof (induction p arbitrary: m)
  case (Atom k f)
  let ?here = "\<lambda>n. m \<le> n \<and> c n = Step i"
  have "\<exists>n. ?here n"
  proof (rule ccontr)
    assume "\<nexists>n. ?here n"
    then have never: "\<forall>k. m \<le> k \<longrightarrow> c k \<noteq> Step i" by simp
    with assms(2) obtain n where n: "m \<le> n" "thread_step D run outside (Step i) (r n) = None"
      unfolding fair_to_def by blast
    have "fst (r n) ! i = (j, Atom k f)"
      using untouched [OF assms(1) Atom.prems(1) n(1)] never Atom.prems(2) by simp
    moreover have "i < length (fst (r n))"
      using threads_run_pool [OF endless_segment [OF assms(1) n(1)]] Atom.prems(1) by simp
    ultimately show False using n(2) assms(3) [of n] by (cases "r n") simp
  qed
  then obtain n where n: "m \<le> n" "c n = Step i" "\<forall>k < n. \<not> ?here k"
    unfolding exists_least_iff [of ?here] by blast
  have "\<forall>k. m \<le> k \<and> k < n \<longrightarrow> c k \<noteq> Step i" using n(3) by blast
  from untouched [OF assms(1) Atom.prems(1) n(1) this] have p: "fst (r n) ! i = (j, Atom k f)" using Atom.prems(2) by simp
  have l: "i < length (fst (r n))"
    using threads_run_pool [OF endless_segment [OF assms(1) n(1)]] Atom.prems(1) by simp
  have "thread_step D run outside (Step i) (r n) = Some (r (Suc n))"
    using assms(1) n(2) unfolding endless_run_def by metis
  with p l have "r (Suc n) = ((fst (r n))[i := (j, k (snd (r n)))], f (snd (r n)))"
    by (cases "r n") (simp split: if_splits)
  with l have "i < length (fst (r (Suc n)))" "fst (r (Suc n)) ! i = (j, k (snd (r n)))" by simp_all
  with Atom.IH obtain n' x where "Suc n \<le> n'" "fst (r n') ! i = (j, Return x)" by blast
  with n(1) show ?case by (intro exI [of _ n']) auto
qed auto

text \<open>A finite schedule before an endless one is an endless one.\<close>

lemma endless_prepend:
  assumes "threads_run D run outside s t" "endless_run D run outside c r" "r 0 = t"
  shows "\<exists>c' r' N. endless_run D run outside c' r' \<and> r' 0 = s \<and> (\<forall>n. r' (N + n) = r n)"
  using assms
proof (induction arbitrary: c r rule: threads_run.induct)
  case (threads_refl s)
  then show ?case by (intro exI [of _ c] exI [of _ r] exI [of _ 0]) simp
next
  case (threads_step s t d u)
  let ?c = "case_nat d c" and ?r = "case_nat t r"
  have "endless_run D run outside ?c ?r"
    using threads_step.hyps(2) threads_step.prems by (simp add: endless_run_def split: nat.split)
  with threads_step.IH [of ?c ?r] obtain c' r' N
    where e: "endless_run D run outside c' r'" "r' 0 = s" "\<forall>n. r' (N + n) = ?r n" by auto
  then have "r' (Suc N + n) = r n" for n using e(3) [rule_format, of "Suc n"] by simp
  with e show ?case by blast
qed

lemma endless_idle:
  "outside (svc (snd s)) (svc (snd s)) \<Longrightarrow> endless_run D run outside (\<lambda>n. OutsideStep (svc (snd s))) (\<lambda>n. s)"
  by (cases s) (simp add: endless_run_def)

text \<open>A panic is never undone.\<close>

lemma threads_run_alive: "threads_run D run outside s t \<Longrightarrow> alive (fst t) \<Longrightarrow> alive (fst s)"
proof (induction rule: threads_run.induct)
  case (threads_step s t c u)
  then show ?case by (cases t; cases c) (auto split: if_splits)
qed

text \<open>A schedule in two parts, after which every goroutine has ended and Vault changes no more, is endless and fair.\<close>

lemma endless_of_parts:
  assumes "threads_run D run outside s t" "threads_run D run outside t u"
    and "list_all (\<lambda>(j, p). finished p \<noteq> None) (fst u)" "alive (fst u)" "outside (svc (snd u)) (svc (snd u))"
  obtains c r m n where "endless_run D run outside c r" "r 0 = s" "r m = t" "\<forall>k\<ge>n. r k = u"
    "\<forall>i. fair_to D run outside i c r" "\<forall>k. alive (fst (r k))"
proof -
  obtain c1 r1 N1 where 1: "endless_run D run outside c1 r1" "r1 0 = t" "\<forall>n. r1 (N1 + n) = u"
    using endless_prepend [OF assms(2) endless_idle] assms(5) by blast
  obtain c r N where 2: "endless_run D run outside c r" "r 0 = s" "\<forall>n. r (N + n) = r1 n"
    using endless_prepend [OF assms(1) 1(1,2)] by blast
  have u: "r k = u" if "N + N1 \<le> k" for k
    using 2(3) [rule_format, of "k - N"] 1(3) [rule_format, of "k - N - N1"] that by simp
  have stuck: "thread_step D run outside (Step i) u = None" for i
    using assms(3) by (cases u) (auto simp: list_all_length split: prod.splits prog.splits)
  have "fair_to D run outside i c r" for i
    unfolding fair_to_def
  proof
    fix n
    show "\<exists>k\<ge>n. c k = Step i \<or> thread_step D run outside (Step i) (r k) = None"
      using stuck u [of "max n (N + N1)"] by (intro exI [of _ "max n (N + N1)"]) simp
  qed
  moreover have "alive (fst (r k))" for k
    using threads_run_alive [OF endless_segment [OF 2(1), of k "max k (N + N1)"]] u [of "max k (N + N1)"] assms(4) by simp
  ultimately show thesis
    using that [OF 2(1,2), of N "N + N1"] u 2(3) [rule_format, of 0] 1(2) by simp
qed

subsection \<open>Property\<close>

text \<open>
  C5. Under a fair scheduler, over a Vault that keeps its contract and as long as no goroutine panics,
  every encryption that is requested is answered with a ciphertext at last; and every decryption of such
  a ciphertext, requested after the answer over either API, is answered with what was encrypted.
\<close>

theorem fair_requests_answered:
  assumes "vault_contract K"
    and "\<And>v v'. k_up K v \<Longrightarrow> outside v v' \<Longrightarrow> keeps (k_up K) (k_known K) v v'"
    and "k_ok K w" "endless_run (k_deps K) run outside c r" "r 0 = ([], w)"
    and "\<And>i. fair_to (k_deps K) run outside i c r" "\<And>n. alive (fst (r n))"
    and "i < length (fst (r m))" "fst (fst (r m) ! i) = ServeRequest ctx q" "encrypts x q"
  shows "(\<exists>n\<ge>m. \<exists>a ct. fst (r n) ! i = (ServeRequest ctx q, Return (Replied a)) \<and> ciphertext_of a = Some ct)
    \<and> (\<forall>n a ct l j ctx' q'. m \<le> n \<longrightarrow> fst (r n) ! i = (ServeRequest ctx q, Return (Replied a)) \<longrightarrow>
        ciphertext_of a = Some ct \<longrightarrow> length (fst (r n)) \<le> j \<longrightarrow> j < length (fst (r l)) \<longrightarrow>
        fst (fst (r l) ! j) = ServeRequest ctx' q' \<longrightarrow> decrypts ct q' \<longrightarrow>
        (\<exists>n'\<ge>l. \<exists>b. fst (r n') ! j = (ServeRequest ctx' q', Return (Replied b)) \<and> plaintext_of b = Some x))"
proof (intro conjI allI impI)
  note run = endless_segment [OF assms(4)]
  have len: "k \<le> n \<Longrightarrow> length (fst (r k)) \<le> length (fst (r n))" for k n
    using threads_run_pool [OF run] by blast
  have up0: "pool_upholds (k_rel K) (\<lambda>i. job_post K None) ([], w)" "S_stored K None w"
    by (simp_all add: pool_upholds_def S_stored_def)
  have up: "k_ok K (snd (r n))" "pool_upholds (k_rel K) (\<lambda>i. job_post K None) (fst (r n), snd (r n))" for n
    using k_run [OF assms(1,2) _ assms(3) up0(2) up0(1), where pool' = "fst (r n)" and w' = "snd (r n)"] run [of 0 n] assms(5) by simp_all
  have ends: "\<exists>n\<ge>m. \<exists>y. fst (r n) ! i = (j, Return y)" if "i < length (fst (r m))" "fst (fst (r m) ! i) = j" for i j m
    using fair_goroutine_ends [OF assms(4,6,7) that(1), of j "snd (fst (r m) ! i)"] that(2) by (metis prod.collapse)
  have enc: "\<exists>a ct. y = Replied a \<and> ciphertext_of a = Some ct \<and> k_stored K ct x (snd (r n))"
    if "m \<le> n" "fst (r n) ! i = (ServeRequest ctx q, Return y)" for n y
  proof -
    from ended_post [OF up(2) _ that(2)] len [OF that(1)] assms(8)
    have "job_post K None (ServeRequest ctx q) y (snd (r n))" by simp
    with assms(10) show ?thesis by (cases y; cases q) auto
  qed
  from ends [OF assms(8,9)] enc
  show "\<exists>n\<ge>m. \<exists>a ct. fst (r n) ! i = (ServeRequest ctx q, Return (Replied a)) \<and> ciphertext_of a = Some ct" by blast
  fix n a ct l j ctx' q'
  assume n: "m \<le> n" "fst (r n) ! i = (ServeRequest ctx q, Return (Replied a))" "ciphertext_of a = Some ct"
    and j: "length (fst (r n)) \<le> j" "j < length (fst (r l))" "fst (fst (r l) ! j) = ServeRequest ctx' q'" "decrypts ct q'"
  from ends [OF j(2,3)] obtain n' y where n': "l \<le> n'" "fst (r n') ! j = (ServeRequest ctx' q', Return y)" by blast
  have nn': "n \<le> n'" using len [of l n] n'(1) j(1,2) by (cases "n \<le> l") simp_all
  have "job_post K (Some (ct, x)) (ServeRequest ctx' q') y (snd (r n'))"
    by (rule later_post [OF assms(1,2) _ up _ j(1) _ n'(2)])
      (use run [OF nn'] enc [OF n(1,2)] n(3) j(2) len [OF n'(1)] in auto)
  with j(4) n' show "\<exists>n'\<ge>l. \<exists>b. fst (r n') ! j = (ServeRequest ctx' q', Return (Replied b)) \<and> plaintext_of b = Some x"
    by (cases y; cases q') auto
qed

theorem fair_requests_answered_witness:
  "\<exists>c r n b. endless_run demo_deps demo_running (=) c r \<and> r 0 = ([], demo_world)
     \<and> (\<forall>i. fair_to demo_deps demo_running (=) i c r)
     \<and> (\<exists>ct. fst (r n) ! 1 = (ServeRequest Background (V1DecryptRequest ct), Return (Replied b)))
     \<and> plaintext_of b = Some ''secret''"
proof -
  let ?q = "V2EncryptRequest ''secret'' ''u''"
  obtain a w1 where a: "kms_serve (vault_plugin demo_deps) Background ?q demo_world = (a, w1)" by fastforce
  have e: "encrypts ''secret'' ?q" by simp
  from served_encrypts [OF demo_ready TrueI e, of Background] a
  obtain ct where ct: "ciphertext_of a = Some ct"
    and w1: "transit_service demo_deps (api (heap w1)) (TransitEngine (heap w1)) (TransitKey (heap w1)) (\<lambda>v. True) demo_known"
      "demo_known ct (b64_encode StdEncoding ''secret'') (svc w1)"
    by (auto simp del: kms_serve.simps)
  let ?q' = "V1DecryptRequest ct"
  obtain b w2 where b: "kms_serve (vault_plugin demo_deps) Background ?q' w1 = (b, w2)" by fastforce
  let ?p1 = "[(ServeRequest Background ?q, Return (Replied a))] :: (demo_api, demo_state) pool"
  let ?p2 = "?p1 @ [(ServeRequest Background ?q', Return (Replied b))]"
  have na: "reply_crash a = None" by (rule served_no_crash [OF demo_ready TrueI e a])
  from served_decrypts [OF w1(1) TrueI w1(2), of ?q' Background "[]"] b
  have "plaintext_of b = Some ''secret''" by (simp del: kms_serve.simps)
  then have nb: "reply_crash b = None" by (cases b rule: plaintext_of.cases) simp_all
  have 1: "threads_run demo_deps demo_running (=) ([], demo_world) (?p1, w1)"
    using run_job [of "[]" "ServeRequest Background ?q" demo_deps demo_running demo_world "Replied a" w1 "(=)"] a
    by (simp add: alive_def)
  have 2: "threads_run demo_deps demo_running (=) (?p1, w1) (?p2, w2)"
    by (rule run_job) (use b na in \<open>simp_all add: alive_def\<close>)
  have 3: "list_all (\<lambda>(j, p). finished p \<noteq> None) (fst (?p2, w2))" "alive (fst (?p2, w2))" "svc (snd (?p2, w2)) = svc (snd (?p2, w2))"
    using na nb by (simp_all add: alive_def)
  obtain c r m n where r: "endless_run demo_deps demo_running (=) c r" "r 0 = ([], demo_world)" "r m = (?p1, w1)"
    "\<forall>k\<ge>n. r k = (?p2, w2)" "\<forall>i. fair_to demo_deps demo_running (=) i c r" "\<forall>k. alive (fst (r k))"
    by (rule endless_of_parts [OF 1 2 3])
  have k: "keeps (k_up demo_contract) (k_known demo_contract) v v'"
    if "k_up demo_contract v" "v = v'" for v v'
    using that by (simp add: keeps_def)
  have d: "k_deps demo_contract = demo_deps" by (simp add: demo_contract_def)
  have i: "0 < length (fst (r m))" "fst (fst (r m) ! 0) = ServeRequest Background ?q" using r(3) by simp_all
  have j: "fst (r m) ! 0 = (ServeRequest Background ?q, Return (Replied a))" "length (fst (r m)) \<le> 1"
    "1 < length (fst (r n))" "fst (fst (r n) ! 1) = ServeRequest Background ?q'" "decrypts ct ?q'"
    using r(3) r(4) [rule_format, of n] by simp_all
  note f = conjunct2 [OF fair_requests_answered [OF demo_vault_contract k demo_k_ok r(1) [folded d] r(2)
      r(5) [folded d, rule_format] r(6) [rule_format] i e], rule_format, OF _ _ order_refl j(1) ct j(2-5)]
  obtain n' b' where "fst (r n') ! 1 = (ServeRequest Background ?q', Return (Replied b'))" "plaintext_of b' = Some ''secret''"
    using f by blast
  with r(1,2,5) show ?thesis by blast
qed

end
