(* ===== verification/Process_Serving.thy ===== *)
theory Process_Serving
  imports Stopping_Properties Thread_Fairness
begin

text \<open>
  The service over the whole life of processes: what the goroutines uphold (Thread_Serving) holds from
  the start of a process through its signals and its shutdown, and what one process has encrypted a
  later one decrypts, also with other options.
\<close>

subsection \<open>What a process upholds\<close>

text \<open>The moves that are no steps of goroutines leave the client and Vault alone.\<close>

lemma deferred_client [simp]: "heap (deferred run w) = heap w" "svc (deferred run w) = svc w"
  by (simp_all add: deferred_def clean_up_def)

lemma shut_down_client: "heap (snd (shut_down run e w)) = heap w" "svc (snd (shut_down run e w)) = svc w"
  by (simp_all add: shut_down_def split: option.split)

lemma refresher_start_client:
  "token_refresher D opts [] w = (r, w') \<Longrightarrow> heap w' = heap w \<and> svc w' = svc w"
  by (auto simp: token_refresher_def LeaseRefresher_def split: if_splits)

lemma other_move_client:
  assumes "running_step D run opts E outside m s = Some t" "\<nexists>c. m = Goroutine c"
  shows "heap (p_world t) = heap (p_world s)" "svc (p_world t) = svc (p_world s)"
proof -
  have "heap (p_world t) = heap (p_world s) \<and> svc (p_world t) = svc (p_world s)"
  proof (cases m)
    case StartRefresher
    with assms(1) show ?thesis
      by (auto simp: exit_with_def dest!: refresher_start_client split: if_splits prod.splits refresher.splits)
  next
    case (SignalArrives sig)
    with assms(1) show ?thesis
      by (auto simp: shutDownSignal_def signal_received_def split: if_splits option.splits)
  qed (use assms in \<open>auto simp: exit_with_def server_ended_def grpc_served_def http_served_def shut_down_client
        split: if_splits option.splits prod.splits\<close>)
  then show "heap (p_world t) = heap (p_world s)" "svc (p_world t) = svc (p_world s)" by simp_all
qed

lemma k_rel_client: "heap v = heap u \<Longrightarrow> svc v = svc u \<Longrightarrow> k_rel K u v"
  by (rule k_rel_call) (simp_all add: keeps_def k_ok_def)

text \<open>\<open>T i\<close> is the ciphertext stored when the goroutine \<open>i\<close> was started, or none.\<close>

definition process_upholds :: "('c, 't, 'v) contract \<Rightarrow> (bytes \<times> bytes) option \<Rightarrow> (nat \<Rightarrow> (bytes \<times> bytes) option) \<Rightarrow>
    ('c, 'v) process \<Rightarrow> bool" where
  "process_upholds K S T s \<longleftrightarrow> k_ok K (p_world s) \<and> S_stored K S (p_world s)
     \<and> pool_upholds (k_rel K) (\<lambda>i. job_post K (T i)) (p_pool s, p_world s)"

lemma process_upholds_world:
  assumes "process_upholds K S T s" "k_rel K (p_world s) (p_world t)" "p_pool t = p_pool s"
  shows "process_upholds K S T t"
proof -
  have i: "interference (k_rel K)" by unfold_locales
  from assms(1) have s: "k_ok K (p_world s)" "S_stored K S (p_world s)"
    "pool_upholds (k_rel K) (\<lambda>i. job_post K (T i)) (p_pool s, p_world s)"
    by (simp_all add: process_upholds_def)
  from s(3) interference.upholds_rel [OF i _ assms(2)]
  have "pool_upholds (k_rel K) (\<lambda>i. job_post K (T i)) (p_pool t, p_world t)"
    unfolding pool_upholds_def assms(3) fst_conv snd_conv by blast
  with k_steady.ok_rel [OF s(1) assms(2)] S_stored_rel [OF s(1,2) assms(2)] show ?thesis
    by (simp add: process_upholds_def)
qed

lemma process_step_upholds:
  assumes "vault_contract K" "\<And>v v'. k_up K v \<Longrightarrow> outside v v' \<Longrightarrow> keeps (k_up K) (k_known K) v v'"
    and "process_step (k_deps K) run opts E outside m s = Some t" "\<And>i. T i = S \<or> T i = None"
    and "process_upholds K S T s"
  shows "process_upholds K S T t"
proof (cases "alive (p_pool s)")
  case True
  from running_alive [OF assms(3) True] have r: "running_step (k_deps K) run opts E outside m s = Some t" by simp
  show ?thesis
  proof (cases "\<exists>c. m = Goroutine c")
    case True
    with r obtain c pool w where st: "thread_step (k_deps K) run outside c (p_pool s, p_world s) = Some (pool, w)"
      and t: "t = s\<lparr>p_pool := pool, p_world := w\<rparr>"
      by (auto split: if_splits option.splits)
    note st = threads_step [OF threads_refl st]
    have s: "k_ok K (p_world s)" "S_stored K S (p_world s)"
      "pool_upholds (k_rel K) (\<lambda>i. job_post K (T i)) (p_pool s, p_world s)"
      using assms(5) by (simp_all add: process_upholds_def)
    from k_run [OF assms(1,2) st s assms(4)]
    show ?thesis by (simp add: process_upholds_def t)
  next
    case False
    note o = other_move_client [OF r False]
    show ?thesis
      by (rule process_upholds_world [OF assms(5) k_rel_client [OF o]]) (use other_move [OF r False] in simp)
  qed
next
  case False
  from panic_step [OF assms(3) False] obtain k where "t = exit_with (ExitPanic k, p_world s) s" by blast
  with assms(5) show ?thesis by (simp add: process_upholds_def exit_with_def)
qed

lemma process_moves_uphold:
  assumes "process_moves (k_deps K) run opts E outside s t" "vault_contract K"
    and "\<And>v v'. k_up K v \<Longrightarrow> outside v v' \<Longrightarrow> keeps (k_up K) (k_known K) v v'" "\<And>i. T i = S \<or> T i = None"
    and "process_upholds K S T s"
  shows "process_upholds K S T t"
  using assms(1,5)
proof (induction rule: process_moves.induct)
  case (moves_step s t m u)
  show ?case by (rule process_step_upholds [OF assms(2,3) moves_step.hyps(2) assms(4) moves_step.IH [OF moves_step.prems]])
qed

lemma process_ended:
  "process_upholds K S T s \<Longrightarrow> i < length (p_pool s) \<Longrightarrow> p_pool s ! i = (j, Return r) \<Longrightarrow> job_post K (T i) j r (p_world s)"
  unfolding process_upholds_def using ended_post by blast

text \<open>
  A start over a Vault that keeps its contract: the transit key of the contract is the one of the
  options, its login method is the one the start remembered, and the token it got is good for the key.
\<close>

definition starts_over :: "('c, 't, 'v) contract \<Rightarrow> options \<Rightarrow> ('c client, 'v) world \<Rightarrow> bool" where
  "starts_over K opts w \<longleftrightarrow> vault_contract K \<and> k_mount K = o_TransitMount opts \<and> k_key K = o_TransitKey opts
     \<and> AuthMethodFunc (heap w) = Some (k_method K) \<and> k_allowed K (api (heap w)) \<and> k_up K (svc w)"

lemma launched_upholds:
  assumes "read_options parse D env args = Run opts" "start_plugin D logger opts none w0 = (Inr run, w)"
    and "starts_over K opts w" "S_stored K S w"
  shows "process_upholds K S T (launched w)"
proof -
  from started_client(1) [OF assms(2) read_options_complete [OF assms(1)]]
  have "TransitEngine (heap w) = o_TransitMount opts" "TransitKey (heap w) = o_TransitKey opts"
    by (simp_all add: config_of_def)
  with assms(3,4) show ?thesis
    by (simp add: process_upholds_def launched_def pool_upholds_def k_ok_def starts_over_def)
qed

subsection \<open>Properties\<close>

text \<open>
  C3. What one process has answered to an encryption is decrypted by every later process with the same
  transit key, over either API, to what was encrypted: whatever each of them was doing meanwhile
  (turns of the refresher, other requests, signals, its shutdown), whatever its other options are
  (another login method, another set of APIs), and as long as Vault keeps the key in between.
\<close>

theorem restart_round_trip:
  assumes "read_options parse D env args = Run opts" "start_plugin D logger opts none w0 = (Inr run, w)"
    and "read_options parse' D env' args' = Run opts'" "start_plugin D logger' opts' none' w0' = (Inr run', w')"
    and "starts_over K opts w" "k_deps K = D"
    and "starts_over K' opts' w'" "k_deps K' = D" "k_up K' = k_up K" "k_known K' = k_known K"
    and "\<And>v v'. k_up K v \<Longrightarrow> outside v v' \<Longrightarrow> keeps (k_up K) (k_known K) v v'"
    and "process_moves D run opts E outside (launched w) s" "keeps (k_up K) (k_known K) (svc (p_world s)) (svc w')"
    and "process_moves D run' opts' E outside (launched w') s'"
    and "i < length (p_pool s)" "p_pool s ! i = (ServeRequest ctx q, Return (Replied a))" "encrypts x q"
    and "n < length (p_pool s')" "p_pool s' ! n = (ServeRequest ctx' q', Return (Replied b))"
  shows "\<exists>ct. ciphertext_of a = Some ct \<and> (decrypts ct q' \<longrightarrow> plaintext_of b = Some x)"
proof -
  have 1: "process_upholds K None (\<lambda>i. None) s"
    by (rule process_moves_uphold [OF assms(12) [folded assms(6)] _ assms(11)])
      (use assms(5) launched_upholds [OF assms(1,2,5)] in \<open>simp_all add: starts_over_def S_stored_def\<close>)
  from process_ended [OF 1 assms(15,16)] assms(17)
  obtain ct where ct: "ciphertext_of a = Some ct" "k_stored K ct x (p_world s)" by (cases q) auto
  have "S_stored K' (Some (ct, x)) w'"
    using ct(2) assms(10,13) by (simp add: S_stored_def k_stored_def keeps_def)
  from launched_upholds [OF assms(3,4,7) this]
  have 2: "process_upholds K' (Some (ct, x)) (\<lambda>i. Some (ct, x)) (launched w')" .
  have "process_upholds K' (Some (ct, x)) (\<lambda>i. Some (ct, x)) s'"
    by (rule process_moves_uphold [OF assms(14) [folded assms(8)] _ _ _ 2])
      (use assms(7,9-11) in \<open>simp_all add: starts_over_def\<close>)
  from process_ended [OF this assms(18,19)] ct(1) show ?thesis by (cases q') auto
qed

text \<open>The demo answers an encryption and stops; started again, with the v1 API, it decrypts.\<close>

lemma demo_method:
  "AuthMethodFunc (heap demo_started) = Some (WithTokenAuth ''s.demo'')"
proof -
  obtain ca w1 am fs files w2 c w3 l w4
    where 1: "propagate_ca demo_options demo_world = (Inr ca, w1)" "select_auth demo_options w1 = (Inr (am, fs, files), w2)"
      "connect demo_deps demo_options am (log_info ''starting kms plugin'' (startup_fields demo_options @ ca @ fs) w2) = (Ok c, w3)"
      "open_listener demo_options (set_heap c (log_info ''Successfully authenticated to vault'' [] w3)) = (Inr l, w4)"
      "heap demo_started = heap w4"
    by (rule start_plugin_steps [OF demo_start]) blast
  from 1(2) have "am = WithTokenAuth ''s.demo''" by (simp add: demo_select)
  with 1(3) have "AuthMethodFunc c = Some (WithTokenAuth ''s.demo'')"
    by (auto simp: demo_login demo_client_def split: if_splits)
  with 1(5) open_listener_frame [OF 1(4)] show ?thesis by simp
qed

lemma demo_starts_over: "starts_over demo_contract demo_options demo_started"
  using demo_vault_contract demo_method
  by (simp add: starts_over_def demo_contract_def demo_options_def zero_options_def)

theorem restart_round_trip_witness:
  "\<exists>s a ct s' b. process_moves demo_deps demo_running demo_options demo_sentinels (=) (launched demo_started) s
     \<and> p_pool s = [(ServeRequest Background (V2EncryptRequest ''secret'' ''u''), Return (Replied a))]
     \<and> ciphertext_of a = Some ct
     \<and> process_moves demo_deps demo_running demo_options demo_sentinels (=) (launched demo_started) s'
     \<and> p_pool s' = [(ServeRequest Background (V1DecryptRequest ct), Return (Replied b))]
     \<and> plaintext_of b = Some ''secret''"
proof -
  let ?q = "V2EncryptRequest ''secret'' ''u''"
  obtain w1 where w1: "process_moves demo_deps demo_running demo_options demo_sentinels (=) (launched demo_started)
    \<lparr>p_phase = Serving, p_ticker = Ticking, p_pool = [], p_world = w1\<rparr>" "heap w1 = heap demo_started"
    by (rule demo_ticking)
  have ts: "transit_service demo_deps (api (heap w1)) (TransitEngine (heap w1)) (TransitKey (heap w1)) (\<lambda>v. True) demo_known"
    using demo_client_started w1(2) by simp
  obtain a w2 where a: "kms_serve (vault_plugin demo_deps) Background ?q w1 = (a, w2)" by fastforce
  have e: "encrypts ''secret'' ?q" by simp
  have na: "reply_crash a = None" by (rule served_no_crash [OF ts TrueI e a])
  from served_encrypts [OF ts TrueI e, of Background] a
  obtain ct where ct: "ciphertext_of a = Some ct" "demo_known ct (b64_encode StdEncoding ''secret'') (svc w2)"
    by (auto simp del: kms_serve.simps)
  let ?q' = "V1DecryptRequest ct"
  obtain b w3 where b: "kms_serve (vault_plugin demo_deps) Background ?q' w1 = (b, w3)" by fastforce
  have kn: "demo_known ct (b64_encode StdEncoding ''secret'') (svc w1)" using ct(2) by (simp add: demo_known_def)
  have d: "decrypts ct ?q'" by simp
  have nb: "reply_crash b = None"
    using served_decrypts [OF ts TrueI kn d, of Background "[]"] b
    by (cases b rule: plaintext_of.cases) (simp_all del: kms_serve.simps)
  let ?s = "\<lparr>p_phase = Serving, p_ticker = Ticking, p_pool = [(ServeRequest Background ?q, Return (Replied a))], p_world = w2\<rparr>"
  let ?s' = "\<lparr>p_phase = Serving, p_ticker = Ticking, p_pool = [(ServeRequest Background ?q', Return (Replied b))], p_world = w3\<rparr>"
  have s: "process_moves demo_deps demo_running demo_options demo_sentinels (=) (launched demo_started) ?s"
    "process_moves demo_deps demo_running demo_options demo_sentinels (=) (launched demo_started) ?s'"
    by (rule demo_served [OF a na w1(1)], simp add: demo_running_def)
      (rule demo_served [OF b nb w1(1)], simp add: demo_running_def)
  have k: "keeps (k_up demo_contract) (k_known demo_contract) v v'" for v v'
    by (simp add: keeps_def demo_contract_def demo_known_def)
  have i: "0 < length (p_pool ?s)" "p_pool ?s ! 0 = (ServeRequest Background ?q, Return (Replied a))"
    "0 < length (p_pool ?s')" "p_pool ?s' ! 0 = (ServeRequest Background ?q', Return (Replied b))" by simp_all
  have c: "k_deps demo_contract = demo_deps" by (simp add: demo_contract_def)
  from restart_round_trip [OF demo_read demo_start demo_read demo_start demo_starts_over c demo_starts_over c refl refl
      k s(1) k s(2) i(1,2) e i(3,4)] ct(1) d
  have "plaintext_of b = Some ''secret''" by simp
  with s ct(1) show ?thesis by fastforce
qed

end
