(* ===== verification/Test_Workload_API.thy ===== *)
theory Test_Workload_API
  imports Test_Utils Socket_Endpoint
begin

text \<open>
  \<open>StartFakeJWTWorkloadAPI\<close> of \<open>pkg/testutils/testutils_spiffe.go\<close>: the socket the fake Workload API is
  served on, and the clean-up functions the test runs at its end, last registered first. A failing
  requirement ends the test, which runs them too. The gRPC server behind the socket only hands the
  calls to the fake; of its \<open>Stop\<close> the closing of the listener is modelled, which unlinks the socket.
\<close>

datatype cleanup_call = ServerStop string | RemoveAll string

fun run_cleanups :: "cleanup_call list \<Rightarrow> os_state \<Rightarrow> os_state" where
  "run_cleanups [] s = s"
| "run_cleanups (ServerStop socket # cs) s = run_cleanups cs (snd (os_Remove socket s))"
| "run_cleanups (RemoveAll dir # cs) s = run_cleanups cs (snd (os_RemoveAll dir s))"

definition StartFakeJWTWorkloadAPI :: "('h, 'v) world \<Rightarrow>
    (go_error + string) \<times> cleanup_call list \<times> ('h, 'v) world" where
  "StartFakeJWTWorkloadAPI w =
     (case on_os (os_MkdirTemp ''spiffe-'') w of
        (Inl e, w1) \<Rightarrow> (Inl (ErrWrap ''create fake workload API socket directory'' e), [], w1)
      | (Inr socketDir, w1) \<Rightarrow>
          (let socketPath = socketDir @ ''/'' @ ''workload-api.sock'' in
           case on_os (net_Listen ''unix'' socketPath) w1 of
             (Inl e, w2) \<Rightarrow> (Inl (ErrWrap ''listen on fake workload API socket'' e), [RemoveAll socketDir], w2)
           | (Inr listener, w2) \<Rightarrow>
               (Inr (''unix://'' @ socketPath), [ServerStop listener, RemoveAll socketDir], w2)))"

text \<open>A file lies in a directory that exists.\<close>

definition rooted :: "os_state \<Rightarrow> bool" where
  "rooted s \<longleftrightarrow> (\<forall>d p. os_files s d = None \<longrightarrow> take (length d + 1) p = d @ ''/'' \<longrightarrow> os_files s p = None)"

lemma RemoveAll_new:
  assumes "\<And>n. os_fault s ''removeall'' n = None" "rooted r" "os_files r d = None"
    and "\<And>p. p \<noteq> d \<Longrightarrow> take (length d + 1) p \<noteq> d @ ''/'' \<Longrightarrow> os_files s p = os_files r p"
  shows "os_files (snd (os_RemoveAll d s)) = os_files r"
  using assms by (auto simp: os_RemoveAll_def call_fault_def next_call_def rooted_def fun_eq_iff)

text \<open>
  However it goes, the end of the test leaves no file behind; the endpoint of a test that started is
  the address of a socket that is there.
\<close>

lemma fake_api_files:
  assumes "StartFakeJWTWorkloadAPI w = (r, cs, w')" "rooted (os w)"
    and "\<And>n. os_fault (os w) ''removeall'' n = None"
  shows "os_files (run_cleanups cs (os w')) = os_files (os w)
    \<and> (\<forall>a. r = Inr a \<longrightarrow> (\<exists>path. a = ''unix://'' @ path \<and> os_files (os w') path = Some SocketFile))"
proof -
  obtain x s1 where m: "os_MkdirTemp ''spiffe-'' (os w) = (x, s1)" by fastforce
  show ?thesis
  proof (cases x)
    case (Inl e)
    with m assms(1) create_temp_failed [of "''mkdirtemp''" "Directory []" 10000 "''spiffe-''" "[]" "os w" e s1] show ?thesis
      by (auto simp: StartFakeJWTWorkloadAPI_def on_os_def os_MkdirTemp_def)
  next
    case (Inr d)
    have d: "os_files (os w) d = None" "os_files s1 = (os_files (os w))(d := Some (Directory []))" "os_fault s1 = os_fault (os w)"
      using create_temp_fresh [of "''mkdirtemp''" "Directory []" 10000 "''spiffe-''" "[]" "os w" d s1] m Inr
      by (simp_all add: os_MkdirTemp_def)
    let ?p = "d @ ''/'' @ ''workload-api.sock''"
    obtain y s2 where l: "net_Listen ''unix'' ?p s1 = (y, s2)" by fastforce
    have s2: "os_files s2 q = os_files s1 q" "os_fault s2 = os_fault s1" if "q \<noteq> ?p" for q
      using net_Listen_files(1,2) [of "''unix''" ?p s1] l that by (auto dest: fun_cong [of _ _ q])
    have f: "os_fault s2 = os_fault (os w)" using net_Listen_files(2) [of "''unix''" ?p s1] l d(3) by simp
    have gone: "os_files (snd (os_RemoveAll d s)) = os_files (os w)"
      if "os_fault s = os_fault s2" "\<And>q. q \<noteq> ?p \<Longrightarrow> os_files s q = os_files s2 q" for s
    proof (rule RemoveAll_new [OF _ assms(2) d(1)])
      show "os_fault s ''removeall'' n = None" for n using that(1) f assms(3) by simp
      show "os_files s q = os_files (os w) q" if "q \<noteq> d" "take (length d + 1) q \<noteq> d @ ''/''" for q
      proof -
        have "q \<noteq> ?p" using that(2) by auto
        with that(1) \<open>\<And>q. q \<noteq> ?p \<Longrightarrow> os_files s q = os_files s2 q\<close> s2(1) d(2) show ?thesis by simp
      qed
    qed
    show ?thesis
    proof (cases y)
      case y: (Inl e)
      with assms(1) m Inr l have "cs = [RemoveAll d]" "os w' = s2" "\<And>a. r \<noteq> Inr a"
        by (auto simp: StartFakeJWTWorkloadAPI_def on_os_def Let_def)
      then show ?thesis using gone [of s2] by simp
    next
      case y: (Inr b)
      then have b: "b = ?p" "os_files s2 ?p = Some SocketFile"
        using l by (auto simp: net_Listen_def next_call_def split: if_splits option.splits prod.splits)
      from assms(1) m Inr l y have c: "cs = [ServerStop b, RemoveAll d]" "os w' = s2" "r = Inr (''unix://'' @ ?p)"
        by (auto simp: StartFakeJWTWorkloadAPI_def on_os_def Let_def)
      have "os_files (snd (os_RemoveAll d (snd (os_Remove b s2)))) = os_files (os w)"
      proof (rule gone)
        show "os_files (snd (os_Remove b s2)) q = os_files s2 q" if "q \<noteq> ?p" for q
          by (subst os_Remove_files(1)) (use that b(1) in simp)
      qed (simp add: os_Remove_files(2))
      with c b show ?thesis by simp
    qed
  qed
qed

end
