(* ===== verification/Spec2Isabelle.thy ===== *)
theory Spec2Isabelle
  imports Example_Client Vault_Properties Plugin_Properties Test_Certs Process_Serving
    Test_Workload_API
begin

text \<open>
  vault-kubernetes-kms: a Kubernetes KMS plugin (API v1 and v2) that encrypts and decrypts through the
  transit engine of a HashiCorp Vault. This theory imports the development, holds the properties that
  span components, and says here what is modelled.

  The program. \<open>main.go\<close> calls \<open>cmd.NewPlugin\<close>, which reads and validates its options, logs in at Vault
  (\<open>pkg/vault\<close>), starts the goroutine that keeps the token alive (\<open>pkg/vault/lease.go\<close>), opens a unix
  socket (\<open>pkg/socket\<close>), registers the two gRPC wrappers (\<open>pkg/plugin\<close>) and a small HTTP server for
  metrics and health (\<open>pkg/metrics\<close>, \<open>pkg/probes\<close>, \<open>pkg/http\<close>), and waits for a signal. The wrappers,
  the probes and the refresher share one client object.

  Conventions. Strings and byte slices are lists of bytes. A Go function that can fail is a function
  to \<open>outcome\<close> (a value, an error, a panic) or to a sum; an error is a value with the chain
  \<open>errors.As\<close> walks. Effects are explicit in \<open>world\<close> (Go_World): the shared objects, the state of the
  services behind the network, the file system with its failing calls, the environment, and the list
  of the calls made on the logger and the collectors. Closures are data: a login option is a value
  of \<open>client_option\<close>, run by \<open>apply_option\<close>, and the remembered \<open>AuthMethodFunc\<close> is such a value.
  Third-party libraries (the Vault API, SPIFFE, caarlos0/env, gRPC, Prometheus) are arguments, most of
  them fields of the record \<open>deps\<close> (Vault_API); what a theorem needs of them is its hypothesis, and
  its witness instantiates them with \<open>Demo_Vault\<close> and \<open>Demo_Plugin\<close>.

  Theories and what they model.
  KMS_Prelude, Go_World, Go_Strings, Go_Base64, Go_Float, Go_Duration, Go_PEM, Go_Flag: the values and
  the parts of Go's standard library the source uses (\<open>os\<close>, \<open>strings\<close>, \<open>net/url\<close>, \<open>strconv\<close>,
  \<open>encoding/base64\<close>, \<open>json.Number.Float64\<close> with its rounding, \<open>time.ParseDuration\<close> with its \<open>uint64\<close>
  arithmetic, \<open>encoding/pem\<close>, \<open>flag\<close>), with their round trips and bounds.
  Metrics, Http, Probes: \<open>pkg/metrics\<close>, \<open>pkg/http\<close>, \<open>pkg/probes\<close>.
  Plugin_API, Plugin_V1, Plugin_V2, Plugin_Service: the interface \<open>Plugin\<close> as a record with the locales
  \<open>quiet_plugin\<close>, \<open>kms_service\<close> and \<open>metered_kms\<close> (what a provider owes the wrappers), the two wrappers,
  and the service they are together.
  Vault_API, Vault_Client, Vault_Transit, Vault_Lease, Vault_PEM: \<open>client.go\<close>, \<open>const.go\<close>, \<open>jwt.go\<close>,
  \<open>transit.go\<close>, \<open>lease.go\<close>, \<open>pem.go\<close>. The locale \<open>jwt_source\<close> is the Go interface \<open>jwtTokenSource\<close>,
  interpreted on the file and the SPIFFE source; the Vault client is an interpretation of the
  wrappers' locales; \<open>lease_invariant\<close> has the loop of the refresher, interpreted for what it keeps
  of the client, of the files and of the service.
  Socket_Endpoint, Plugin_Options, Plugin_Environment, Plugin_Startup, Plugin_Lifecycle: \<open>pkg/socket\<close>
  and \<open>cmd/plugin.go\<close>, with the tags that name the environment variables and defaults of the options,
  cut at the points where \<open>NewPlugin\<close> waits: \<open>read_options\<close>, \<open>start_plugin\<close>, \<open>token_refresher\<close>,
  \<open>health_handler\<close>, \<open>shut_down\<close>; and the files a start creates and an end removes.
  Plugin_System, Plugin_Process: the running plugin as the step relation \<open>sys_run\<close> (whole requests,
  probes, turns of the refresher and changes at Vault interleave) and the life of the process as
  \<open>process_run\<close>, one rule per way it ends.
  Programs, Client_Programs, Plugin_Programs: every operation again as a program, a tree of atomic
  actions (a call to Vault, a write to the shared client, a log line, an observation), equal to the
  operation when it runs alone. Plugin_Threads: the pool of goroutines that step through such
  programs, with requests, probes and turns started at any time, and Vault changing in between.
  Thread_Serving: what every schedule keeps of the key, by a rely and guarantee relation (locale
  \<open>interference\<close>). Thread_Quiet: the locales \<open>quiet_actions\<close> and \<open>loud_actions\<close>, a relation all actions
  keep to, interpreted for the operation metrics (Thread_Metrics, with an account of what each
  goroutine has paid) and for the files (Thread_Files). Thread_Coarse: \<open>sys_run\<close> is one way to
  schedule the pool. Thread_Properties: the properties of every schedule. Thread_Fairness: endless
  runs of the pool, weak fairness, and that every request is answered under a fair scheduler.
  Plugin_Stopping, Stopping_Properties: the process with its goroutines from the start of the refresher
  to its end, as a machine whose phases are those of \<open>NewPlugin\<close> after the wait (the HTTP server shuts
  down, the gRPC server is drained, the process returns). Process_Serving: what the goroutines uphold
  over the whole life of such a process, and from one process to a later one.
  Logging: the configuration of the logger.
  KMS_Store: the abstract specification, a store of (ciphertext, plaintext) pairs, and the
  simulation. Example_Client: \<open>cmd/v2_client\<close>.
  Test_Utils, Test_Certs, Test_Workload_API: \<open>pkg/testutils\<close>, the containers of the tests with their
  files, the fake Workload API and its socket, the certificates and the signed tokens; the container
  library and the cryptography are the records \<open>docker\<close> and \<open>crypto\<close>.
  Demo_Vault, Demo_Plugin: a concrete Vault and a concrete start, for the witnesses.
  Vault_Properties, Plugin_Properties, this theory, and the last sections of Socket_Endpoint, Http,
  Test_Utils and Test_Certs: the properties, numbered over the whole development.

  What is shown. Of the service: what either API encrypted either decrypts, after any requests, as a
  refinement of the store, under every schedule of the goroutines, and by a process that is started
  later; every request is answered if the scheduler is fair; status, health and metrics
  tell the truth, in every schedule too; the key version of an answer is the later of two reads. Of
  the client: what each login and transit operation sends, what it keeps when it fails, which answers
  crash it. Of the refresher: when it renews (exactly, for all the rounding), when it logs in again,
  that it keeps the token alive and that it stops. Of the command: which options are accepted, which
  intervals fit, what a started plugin is guaranteed to have, and that its end leaves the file system
  as it was, except after \<open>Fatal\<close>; that a stop comes to an end and answers what was accepted, unless
  the HTTP server does not shut down in time. Of the test utilities: that a TLS container leaves its
  own files or none, and that certificates and tokens have the right form.

  Bounds and termination. Loops are structural or have a measure (PEM blocks, flags, durations get
  shorter); no fuel is used but the 10000 attempts of \<open>os.CreateTemp\<close>, which is Go's own bound. The
  refresher's endless loop runs over the list of what its \<open>select\<close> receives, so a theorem holds for
  every finite part of its life; the goroutines of a stop are well-founded (each action leaves a part
  of its program), and an endless run of goroutines is a sequence of states. The lease theorem is for
  lifetimes below \<open>2 ^ 53\<close> seconds, where \<open>float64\<close> is exact.

  Not modelled. What Go leaves undefined when the refresher's write of a field of the client and a
  handler's read of it meet (in Plugin_Threads a read or write of the client is one action); the HTTP
  server's own protocol and the matching of its routes; what zap does with its configuration (a call
  on the logger is an event, also one its level or its sampling drops); gRPC behind the list of
  services that \<open>Register\<close> adds to; \<open>tools/tools.go\<close>; and of \<open>pkg/testutils\<close> the gRPC server behind
  the fake Workload API and the pause before the initialisation of a TLS container.
\<close>

section \<open>The KMS service\<close>

text \<open>
  C1. Whatever was encrypted through either KMS API is decrypted by either KMS API, after any further
  requests of any kind were served, on a Vault whose transit key works.
\<close>

theorem kms_round_trip:
  assumes "transit_service D (api (heap w)) (TransitEngine (heap w)) (TransitKey (heap w)) up known"
    and "up (svc w)" and "encrypts x q"
  shows "\<exists>ct w1. ciphertext_of (fst (kms_serve (vault_plugin D) ctx q w)) = Some ct
    \<and> snd (kms_serve (vault_plugin D) ctx q w) = w1
    \<and> (\<forall>qs ctx' q'. decrypts ct q' \<longrightarrow>
         plaintext_of (fst (kms_serve (vault_plugin D) ctx' q' (snd (kms_run (vault_plugin D) qs w1)))) = Some x)"
  using served_encrypts [OF assms, of ctx] served_decrypts [of D _ up known] by auto

theorem kms_round_trip_witness:
  "\<exists>ct w1. ciphertext_of (fst (kms_serve (vault_plugin demo_deps) Background
        (V1EncryptRequest ''secret'') demo_world)) = Some ct
    \<and> snd (kms_serve (vault_plugin demo_deps) Background (V1EncryptRequest ''secret'') demo_world) = w1
    \<and> plaintext_of (fst (kms_serve (vault_plugin demo_deps) Background (V2DecryptRequest ct ''u'')
        (snd (kms_run (vault_plugin demo_deps) [(Background, V2StatusRequest 0)] w1)))) = Some ''secret''"
proof -
  have 1: "encrypts ''secret'' (V1EncryptRequest ''secret'')" and 2: "\<And>ct. decrypts ct (V2DecryptRequest ct ''u'')"
    by simp_all
  from kms_round_trip [OF demo_ready TrueI 1, of Background] 2 show ?thesis
    by blast
qed

text \<open>
  C2. The two wrappers over the Vault client refine one store of (ciphertext, plaintext) pairs: from
  any state, every run of requests of both APIs is a run of the store, which never gives one
  ciphertext two plaintexts; the wrappers, the metrics, the probes and the logs add nothing to it.
\<close>

theorem kms_refines_store:
  assumes "transit_service D (api (heap w)) (TransitEngine (heap w)) (TransitKey (heap w)) up known"
    and "up (svc w)"
  shows "\<exists>S. store_run {} qs (fst (kms_run (vault_plugin D) qs w)) S \<and> single_valued S"
  by (rule vault_refines_store [OF assms]) blast

theorem kms_refines_store_witness:
  "\<exists>S. store_run {} [(Background, V1EncryptRequest ''secret''), (Background, V2StatusRequest 0)]
     (fst (kms_run (vault_plugin demo_deps)
        [(Background, V1EncryptRequest ''secret''), (Background, V2StatusRequest 0)] demo_world)) S
     \<and> single_valued S"
  using kms_refines_store [OF demo_ready TrueI] .

text \<open>
  The same while the plugin runs: after a ciphertext was answered, any interleaving of requests of
  both APIs, health probes, turns of the lease refresher (with its renewals and new logins) and
  changes on Vault's side leaves it decryptable to the same bytes, through either API.
\<close>

theorem system_round_trip:
  assumes "\<And>a. allowed a \<Longrightarrow> transit_service D a mount key up known"
    and "vault_keeps D up known" and "login_serves D allowed m"
    and "\<And>v v'. up v \<Longrightarrow> outside v v' \<Longrightarrow> keeps up known v v'"
    and "config_of (heap w) = (mount, key, n)" and "allowed (api (heap w))"
    and "AuthMethodFunc (heap w) = Some m" and "up (svc w)" and "encrypts x q"
    and "kms_serve (vault_plugin D) ctx q w = (a, w1)"
  shows "\<exists>ct. ciphertext_of a = Some ct \<and>
    (\<forall>as w2 ctx' q'. sys_run D run outside w1 as w2 \<longrightarrow> decrypts ct q' \<longrightarrow>
       plaintext_of (fst (kms_serve (vault_plugin D) ctx' q' w2)) = Some x)"
proof -
  have ts: "transit_service D (api (heap w)) (TransitEngine (heap w)) (TransitKey (heap w)) up known"
    using assms(1) [OF assms(6)] assms(5) by (simp add: config_of_def)
  from served_encrypts [OF ts assms(8,9), of ctx] assms(10) obtain ct
    where ct: "ciphertext_of a = Some ct" "known ct (b64_encode StdEncoding x) (svc w1)" "up (svc w1)"
    by auto
  have h: "heap w1 = heap w"
    using vault_framed.kms_serve_framed [OF assms(10)] by (simp add: framed_def)
  then have 1: "serving D allowed m up known ct (b64_encode StdEncoding x) w1" "config_of (heap w1) = (mount, key, n)"
    using ct assms(5-7) by (simp_all add: serving_def)
  show ?thesis
  proof (intro exI conjI allI impI)
    show "ciphertext_of a = Some ct" by (rule ct(1))
    fix as w2 ctx' q' assume r: "sys_run D run outside w1 as w2" and d: "decrypts ct q'"
    from sys_run_serving [OF r assms(1-4) 1(2,1)]
    have 2: "serving D allowed m up known ct (b64_encode StdEncoding x) w2" "config_of (heap w2) = (mount, key, n)"
      by simp_all
    then have "transit_service D (api (heap w2)) (TransitEngine (heap w2)) (TransitKey (heap w2)) up known"
      using assms(1) by (simp add: serving_def config_of_def)
    from served_decrypts [OF this _ _ d, of x ctx' "[]"] 2(1)
    show "plaintext_of (fst (kms_serve (vault_plugin D) ctx' q' w2)) = Some x"
      by (simp add: serving_def)
  qed
qed

theorem system_round_trip_witness:
  "\<exists>ct a w1. kms_serve (vault_plugin demo_deps) Background (V2EncryptRequest ''secret'' ''u'') demo_world = (a, w1)
    \<and> ciphertext_of a = Some ct
    \<and> plaintext_of (fst (kms_serve (vault_plugin demo_deps) Background (V1DecryptRequest ct) w1)) = Some ''secret''"
proof -
  let ?q = "V2EncryptRequest ''secret'' ''u''"
  obtain a w1 where s: "kms_serve (vault_plugin demo_deps) Background ?q demo_world = (a, w1)" by fastforce
  have k: "vault_keeps demo_deps (\<lambda>v. True) demo_known"
    by (simp add: vault_keeps_def keeps_def demo_known_def)
  have l: "login_serves demo_deps (\<lambda>a. True) (WithTokenAuth ''s.demo'')"
    by (simp add: login_serves_def)
  have c: "config_of (heap demo_world) = (''transit'', ''kms'', 3600)"
    "AuthMethodFunc (heap demo_world) = Some (WithTokenAuth ''s.demo'')"
    by (simp_all add: config_of_def demo_defs)
  have e: "encrypts ''secret'' ?q" by simp
  have "\<exists>ct. ciphertext_of a = Some ct \<and> (\<forall>as w2 ctx' q'.
      sys_run demo_deps \<lparr>run_listener = [], run_services = [KMS1, KMS2], run_checks = [KMS1, KMS2], run_files = []\<rparr> (=) w1 as w2 \<longrightarrow> decrypts ct q' \<longrightarrow>
        plaintext_of (fst (kms_serve (vault_plugin demo_deps) ctx' q' w2)) = Some ''secret'')"
    by (rule system_round_trip [OF demo_transit_service k l _ c(1) TrueI c(2) TrueI e s])
      (simp add: keeps_def)
  then obtain ct where ct: "ciphertext_of a = Some ct"
    "\<forall>q'. decrypts ct q' \<longrightarrow> plaintext_of (fst (kms_serve (vault_plugin demo_deps) Background q' w1)) = Some ''secret''"
    using sys_done by blast
  have "decrypts ct (V1DecryptRequest ct)" by simp
  with s ct show ?thesis by blast
qed

text \<open>
  C13. Status of the KMS v2 API, over any plugin: it answers exactly when the key version can be read
  and the probe does not crash, with the version that was read and with \<open>ok\<close> exactly when what the
  probe encrypted was decrypted to the same bytes.
\<close>

theorem status_reports_probe:
  "fst (v2_Status now (NewPluginV2 p) ctx w) = Ok s \<longleftrightarrow>
     (\<exists>kv w1. GetKeyVersion p ctx w = (Ok kv, w1) \<and> \<not> probe_crashes p ctx w1
        \<and> s = \<lparr>v2_Version = ''v2'', v2_Healthz = (if probe_passes p ctx w1 then ''ok'' else ''err''),
               v2_KeyId = kv\<rparr>)"
proof (cases "GetKeyVersion p ctx w")
  case (Pair r w1)
  obtain h w2 where "v2_Health now (NewPluginV2 p) ctx w1 = (h, w2)" by fastforce
  with Pair v2_Health_probe [of now p ctx w1] show ?thesis
    by (cases r; cases h) (auto simp: v2_Status_def NewPluginV2_def Let_def)
qed

text \<open>
  The operation metrics: over any run of requests of both APIs, whatever Vault answers, every
  encryption and decryption request is observed once and counted as an error exactly when it
  returned one, and the probes and status requests count for nothing.
\<close>

theorem kms_metrics_account:
  "op_meter (events (snd (kms_run (vault_plugin D) qs w)))
     = add4 (op_meter (events w)) (charges (fst (kms_run (vault_plugin D) qs w)))"
  using vault_quiet.kms_run_meter by (metis prod.collapse)


text \<open>
  C17. The health endpoint: 200 and \<open>OK\<close> are written exactly when every prober of the list succeeded in
  turn, and 500 with the error's text exactly when a prober failed after all before it succeeded.
\<close>

theorem healthz_verdict:
  "(HealthZ ps req empty_reply w = (Ok (), write_body ''OK'' (WriteHeader 200 empty_reply), w')
     \<longleftrightarrow> (\<exists>w1. passes ps (Context req) w w1 \<and> w' = log_debug ''health checks succeeded'' [] w1))
   \<and> (sent_status (fst (snd (HealthZ ps req empty_reply w))) = 500
     \<longleftrightarrow> (\<exists>pre p suf w1 e w2. ps = pre @ Some p # suf \<and> passes pre (Context req) w w1
           \<and> p (Context req) w1 = (Err e, w2)
           \<and> rp_body (fst (snd (HealthZ ps req empty_reply w))) = error_text e))"
proof (rule conjI)
  note pre = HealthZ_passes [of ps, where qs = "[]", simplified]
  show "HealthZ ps req empty_reply w = (Ok (), write_body ''OK'' (WriteHeader 200 empty_reply), w')
     \<longleftrightarrow> (\<exists>w1. passes ps (Context req) w w1 \<and> w' = log_debug ''health checks succeeded'' [] w1)"
    by (cases rule: HealthZ_cases [of ps "Context req" w])
      (auto simp: pre HealthZ_passes empty_reply_def write_body_def WriteHeader_def Let_def
        passes_append dest: passes_det)
  show "sent_status (fst (snd (HealthZ ps req empty_reply w))) = 500
     \<longleftrightarrow> (\<exists>pre p suf w1 e w2. ps = pre @ Some p # suf \<and> passes pre (Context req) w w1
           \<and> p (Context req) w1 = (Err e, w2)
           \<and> rp_body (fst (snd (HealthZ ps req empty_reply w))) = error_text e)"
    (is "?L \<longleftrightarrow> ?R")
  proof
    assume ?L
    then show ?R
    proof (cases rule: HealthZ_cases [of ps "Context req" w])
      case (failed pre p suf w1 e w2)
      then have "rp_body (fst (snd (HealthZ ps req empty_reply w))) = error_text e"
        by (simp add: HealthZ_passes)
      with failed show ?thesis by blast
    qed (auto simp: pre HealthZ_passes)
  qed (auto simp: HealthZ_passes)
qed

text \<open>
  While the transit key can be used the health endpoint of the running plugin answers 200 and \<open>OK\<close>,
  with the probers of the wrappers that are enabled, whichever they are.
\<close>

theorem healthy_while_vault_works:
  assumes "transit_service D (api (heap w)) (TransitEngine (heap w)) (TransitKey (heap w)) up known"
    and "up (svc w)"
  shows "\<exists>w'. health_handler D run now duration req empty_reply w
    = (Ok (), write_body ''OK'' (WriteHeader 200 empty_reply), w')"
proof -
  have "kms_health vk_impl k (D, up, known) = kms_health vault_plugin k D" for k
    by (cases k) (simp_all add: vk_impl_def)
  with vault_kms.healthz_good [OF transit_service_ready [OF assms],
      of "map (\<lambda>k. case k of KMS1 \<Rightarrow> KMSv1_API | KMS2 \<Rightarrow> KMSv2_API now) (run_checks run)" req empty_reply]
  show ?thesis
    by (auto simp: health_handler_def LoggingMiddleware_def comp_def)
qed

theorem healthy_while_vault_works_witness:
  "\<exists>rp w'. health_handler demo_deps demo_running 0 ''1ms''
       \<lparr>Method = ''GET'', URLPath = ''/health'', RequestURI = ''/health'', RemoteAddr = ''127.0.0.1:1'', Context = RequestContext 1\<rparr>
       empty_reply demo_world = (Ok (), rp, w') \<and> sent_status rp = 200 \<and> rp_body rp = ''OK''"
  using healthy_while_vault_works [OF demo_ready TrueI, of demo_running 0 "''1ms''"] by fastforce


text \<open>
  C39. The example client, over a gRPC connection that carries its calls to the plugin's v2 wrapper: it
  prints its arguments, some ciphertext in base64 and its arguments again, and exits with 0.
\<close>

theorem example_client_round_trip:
  assumes "transit_service D (api (heap w)) (TransitEngine (heap w)) (TransitKey (heap w)) up known" "up (svc w)"
    and "carries stub D ctx now" "dial (''unix:'' @ socket) = None" "1 < length args"
  shows "\<exists>ct. fst (client_main dial stub args w) =
    \<lparr>stdout = [CHR 0x22] @ go_join '' '' (drop 1 args) @ [CHR 0x22] @ '' -> ''
        @ [CHR 0x22] @ b64_encode StdEncoding ct @ [CHR 0x22] @ '' -> ''
        @ [CHR 0x22] @ go_join '' '' (drop 1 args) @ [CHR 0x22, CHR 0x0A],
      fatal = [], code = 0\<rparr>"
  by (rule client_main_works [where up = up and known = known and dial = dial, OF assms]) blast

text \<open>A connection that calls the handlers directly.\<close>

definition demo_stub :: "(demo_api client, demo_state) kms_stub" where
  "demo_stub = \<lparr>
     stub_Status = (\<lambda>c w. case kms_serve (vault_plugin demo_deps) Background (V2StatusRequest 0) w of
       (StatusReport (Ok r), w') \<Rightarrow> (Inr r, w') | (a, w') \<Rightarrow> (Inl (ErrNew ''rpc error''), w')),
     stub_Encrypt = (\<lambda>c x w. case kms_serve (vault_plugin demo_deps) Background (V2EncryptRequest x []) w of
       (V2Encrypted (Ok r), w') \<Rightarrow> (Inr r, w') | (a, w') \<Rightarrow> (Inl (ErrNew ''rpc error''), w')),
     stub_Decrypt = (\<lambda>c y w. case kms_serve (vault_plugin demo_deps) Background (V2DecryptRequest y []) w of
       (V2Decrypted (Ok r), w') \<Rightarrow> (Inr r, w') | (a, w') \<Rightarrow> (Inl (ErrNew ''rpc error''), w'))\<rparr>"

theorem example_client_round_trip_witness:
  "code (fst (client_main (\<lambda>a. None) demo_stub [''v2_client'', ''hello'', ''world''] demo_world)) = 0"
proof -
  have "carries demo_stub demo_deps Background 0"
    by (simp add: carries_def demo_stub_def del: kms_serve.simps)
  moreover have "1 < length [''v2_client'', ''hello'', ''world'']" by simp
  ultimately show ?thesis
    using example_client_round_trip [OF demo_ready TrueI, of demo_stub Background 0 "\<lambda>a. None"
        "[''v2_client'', ''hello'', ''world'']"] by auto
qed

end
